(* ===== verification/Prelude.thy ===== *)
theory Prelude
  imports Main "HOL-Library.Word" "HOL-Library.Char_ord" "HOL-Library.List_Lexorder"
    "HOL-Library.Product_Lexorder"
begin

section \<open>Prelude: the vocabulary of the development\<close>

text \<open>
  The names every other theory uses: the exceptions of the backend and the result type that
  carries them, sequencing of fallible steps, reading a query result the way SQLAlchemy's
  \<open>scalar_one_or_none\<close> does, updating the rows of a table, and the generic facts on lists
  the components share.  A locale states what an in-place update of a keyed table keeps; the
  components interpret it on their own tables.
\<close>

subsection \<open>Instants, identifiers, exceptions\<close>

text \<open>
  A timezone-aware \<open>datetime\<close> is the number of microseconds since the Unix epoch; a
  \<open>UUID\<close> is its 128-bit value (its order, in Python and in PostgreSQL, is the order of that
  value).
\<close>

type_synonym instant = int
type_synonym uuid = "128 word"

text \<open>
  \<open>AppError\<close> is the application's own exception (core/errors.py); the other constructors are
  the exceptions of Python, SQLAlchemy, the token layer, the object store, Redis and Starlette that its code
  lets through or catches.
\<close>

datatype exc =
    AppError (status_code: int) (app_code: string) (app_message: string)
  | InvalidTokenError
  | IntegrityError
  | MultipleResultsFound
  | AttributeError
  | ValueError
  | TypeError
  | KeyError
  | OverflowError
  | OSError
  | RuntimeError
  | S3Error string
  | ObjectChangedError
  | RedisError
  | ValidationError
  | WebSocketException string
  | WebSocketDisconnect

type_synonym 'a result = "exc + 'a"

named_theorems frame \<comment> \<open>what an operation leaves unchanged\<close>
named_theorems wf_intros \<comment> \<open>introduction rules for the table invariants\<close>

subsection \<open>Sequencing fallible steps\<close>

fun ebind :: "'e + 'a \<Rightarrow> ('a \<Rightarrow> 'e + 'b) \<Rightarrow> 'e + 'b" where
  "ebind (Inl e) f = Inl e"
| "ebind (Inr x) f = f x"

lemma ebind_Inr_iff: "ebind r f = Inr y \<longleftrightarrow> (\<exists>x. r = Inr x \<and> f x = Inr y)"
  by (cases r) auto

lemma ebind_Inl_iff:
  "ebind r f = Inl e \<longleftrightarrow> r = Inl e \<or> (\<exists>x. r = Inr x \<and> f x = Inl e)"
  by (cases r) auto

lemma ebind_InrE [elim]:
  assumes "ebind r f = Inr y"
  obtains x where "r = Inr x" and "f x = Inr y"
  using assms by (auto simp: ebind_Inr_iff)

lemma ebind_cong [fundef_cong]:
  "r = r' \<Longrightarrow> (\<And>x. r' = Inr x \<Longrightarrow> f x = f' x) \<Longrightarrow> ebind r f = ebind r' f'"
  by (cases r') auto

lemma if_Inl_eq_Inr [simp]: "(if b then Inl e else r) = Inr x \<longleftrightarrow> \<not> b \<and> r = Inr x"
  by auto

fun traverse :: "('a \<Rightarrow> 'e + 'b) \<Rightarrow> 'a list \<Rightarrow> 'e + 'b list" where
  "traverse f [] = Inr []"
| "traverse f (x # xs) = ebind (f x) (\<lambda>y. ebind (traverse f xs) (\<lambda>ys. Inr (y # ys)))"

lemma traverse_Inr_map:
  "traverse f xs = Inr ys \<Longrightarrow> length ys = length xs \<and> (\<forall>i < length xs. f (xs ! i) = Inr (ys ! i))"
proof (induction xs arbitrary: ys)
  case (Cons x xs)
  then obtain y zs where *: "f x = Inr y" "traverse f xs = Inr zs" "ys = y # zs"
    by (auto simp: ebind_Inr_iff)
  show ?case
    using Cons.IH [OF *(2)] *(1,3) by (auto simp: nth_Cons split: nat.split)
qed simp

lemma traverse_total:
  "(\<And>x. x \<in> set xs \<Longrightarrow> f x = Inr (g x)) \<Longrightarrow> traverse f xs = Inr (map g xs)"
  by (induction xs) auto

subsection \<open>Query results\<close>

text \<open>
  \<open>Result.scalar_one_or_none\<close>: no row gives None, one row gives it, more rows raise.
\<close>

fun scalar_one_or_none :: "'a list \<Rightarrow> 'a option result" where
  "scalar_one_or_none [] = Inr None"
| "scalar_one_or_none [x] = Inr (Some x)"
| "scalar_one_or_none (x # y # zs) = Inl MultipleResultsFound"

lemma scalar_one_or_none_Some:
  "scalar_one_or_none xs = Inr (Some x) \<longleftrightarrow> xs = [x]"
  by (cases xs rule: scalar_one_or_none.cases) auto

lemma scalar_one_or_none_None: "scalar_one_or_none xs = Inr None \<longleftrightarrow> xs = []"
  by (cases xs rule: scalar_one_or_none.cases) auto

lemma scalar_one_or_none_Inl: "scalar_one_or_none xs = Inl e \<Longrightarrow> 2 \<le> length xs"
  by (cases xs rule: scalar_one_or_none.cases) auto

lemma distinct_map_filter_le_one:
  assumes "distinct (map key xs)" and "\<And>x. x \<in> set xs \<Longrightarrow> P x \<Longrightarrow> key x = k"
  shows "length (filter P xs) \<le> 1"
  using assms
proof (induction xs)
  case (Cons a xs)
  show ?case
  proof (cases "P a")
    case True
    with Cons.prems have "\<forall>x \<in> set xs. \<not> P x"
      by (metis distinct.simps(2) image_eqI list.set_intros(1,2) list.set_map list.simps(9))
    then have "filter P xs = []" by (simp add: filter_empty_conv)
    then show ?thesis by simp
  next
    case False
    with Cons show ?thesis by simp
  qed
qed simp

lemma scalar_one_or_none_unique:
  assumes "length (filter P xs) \<le> 1"
  shows "scalar_one_or_none (filter P xs) = Inr (find P xs)"
proof (cases "filter P xs" rule: scalar_one_or_none.cases)
  case 1
  then have "find P xs = None" by (simp add: find_None_iff filter_empty_conv)
  with 1 show ?thesis by simp
next
  case (2 x)
  have "find P xs = Some x"
    using 2 by (induction xs) (auto split: if_splits)
  with 2 show ?thesis by simp
qed (use assms in auto)

lemma find_SomeD: "find P xs = Some x \<Longrightarrow> x \<in> set xs \<and> P x"
  by (induction xs) (auto split: if_splits)

lemma find_append: "find P (xs @ ys) = (case find P xs of None \<Rightarrow> find P ys | Some x \<Rightarrow> Some x)"
  by (induction xs) auto

lemma find_key_distinct:
  assumes "distinct (map key xs)" and "x \<in> set xs"
  shows "find (\<lambda>y. key y = key x) xs = Some x"
  using assms by (induction xs) (auto simp: image_iff)

subsection \<open>Updating the rows of a table\<close>

definition update_where :: "('r \<Rightarrow> bool) \<Rightarrow> ('r \<Rightarrow> 'r) \<Rightarrow> 'r list \<Rightarrow> 'r list" where
  "update_where P f rows = map (\<lambda>r. if P r then f r else r) rows"

lemma update_where_Nil [simp]: "update_where P f [] = []"
  by (simp add: update_where_def)

lemma update_where_Cons [simp]:
  "update_where P f (r # rows) = (if P r then f r else r) # update_where P f rows"
  by (simp add: update_where_def)

lemma length_update_where [simp]: "length (update_where P f rows) = length rows"
  by (simp add: update_where_def)

lemma set_update_where:
  "set (update_where P f rows) = f ` {r \<in> set rows. P r} \<union> {r \<in> set rows. \<not> P r}"
  by (auto simp: update_where_def)

lemma in_update_whereE:
  assumes "r' \<in> set (update_where P f rows)"
  obtains r where "r \<in> set rows" and "r' = (if P r then f r else r)"
  using assms by (auto simp: update_where_def)

lemma map_update_where [simp]:
  assumes "\<And>r. g (f r) = g r"
  shows "map g (update_where P f rows) = map g rows"
  using assms by (simp add: update_where_def)

lemma update_where_none:
  "(\<And>r. r \<in> set rows \<Longrightarrow> \<not> P r) \<Longrightarrow> update_where P f rows = rows"
  by (simp add: update_where_def map_idI)

text \<open>
  A row type with a key, and an update that keeps it: what the update of some rows then does
  to lookups, to uniqueness of the key and to references made by the key.
\<close>

locale keyed_update =
  fixes key :: "'r \<Rightarrow> 'k" and upd :: "'a \<Rightarrow> 'r \<Rightarrow> 'r"
  assumes key_upd [simp]: "key (upd a r) = key r"
begin

lemma keys_update: "map key (update_where P (upd a) rows) = map key rows"
  by simp

lemma distinct_update:
  "distinct (map key (update_where P (upd a) rows)) \<longleftrightarrow> distinct (map key rows)"
  by (simp add: keys_update)

lemma key_set_update: "key ` set (update_where P (upd a) rows) = key ` set rows"
  by (metis keys_update list.set_map)

lemma find_update:
  "find (\<lambda>r. key r = k) (update_where P (upd a) rows) =
    map_option (\<lambda>r. if P r then upd a r else r) (find (\<lambda>r. key r = k) rows)"
  by (induction rows) auto

end

subsection \<open>Sorting by a key\<close>

lemma sort_key_take_filter_subset: "set (take n (sort_key f xs)) \<subseteq> set xs"
  by (metis set_sort set_take_subset)

lemma sorted_distinct_map_less:
  assumes "sorted (map f xs)" and "distinct (map f xs)" and "i < j" and "j < length xs"
  shows "f (xs ! i) < f (xs ! j)"
proof -
  have "f (xs ! i) \<le> f (xs ! j)"
    using assms sorted_nth_mono [of "map f xs" i j] by simp
  moreover have "f (xs ! i) \<noteq> f (xs ! j)"
    using assms nth_eq_iff_index_eq [of "map f xs" i j] by simp
  ultimately show ?thesis by simp
qed

lemma singleton_if_member: "x \<in> set xs \<Longrightarrow> length xs \<le> 1 \<Longrightarrow> xs = [x]"
  by (cases xs) auto

lemma filter_less_nth:
  assumes "sorted (map f xs)" and "distinct (map f xs)" and "k < length xs"
  shows "filter (\<lambda>x. f x < f (xs ! k)) xs = take k xs"
    and "filter (\<lambda>x. f (xs ! k) < f x) xs = drop (Suc k) xs"
proof -
  have less: "i < j \<Longrightarrow> j < length xs \<Longrightarrow> f (xs ! i) < f (xs ! j)" for i j
    by (rule sorted_distinct_map_less [OF assms(1,2)])
  define y where "y = xs ! k"
  have before: "f x < f y" if x: "x \<in> set (take k xs)" for x
  proof -
    obtain i where "i < k" "x = xs ! i" using x assms(3) by (auto simp: in_set_conv_nth)
    with less [of i k] assms(3) show ?thesis by (simp add: y_def)
  qed
  have after: "f y < f x" if x: "x \<in> set (drop (Suc k) xs)" for x
  proof -
    obtain i where "i < length (drop (Suc k) xs)" "x = drop (Suc k) xs ! i"
      using x unfolding in_set_conv_nth by blast
    then have "Suc k + i < length xs" "x = xs ! (Suc k + i)" by simp_all
    with less [of k "Suc k + i"] show ?thesis by (simp add: y_def)
  qed
  have "xs = take k xs @ y # drop (Suc k) xs"
    using id_take_nth_drop [OF assms(3)] by (simp add: y_def)
  then have parts: "filter P xs = filter P (take k xs) @ filter P (y # drop (Suc k) xs)" for P
    by (metis filter_append)
  have "filter (\<lambda>x. f x < f y) (take k xs) = take k xs"
    "filter (\<lambda>x. f x < f y) (drop (Suc k) xs) = []"
    "filter (\<lambda>x. f y < f x) (take k xs) = []"
    "filter (\<lambda>x. f y < f x) (drop (Suc k) xs) = drop (Suc k) xs"
    by (rule filter_True filter_False; use before after order_less_asym in blast)+
  then show "filter (\<lambda>x. f x < f (xs ! k)) xs = take k xs"
    "filter (\<lambda>x. f (xs ! k) < f x) xs = drop (Suc k) xs"
    unfolding y_def [symmetric] parts by simp_all
qed

lemma traverse_map_Inr: "(\<And>x. f x = Inr (g x)) \<Longrightarrow> traverse f xs = Inr (map g xs)"
  by (rule traverse_total)

end
