(* ===== verification/Redis.thy ===== *)
theory Redis
  imports Prelude
begin

section \<open>The Redis server\<close>

text \<open>
  Redis is a parameter: a record of the commands the backend's scripts and pipelines use, over any
  type of server state, and locales with their documented behaviour.  What a key holds is seen
  through views: the sorted set under it (members with scores), the hash, the string, the counter
  and its time to live.  Scores are instants in microseconds where the code has floating-point
  seconds.  A call fails, without effect, when the server cannot be reached.
\<close>

subsection \<open>Operations with effects\<close>

type_synonym ('s, 'a) op = "'s \<Rightarrow> 'a result \<times> 's"

definition obind :: "('s, 'a) op \<Rightarrow> ('a \<Rightarrow> ('s, 'b) op) \<Rightarrow> ('s, 'b) op" where
  "obind m f s = (case m s of (Inl e, s') \<Rightarrow> (Inl e, s') | (Inr x, s') \<Rightarrow> f x s')"

definition oreturn :: "'a \<Rightarrow> ('s, 'a) op" where
  "oreturn x s = (Inr x, s)"

definition oraise :: "exc \<Rightarrow> ('s, 'a) op" where
  "oraise e s = (Inl e, s)"

fun oforeach :: "('a \<Rightarrow> ('s, unit) op) \<Rightarrow> 'a list \<Rightarrow> ('s, unit) op" where
  "oforeach f [] = oreturn ()"
| "oforeach f (x # xs) = obind (f x) (\<lambda>_. oforeach f xs)"

text \<open>Between two awaited calls other tasks run: a step that changes the state and returns nothing.\<close>

definition interleave :: "('s \<Rightarrow> 's) \<Rightarrow> ('s, unit) op" where
  "interleave env s = (Inr (), env s)"

text \<open>An operation on the first of two components of a state.\<close>

definition on_first :: "('s, 'a) op \<Rightarrow> ('s \<times> 'x, 'a) op" where
  "on_first f = (\<lambda>(s, x). case f s of (v, s') \<Rightarrow> (v, s', x))"

lemma on_first_run [simp]: "f s = (v, s') \<Longrightarrow> on_first f (s, x) = (v, s', x)"
  by (simp add: on_first_def)

lemma obind_Inl [simp]: "m s = (Inl e, s') \<Longrightarrow> obind m f s = (Inl e, s')"
  and obind_Inr [simp]: "m s = (Inr x, s') \<Longrightarrow> obind m f s = f x s'"
  by (simp_all add: obind_def)

lemma obind_oreturn [simp]: "obind (oreturn x) f = f x"
  by (rule ext) (simp add: obind_def oreturn_def)

lemma obind_interleave [simp]: "obind (interleave env) f s = f () (env s)"
  by (simp add: obind_def interleave_def)

lemma obind_on_first_interleave [simp]: "obind (on_first (interleave env)) f (s, x) = f () (env s, x)"
  by (simp add: obind_def interleave_def on_first_def)

lemma obind_Inr_iff: "obind m f s = (Inr y, t) \<longleftrightarrow> (\<exists>x s'. m s = (Inr x, s') \<and> f x s' = (Inr y, t))"
  by (auto simp: obind_def split: prod.splits sum.splits)

lemma obind_cong [fundef_cong]:
  "m = m' \<Longrightarrow> s = s' \<Longrightarrow> (\<And>x t. m' s' = (Inr x, t) \<Longrightarrow> f x t = f' x t) \<Longrightarrow> obind m f s = obind m' f' s'"
  by (auto simp: obind_def split: prod.splits sum.splits)

subsection \<open>The commands\<close>

record 'r redis =
  rd_up :: "'r \<Rightarrow> bool"
  rd_zadd :: "string \<Rightarrow> instant \<Rightarrow> string \<Rightarrow> 'r \<Rightarrow> 'r"
  rd_zrem :: "string \<Rightarrow> string \<Rightarrow> 'r \<Rightarrow> int \<times> 'r"
  rd_zremrangebyscore :: "string \<Rightarrow> instant \<Rightarrow> 'r \<Rightarrow> 'r" \<comment> \<open>from minus infinity\<close>
  rd_zcard :: "string \<Rightarrow> 'r \<Rightarrow> int"
  rd_zlast :: "string \<Rightarrow> 'r \<Rightarrow> (string \<times> instant) option" \<comment> \<open>ZRANGE -1 -1 WITHSCORES\<close>
  rd_zrangebyscore :: "string \<Rightarrow> instant \<Rightarrow> nat \<Rightarrow> 'r \<Rightarrow> string list" \<comment> \<open>from minus infinity, LIMIT 0 n\<close>
  rd_del :: "string \<Rightarrow> 'r \<Rightarrow> 'r"
  rd_expire :: "string \<Rightarrow> int \<Rightarrow> 'r \<Rightarrow> 'r"
  rd_incr :: "string \<Rightarrow> 'r \<Rightarrow> int \<times> 'r"
  rd_hset :: "string \<Rightarrow> string \<Rightarrow> string \<Rightarrow> 'r \<Rightarrow> 'r"
  rd_hget :: "string \<Rightarrow> string \<Rightarrow> 'r \<Rightarrow> string option"
  rd_hdel :: "string \<Rightarrow> string \<Rightarrow> 'r \<Rightarrow> 'r"
  rd_get :: "string \<Rightarrow> 'r \<Rightarrow> string option"
  rd_set_nx_ex :: "string \<Rightarrow> string \<Rightarrow> int \<Rightarrow> 'r \<Rightarrow> bool \<times> 'r"
  rd_publish :: "string \<Rightarrow> string \<Rightarrow> 'r \<Rightarrow> 'r"

definition rcall :: "'r redis \<Rightarrow> ('r \<Rightarrow> 'a \<times> 'r) \<Rightarrow> ('r, 'a) op" where
  "rcall R f r = (if rd_up R r then apfst Inr (f r) else (Inl RedisError, r))"

text \<open>Commands that only change the state, and commands that only read it.\<close>

definition rdo :: "'r redis \<Rightarrow> ('r \<Rightarrow> 'r) \<Rightarrow> ('r, unit) op" where
  "rdo R f = rcall R (\<lambda>r. ((), f r))"

definition rask :: "'r redis \<Rightarrow> ('r \<Rightarrow> 'a) \<Rightarrow> ('r, 'a) op" where
  "rask R f = rcall R (\<lambda>r. (f r, r))"

lemma rcall_up [simp]: "rd_up R r \<Longrightarrow> rcall R f r = (Inr (fst (f r)), snd (f r))"
  by (simp add: rcall_def apfst_def map_prod_def split: prod.splits)

lemma rdo_up [simp]: "rd_up R r \<Longrightarrow> rdo R f r = (Inr (), f r)"
  by (simp add: rdo_def)

lemma rask_up [simp]: "rd_up R r \<Longrightarrow> rask R f r = (Inr (f r), r)"
  by (simp add: rask_def)

lemma rcall_Inr_iff: "rcall R f r = (Inr x, r') \<longleftrightarrow> rd_up R r \<and> f r = (x, r')"
  by (auto simp: rcall_def apfst_def map_prod_def split: prod.splits)

subsection \<open>Documented behaviour\<close>

definition drop_upto :: "instant \<Rightarrow> (string \<Rightarrow> instant option) \<Rightarrow> string \<Rightarrow> instant option" where
  "drop_upto now z m = (case z m of None \<Rightarrow> None | Some e \<Rightarrow> if e \<le> now then None else Some e)"

lemma drop_upto_Some: "drop_upto now z m = Some e \<longleftrightarrow> z m = Some e \<and> now < e"
  by (auto simp: drop_upto_def split: option.splits)

lemma drop_upto_empty: "drop_upto now z = Map.empty \<longleftrightarrow> (\<forall>m e. z m = Some e \<longrightarrow> e \<le> now)"
proof -
  have "drop_upto now z = Map.empty \<longleftrightarrow> (\<forall>m. drop_upto now z m = None)" by (simp add: fun_eq_iff)
  also have "\<dots> \<longleftrightarrow> (\<forall>m e. \<not> (z m = Some e \<and> now < e))"
    by (metis drop_upto_Some not_None_eq)
  finally show ?thesis by (meson not_less)
qed

locale redis_sorted_sets =
  fixes R :: "'r redis" and zset :: "'r \<Rightarrow> string \<Rightarrow> string \<Rightarrow> instant option"
  assumes finite_zset: "finite (dom (zset r k))"
    and zadd [simp]: "zset (rd_zadd R k e m r) = (zset r)(k := (zset r k)(m \<mapsto> e))"
    and zrem [simp]: "zset (snd (rd_zrem R k m r)) = (zset r)(k := (zset r k)(m := None))"
    and zrem_result [simp]: "fst (rd_zrem R k m r) = (if zset r k m = None then 0 else 1)"
    and zremrangebyscore [simp]: "zset (rd_zremrangebyscore R k now r) = (zset r)(k := drop_upto now (zset r k))"
    and zcard: "rd_zcard R k r = int (card (dom (zset r k)))"
    and zlast_None: "rd_zlast R k r = None \<longleftrightarrow> zset r k = Map.empty"
    and zlast_Some: "rd_zlast R k r = Some (m, e) \<Longrightarrow>
      zset r k m = Some e \<and> (\<forall>m' e'. zset r k m' = Some e' \<longrightarrow> e' \<le> e)"
    and zrangebyscore_set: "set (rd_zrangebyscore R k now n r) \<subseteq> {m. \<exists>e \<le> now. zset r k m = Some e}"
    and zrangebyscore_distinct: "distinct (rd_zrangebyscore R k now n r)"
    and zrangebyscore_length: "length (rd_zrangebyscore R k now n r) = min n (card {m. \<exists>e \<le> now. zset r k m = Some e})"
    and zset_del [simp]: "zset (rd_del R k r) = (zset r)(k := Map.empty)"
    and zset_frame [simp]: "zset (rd_expire R k secs r) = zset r" "zset (snd (rd_incr R k r)) = zset r"
      "zset (rd_hset R k f v r) = zset r" "zset (rd_hdel R k f r) = zset r"
      "zset (snd (rd_set_nx_ex R k v secs r)) = zset r" "zset (rd_publish R c v r) = zset r"
    and zset_up [simp]: "rd_up R (rd_zadd R k e m r) = rd_up R r" "rd_up R (snd (rd_zrem R k m r)) = rd_up R r"
      "rd_up R (rd_zremrangebyscore R k now r) = rd_up R r" "rd_up R (rd_del R k r) = rd_up R r"
      "rd_up R (rd_expire R k secs r) = rd_up R r" "rd_up R (rd_publish R c v r) = rd_up R r"
begin

lemma zcard_zero: "rd_zcard R k r = 0 \<longleftrightarrow> zset r k = Map.empty"
  using finite_zset [of r k] by (auto simp: zcard)

lemma zcard_positive: "0 < rd_zcard R k r \<longleftrightarrow> zset r k \<noteq> Map.empty"
  using zcard_zero [of k r] zcard [of k r] by linarith

end

locale redis_hashes =
  fixes R :: "'r redis" and hash :: "'r \<Rightarrow> string \<Rightarrow> string \<Rightarrow> string option"
  assumes hget [simp]: "rd_hget R k f r = hash r k f"
    and hset [simp]: "hash (rd_hset R k f v r) = (hash r)(k := (hash r k)(f \<mapsto> v))"
    and hdel [simp]: "hash (rd_hdel R k f r) = (hash r)(k := (hash r k)(f := None))"
    and hash_frame [simp]: "hash (rd_zadd R k e m r) = hash r" "hash (snd (rd_zrem R k m r)) = hash r"
      "hash (rd_zremrangebyscore R k now r) = hash r" "hash (rd_publish R c v r) = hash r"

locale redis_strings =
  fixes R :: "'r redis" and strval :: "'r \<Rightarrow> string \<Rightarrow> string option"
  assumes get [simp]: "rd_get R k r = strval r k"
    and set_result: "fst (rd_set_nx_ex R k v n r) \<longleftrightarrow> strval r k = None"
    and set_new: "strval r k = None \<Longrightarrow> strval (snd (rd_set_nx_ex R k v n r)) = (strval r)(k \<mapsto> v)"
    and set_old: "strval r k \<noteq> None \<Longrightarrow> snd (rd_set_nx_ex R k v n r) = r"
    and strval_del [simp]: "strval (rd_del R k r) = (strval r)(k := None)"

locale redis_counters =
  fixes R :: "'r redis" and counter :: "'r \<Rightarrow> string \<Rightarrow> int option" and ttl :: "'r \<Rightarrow> string \<Rightarrow> int option"
  assumes incr_result: "fst (rd_incr R k r) = (case counter r k of None \<Rightarrow> 1 | Some n \<Rightarrow> n + 1)"
    and incr [simp]: "counter (snd (rd_incr R k r)) = (counter r)(k \<mapsto> fst (rd_incr R k r))"
    and incr_ttl [simp]: "ttl (snd (rd_incr R k r)) = ttl r"
    and expire_counter [simp]: "counter (rd_expire R k n r) = counter r"
    and expire_ttl [simp]: "ttl (rd_expire R k n r) = (ttl r)(k \<mapsto> n)"
    and counter_up [simp]: "rd_up R (snd (rd_incr R k r)) = rd_up R r" "rd_up R (rd_expire R k n r) = rd_up R r"

text \<open>What subscribers of the channels are sent, in order.\<close>

locale redis_channels =
  fixes R :: "'r redis" and sent :: "'r \<Rightarrow> (string \<times> string) list"
  assumes publish [simp]: "sent (rd_publish R c v r) = sent r @ [(c, v)]"
    and sent_frame [simp]: "sent (rd_zadd R k e m r) = sent r" "sent (snd (rd_zrem R k m r)) = sent r"
      "sent (rd_hset R k f v r) = sent r" "sent (rd_hdel R k f r) = sent r"
      "sent (rd_zremrangebyscore R k now r) = sent r" "sent (rd_del R k r) = sent r"
    and sent_up [simp]: "rd_up R (rd_publish R c v r) = rd_up R r" "rd_up R (rd_hset R k f v r) = rd_up R r"
      "rd_up R (rd_hdel R k f r) = rd_up R r"

locale redis_server = redis_sorted_sets R zset + redis_hashes R hash + redis_strings R strval +
    redis_counters R counter ttl + redis_channels R sent
  for R :: "'r redis" and zset hash strval counter ttl sent

subsection \<open>A server that obeys the laws\<close>

text \<open>Sorted sets and hashes as association lists, one table per type of value.\<close>

record redis_memory =
  mem_up :: bool
  mem_zsets :: "string \<Rightarrow> (string \<times> instant) list"
  mem_hashes :: "string \<Rightarrow> (string \<times> string) list"
  mem_strings :: "string \<Rightarrow> string option"
  mem_counters :: "string \<Rightarrow> int option"
  mem_ttls :: "string \<Rightarrow> int option"
  mem_published :: "(string \<times> string) list"

definition empty_memory :: redis_memory where
  "empty_memory = \<lparr>mem_up = True, mem_zsets = (\<lambda>_. []), mem_hashes = (\<lambda>_. []), mem_strings = (\<lambda>_. None),
     mem_counters = (\<lambda>_. None), mem_ttls = (\<lambda>_. None), mem_published = []\<rparr>"

definition without_key :: "string \<Rightarrow> (string \<times> 'a) list \<Rightarrow> (string \<times> 'a) list" where
  "without_key m l = filter (\<lambda>p. fst p \<noteq> m) l"

text \<open>The entries a lookup finds, by score.\<close>

definition ranked :: "(string \<times> instant) list \<Rightarrow> (string \<times> instant) list" where
  "ranked l = sort_key snd (filter (\<lambda>p. map_of l (fst p) = Some (snd p)) l)"

definition memory_redis :: "redis_memory redis" where
  "memory_redis = \<lparr>
     rd_up = mem_up,
     rd_zadd = (\<lambda>k e m r. r\<lparr>mem_zsets := (mem_zsets r)(k := (m, e) # without_key m (mem_zsets r k))\<rparr>),
     rd_zrem = (\<lambda>k m r. (if map_of (mem_zsets r k) m = None then 0 else 1,
        r\<lparr>mem_zsets := (mem_zsets r)(k := without_key m (mem_zsets r k))\<rparr>)),
     rd_zremrangebyscore = (\<lambda>k now r. r\<lparr>mem_zsets := (mem_zsets r)(k := filter (\<lambda>p. now < snd p) (ranked (mem_zsets r k)))\<rparr>),
     rd_zcard = (\<lambda>k r. int (length (remdups (map fst (mem_zsets r k))))),
     rd_zlast = (\<lambda>k r. case rev (ranked (mem_zsets r k)) of [] \<Rightarrow> None | p # _ \<Rightarrow> Some p),
     rd_zrangebyscore = (\<lambda>k now n r. take n (remdups (map fst (filter (\<lambda>p. snd p \<le> now) (ranked (mem_zsets r k)))))),
     rd_del = (\<lambda>k r. r\<lparr>mem_zsets := (mem_zsets r)(k := []), mem_strings := (mem_strings r)(k := None)\<rparr>),
     rd_expire = (\<lambda>k n r. r\<lparr>mem_ttls := (mem_ttls r)(k := Some n)\<rparr>),
     rd_incr = (\<lambda>k r. let n = (case mem_counters r k of None \<Rightarrow> 1 | Some n \<Rightarrow> n + 1)
        in (n, r\<lparr>mem_counters := (mem_counters r)(k := Some n)\<rparr>)),
     rd_hset = (\<lambda>k f v r. r\<lparr>mem_hashes := (mem_hashes r)(k := (f, v) # mem_hashes r k)\<rparr>),
     rd_hget = (\<lambda>k f r. map_of (mem_hashes r k) f),
     rd_hdel = (\<lambda>k f r. r\<lparr>mem_hashes := (mem_hashes r)(k := without_key f (mem_hashes r k))\<rparr>),
     rd_get = (\<lambda>k r. mem_strings r k),
     rd_set_nx_ex = (\<lambda>k v n r. if mem_strings r k = None
        then (True, r\<lparr>mem_strings := (mem_strings r)(k := Some v), mem_ttls := (mem_ttls r)(k := Some n)\<rparr>)
        else (False, r)),
     rd_publish = (\<lambda>c v r. r\<lparr>mem_published := mem_published r @ [(c, v)]\<rparr>)\<rparr>"

definition mem_zset :: "redis_memory \<Rightarrow> string \<Rightarrow> string \<Rightarrow> instant option" where
  "mem_zset r k = map_of (mem_zsets r k)"

definition mem_hash :: "redis_memory \<Rightarrow> string \<Rightarrow> string \<Rightarrow> string option" where
  "mem_hash r k = map_of (mem_hashes r k)"

lemma map_of_without_key: "map_of (without_key m l) = (map_of l)(m := None)"
  by (induction l) (auto simp: without_key_def)

lemma set_ranked: "p \<in> set (ranked l) \<longleftrightarrow> map_of l (fst p) = Some (snd p)"
  by (auto simp: ranked_def dest: map_of_SomeD)

lemma map_of_filter_ranked: "map_of (filter P (ranked l)) m =
    (case map_of l m of None \<Rightarrow> None | Some e \<Rightarrow> if P (m, e) then Some e else None)"
proof (cases "map_of (filter P (ranked l)) m")
  case None
  then have "(m, e) \<notin> set (filter P (ranked l))" for e by (metis map_of_eq_None_iff fst_conv image_eqI)
  then show ?thesis using None by (auto simp: set_ranked split: option.splits)
next
  case (Some e)
  from map_of_SomeD [OF this] Some show ?thesis by (auto simp: set_ranked)
qed

lemma dom_card_remdups: "card (dom (map_of l)) = length (remdups (map fst l))"
  by (metis dom_map_of_conv_image_fst length_remdups_card_conv list.set_map)

lemma sorted_ranked: "sorted (map snd (ranked l))"
  by (simp add: ranked_def)

interpretation memory_sets: redis_sorted_sets memory_redis mem_zset
proof unfold_locales
  fix k now n r
  show "finite (dom (mem_zset r k))" by (simp add: mem_zset_def finite_dom_map_of)
  show "rd_zcard memory_redis k r = int (card (dom (mem_zset r k)))"
    by (simp add: memory_redis_def mem_zset_def dom_card_remdups)
  show "rd_zlast memory_redis k r = None \<longleftrightarrow> mem_zset r k = Map.empty"
  proof -
    have "rd_zlast memory_redis k r = None \<longleftrightarrow> ranked (mem_zsets r k) = []"
      by (auto simp: memory_redis_def split: list.splits)
    also have "\<dots> \<longleftrightarrow> (\<forall>p. map_of (mem_zsets r k) (fst p) \<noteq> Some (snd p))"
      by (metis set_ranked in_set_insert list.set(1) empty_iff list.set_sel(1))
    also have "\<dots> \<longleftrightarrow> mem_zset r k = Map.empty"
      by (auto simp: mem_zset_def fun_eq_iff)
    finally show ?thesis .
  qed
  show "mem_zset r k m = Some e \<and> (\<forall>m' e'. mem_zset r k m' = Some e' \<longrightarrow> e' \<le> e)"
    if "rd_zlast memory_redis k r = Some (m, e)" for m e
  proof -
    from that obtain ps where "rev (ranked (mem_zsets r k)) = (m, e) # ps"
      by (auto simp: memory_redis_def split: list.splits)
    then have l: "ranked (mem_zsets r k) = rev ps @ [(m, e)]" by (metis rev.simps(2) rev_rev_ident)
    have "mem_zset r k m = Some e" using set_ranked [of "(m, e)" "mem_zsets r k"] unfolding l by (simp add: mem_zset_def)
    moreover have "e' \<le> e" if "mem_zset r k m' = Some e'" for m' e'
    proof -
      have "(m', e') \<in> set (rev ps @ [(m, e)])"
        using that unfolding l [symmetric] by (simp add: set_ranked mem_zset_def)
      with sorted_ranked [of "mem_zsets r k"] show ?thesis
        unfolding l by (fastforce simp: sorted_append)
    qed
    ultimately show ?thesis by blast
  qed
  let ?due = "remdups (map fst (filter (\<lambda>p. snd p \<le> now) (ranked (mem_zsets r k))))"
  have due: "set ?due = {m. \<exists>e \<le> now. mem_zset r k m = Some e}"
    by (auto simp: set_ranked mem_zset_def image_iff)
  have rng: "rd_zrangebyscore memory_redis k now n r = take n ?due" by (simp add: memory_redis_def)
  show "set (rd_zrangebyscore memory_redis k now n r) \<subseteq> {m. \<exists>e \<le> now. mem_zset r k m = Some e}"
    unfolding rng due [symmetric] by (rule set_take_subset)
  show "distinct (rd_zrangebyscore memory_redis k now n r)" unfolding rng by simp
  show "length (rd_zrangebyscore memory_redis k now n r) = min n (card {m. \<exists>e \<le> now. mem_zset r k m = Some e})"
    unfolding rng due [symmetric] by (simp add: length_remdups_card_conv min.commute)
qed (auto simp: memory_redis_def mem_zset_def map_of_without_key map_of_filter_ranked drop_upto_def fun_eq_iff
    Let_def split: option.splits)

interpretation memory_hashes: redis_hashes memory_redis mem_hash
  by unfold_locales (auto simp: memory_redis_def mem_hash_def map_of_without_key fun_eq_iff)

interpretation memory_strings: redis_strings memory_redis mem_strings
  by unfold_locales (auto simp: memory_redis_def)

interpretation memory_counters: redis_counters memory_redis mem_counters mem_ttls
  by unfold_locales (auto simp: memory_redis_def Let_def split: option.splits)

interpretation memory_channels: redis_channels memory_redis mem_published
  by unfold_locales (auto simp: memory_redis_def)

interpretation memory_server: redis_server memory_redis mem_zset mem_hash mem_strings mem_counters mem_ttls mem_published
  by unfold_locales

end
