(* ===== verification/PyText.thy ===== *)
theory PyText
  imports Prelude
begin

section \<open>Python text\<close>

text \<open>
  The string methods the backend calls.  A \<open>string\<close> is a list of characters with code points
  0 to 255; on that range the definitions below are what \<open>str.isspace\<close>, \<open>str.strip\<close>,
  \<open>str.lower\<close>, \<open>str.replace\<close>, \<open>str.split\<close> and \<open>in\<close> compute.
\<close>

subsection \<open>Whitespace and case\<close>

definition py_isspace :: "char \<Rightarrow> bool" where
  "py_isspace c \<longleftrightarrow> (let n = (of_char c :: nat) in
     (9 \<le> n \<and> n \<le> 13) \<or> (28 \<le> n \<and> n \<le> 32) \<or> n = 133 \<or> n = 160)"

definition strip_where :: "(char \<Rightarrow> bool) \<Rightarrow> string \<Rightarrow> string" where
  "strip_where p s = rev (dropWhile p (rev (dropWhile p s)))"

definition py_strip :: "string \<Rightarrow> string" where
  "py_strip = strip_where py_isspace"

definition char_lower :: "char \<Rightarrow> char" where
  "char_lower c = (let n = (of_char c :: nat) in
     if (65 \<le> n \<and> n \<le> 90) \<or> (192 \<le> n \<and> n \<le> 222 \<and> n \<noteq> 215) then char_of (n + 32) else c)"

definition py_lower :: "string \<Rightarrow> string" where
  "py_lower s = map char_lower s"

lemma char_lower_idem [simp]: "char_lower (char_lower c) = char_lower c"
proof -
  let ?n = "of_char c :: nat"
  have "(65 \<le> ?n \<and> ?n \<le> 90) \<or> (192 \<le> ?n \<and> ?n \<le> 222 \<and> ?n \<noteq> 215)
      \<Longrightarrow> (of_char (char_of (?n + 32) :: char) :: nat) = ?n + 32"
    by auto
  then show ?thesis by (auto simp: char_lower_def Let_def)
qed

lemma py_lower_idem [simp]: "py_lower (py_lower s) = py_lower s"
  by (simp add: py_lower_def)

lemma length_py_lower [simp]: "length (py_lower s) = length s"
  by (simp add: py_lower_def)

lemma dropWhile_all_iff: "(\<forall>c \<in> set (dropWhile p s). p c) \<longleftrightarrow> (\<forall>c \<in> set s. p c)"
proof -
  have "set s = set (takeWhile p s) \<union> set (dropWhile p s)"
    using set_append [of "takeWhile p s" "dropWhile p s"] by simp
  then show ?thesis by (auto dest: set_takeWhileD)
qed

lemma strip_where_Nil_iff: "strip_where p s = [] \<longleftrightarrow> (\<forall>c \<in> set s. p c)"
  by (simp add: strip_where_def dropWhile_all_iff)

lemma strip_where_id:
  assumes "\<And>c. c \<in> set s \<Longrightarrow> \<not> p c"
  shows "strip_where p s = s"
proof -
  have "dropWhile p s = s" if "\<And>c. c \<in> set s \<Longrightarrow> \<not> p c" for s
    using that by (cases s) auto
  from this [of s] this [of "rev s"] assms show ?thesis
    by (simp add: strip_where_def)
qed

lemma dropWhile_split_rev:
  "dropWhile p s = rev (dropWhile p (rev (dropWhile p s))) @ rev (takeWhile p (rev (dropWhile p s)))"
proof -
  have "rev (rev (dropWhile p s)) =
      rev (takeWhile p (rev (dropWhile p s)) @ dropWhile p (rev (dropWhile p s)))"
    by (simp only: takeWhile_dropWhile_id)
  then show ?thesis by (simp only: rev_rev_ident rev_append)
qed

lemma strip_where_ends:
  assumes ne: "strip_where p s \<noteq> []"
  shows "\<not> p (hd (strip_where p s)) \<and> \<not> p (last (strip_where p s))"
proof -
  let ?b = "dropWhile p (rev (dropWhile p s))"
  have b: "?b \<noteq> []" using ne by (simp add: strip_where_def)
  then have l: "\<not> p (last (strip_where p s))"
    using hd_dropWhile [of p "rev (dropWhile p s)"] by (simp add: strip_where_def last_rev)
  have "hd (dropWhile p s) = hd (rev ?b)"
    using b by (subst dropWhile_split_rev) simp
  moreover have "dropWhile p s \<noteq> []"
    using b by (metis dropWhile.simps(1) rev.simps(1))
  ultimately have "\<not> p (hd (rev ?b))" using hd_dropWhile [of p s] by simp
  with l show ?thesis by (simp add: strip_where_def)
qed

lemma strip_where_idem [simp]: "strip_where p (strip_where p s) = strip_where p s"
proof (cases "strip_where p s = []")
  case True
  show ?thesis unfolding True by (simp add: strip_where_def)
next
  case False
  let ?t = "strip_where p s"
  have "dropWhile p ?t = ?t" and "dropWhile p (rev ?t) = rev ?t"
    using strip_where_ends [OF False] False by (simp_all add: dropWhile_eq_self_iff hd_rev)
  then show ?thesis by (simp add: strip_where_def [of p ?t])
qed

lemma set_strip_where: "set (strip_where p s) \<subseteq> set s"
  by (auto simp: strip_where_def dest!: set_dropWhileD)

lemma length_strip_where: "length (strip_where p s) \<le> length s"
  using length_dropWhile_le [of p s] length_dropWhile_le [of p "rev (dropWhile p s)"]
  by (simp add: strip_where_def)

lemma py_strip_idem [simp]: "py_strip (py_strip s) = py_strip s"
  by (simp add: py_strip_def)

lemma py_strip_Nil_iff: "py_strip s = [] \<longleftrightarrow> (\<forall>c \<in> set s. py_isspace c)"
  by (simp add: py_strip_def strip_where_Nil_iff)

lemma length_py_strip: "length (py_strip s) \<le> length s"
  by (simp add: py_strip_def length_strip_where)

subsection \<open>Searching, replacing, splitting\<close>

fun py_contains :: "string \<Rightarrow> string \<Rightarrow> bool" where
  "py_contains needle [] = (needle = [])"
| "py_contains needle (c # cs) =
     (take (length needle) (c # cs) = needle \<or> py_contains needle cs)"

lemma py_contains_iff: "py_contains needle s \<longleftrightarrow> (\<exists>pre suf. s = pre @ needle @ suf)"
proof (induction s)
  case Nil
  then show ?case by auto
next
  case (Cons c cs)
  show ?case
  proof
    assume "py_contains needle (c # cs)"
    then consider "take (length needle) (c # cs) = needle" | "py_contains needle cs" by auto
    then show "\<exists>pre suf. c # cs = pre @ needle @ suf"
    proof cases
      case 1
      then show ?thesis by (metis append.left_neutral append_take_drop_id)
    next
      case 2
      then show ?thesis using Cons.IH by (metis append_Cons)
    qed
  next
    assume "\<exists>pre suf. c # cs = pre @ needle @ suf"
    then obtain pre suf where *: "c # cs = pre @ needle @ suf" by blast
    show "py_contains needle (c # cs)"
    proof (cases pre)
      case Nil
      with * have "take (length needle) (c # cs) = needle" by simp
      then show ?thesis by simp
    next
      case (Cons p ps)
      with * have "cs = ps @ needle @ suf" by simp
      with Cons.IH show ?thesis by auto
    qed
  qed
qed

text \<open>\<open>s.replace(old, new)\<close> for a non-empty \<open>old\<close>: left to right, without overlaps.\<close>

fun py_replace :: "string \<Rightarrow> string \<Rightarrow> string \<Rightarrow> string" where
  "py_replace old new [] = []"
| "py_replace old new (c # cs) =
     (if old \<noteq> [] \<and> take (length old) (c # cs) = old
      then new @ py_replace old new (drop (length old - 1) cs)
      else c # py_replace old new cs)"

lemma py_replace_absent: "old \<noteq> [] \<Longrightarrow> hd old \<notin> set s \<Longrightarrow> py_replace old new s = s"
proof (induction old new s rule: py_replace.induct)
  case (2 old new c cs)
  then have "take (length old) (c # cs) \<noteq> old"
    by (metis hd_in_set in_set_takeD)
  with 2 show ?case by simp
qed simp

text \<open>\<open>s.split(sep)\<close> for a one-character separator; there is always at least one part.\<close>

fun py_split :: "char \<Rightarrow> string \<Rightarrow> string list" where
  "py_split sep [] = [[]]"
| "py_split sep (c # cs) =
     (if c = sep then [] # py_split sep cs
      else (case py_split sep cs of [] \<Rightarrow> [[c]] | part # parts \<Rightarrow> (c # part) # parts))"

lemma py_split_nonempty [simp]: "py_split sep s \<noteq> []"
  by (cases s) (auto split: list.split)

declare py_split.simps(2) [simp del]

lemma py_split_Cons [simp]:
  "py_split sep (c # cs) =
     (if c = sep then [] # py_split sep cs
      else (c # hd (py_split sep cs)) # tl (py_split sep cs))"
  by (simp add: py_split.simps(2) split: list.split)

lemma py_split_parts: "part \<in> set (py_split sep s) \<Longrightarrow> sep \<notin> set part"
proof (induction s arbitrary: part)
  case (Cons c cs)
  show ?case
  proof (cases "c = sep")
    case True
    with Cons show ?thesis by auto
  next
    case False
    have "hd (py_split sep cs) \<in> set (py_split sep cs)"
      and "set (tl (py_split sep cs)) \<subseteq> set (py_split sep cs)"
      by (simp_all add: list.set_sel(2) subsetI)
    with False Cons show ?thesis by auto
  qed
qed simp

lemma py_split_parts_subset: "part \<in> set (py_split sep s) \<Longrightarrow> set part \<subseteq> set s"
proof (induction s arbitrary: part)
  case (Cons c cs)
  have "hd (py_split sep cs) \<in> set (py_split sep cs)"
    and "set (tl (py_split sep cs)) \<subseteq> set (py_split sep cs)"
    by (simp_all add: list.set_sel(2) subsetI)
  moreover from this have "set (hd (py_split sep cs)) \<subseteq> set cs"
    and "p \<in> set (tl (py_split sep cs)) \<Longrightarrow> set p \<subseteq> set cs" for p
    using Cons.IH by blast+
  ultimately show ?case using Cons.prems Cons.IH [of part] by (auto split: if_splits)
qed simp

fun py_join :: "string \<Rightarrow> string list \<Rightarrow> string" where
  "py_join sep [] = []"
| "py_join sep [x] = x"
| "py_join sep (x # y # ys) = x @ sep @ py_join sep (y # ys)"

lemma py_join_split: "py_join [sep] (py_split sep s) = s"
proof (induction s)
  case (Cons c cs)
  then show ?case
    by (cases "py_split sep cs"; cases "tl (py_split sep cs)") auto
qed simp

definition py_startswith :: "string \<Rightarrow> string \<Rightarrow> bool" where
  "py_startswith s pre \<longleftrightarrow> take (length pre) s = pre"

definition py_endswith :: "string \<Rightarrow> string \<Rightarrow> bool" where
  "py_endswith s suf \<longleftrightarrow> length suf \<le> length s \<and> drop (length s - length suf) s = suf"

lemma py_startswith_iff: "py_startswith s pre \<longleftrightarrow> (\<exists>rest. s = pre @ rest)"
  unfolding py_startswith_def by (metis append_eq_conv_conj append_take_drop_id)

lemma py_endswith_iff: "py_endswith s suf \<longleftrightarrow> (\<exists>rest. s = rest @ suf)"
  by (auto simp: py_endswith_def) (metis append_take_drop_id)

subsection \<open>Positional digits\<close>

text \<open>The last \<open>k\<close> digits of a number in a base, most significant first, and their value.\<close>

fun to_base :: "int \<Rightarrow> nat \<Rightarrow> int \<Rightarrow> int list" where
  "to_base b 0 n = []"
| "to_base b (Suc k) n = to_base b k (n div b) @ [n mod b]"

fun of_base :: "int \<Rightarrow> int \<Rightarrow> int list \<Rightarrow> int" where
  "of_base b acc [] = acc"
| "of_base b acc (d # ds) = of_base b (b * acc + d) ds"

lemma length_to_base [simp]: "length (to_base b k n) = k"
  by (induction k arbitrary: n) auto

lemma to_base_range: "0 < b \<Longrightarrow> d \<in> set (to_base b k n) \<Longrightarrow> 0 \<le> d \<and> d < b"
  by (induction k arbitrary: n) auto

lemma of_base_append: "of_base b acc (xs @ [d]) = b * of_base b acc xs + d"
  by (induction xs arbitrary: acc) auto

lemma of_to_base: "0 < b \<Longrightarrow> of_base b 0 (to_base b k n) = n mod b ^ k"
  by (induction k arbitrary: n) (simp_all add: of_base_append zmod_zmult2_eq)

end
