(* ===== verification/Uuid.thy ===== *)
theory Uuid
  imports PyText
begin

section \<open>UUIDs and their text form\<close>

text \<open>
  \<open>str(uuid)\<close> is the 8-4-4-4-12 hexadecimal form; \<open>UUID(text)\<close> is the constructor of the
  standard library: it drops \<open>urn:\<close>, \<open>uuid:\<close>, braces and dashes, wants 32 characters and
  reads them with \<open>int(hex, 16)\<close>.  Reading back what was written gives the same UUID, so the
  text form is injective.
\<close>

subsection \<open>Hexadecimal digits\<close>

definition hex_char :: "int \<Rightarrow> char" where
  "hex_char d = ''0123456789abcdef'' ! nat d"

definition hex_value :: "char \<Rightarrow> int option" where
  "hex_value c = (let n = (of_char c :: int) in
     if 48 \<le> n \<and> n \<le> 57 then Some (n - 48)
     else if 97 \<le> n \<and> n \<le> 102 then Some (n - 87)
     else if 65 \<le> n \<and> n \<le> 70 then Some (n - 55)
     else None)"

lemma hex_char_table:
  "\<forall>d \<in> set [0..15]. hex_value (hex_char d) = Some d \<and> hex_char d \<notin> set ''-_+xXurn:{}'' \<and>
    \<not> py_isspace (hex_char d) \<and> hex_char d \<noteq> CHR 0x22 \<and> hex_char d \<noteq> CHR 0x5C \<and>
    32 \<le> (of_char (hex_char d) :: nat) \<and> (of_char (hex_char d) :: nat) < 128"
  by code_simp

lemma hex_char_cases:
  assumes "0 \<le> d" and "d < 16"
  shows "hex_value (hex_char d) = Some d" and "hex_char d \<notin> set ''-_+xXurn:{}''"
    and "\<not> py_isspace (hex_char d)" and "hex_char d \<noteq> CHR 0x22" and "hex_char d \<noteq> CHR 0x5C"
    and "32 \<le> (of_char (hex_char d) :: nat)" and "(of_char (hex_char d) :: nat) < 128"
proof -
  have "d \<in> set [0..15]" using assms by simp
  from hex_char_table [rule_format, OF this]
  show "hex_value (hex_char d) = Some d" "hex_char d \<notin> set ''-_+xXurn:{}''"
    "\<not> py_isspace (hex_char d)" "hex_char d \<noteq> CHR 0x22" "hex_char d \<noteq> CHR 0x5C"
    "32 \<le> (of_char (hex_char d) :: nat)" "(of_char (hex_char d) :: nat) < 128"
    by blast+
qed

subsection \<open>Reading an integer in base 16\<close>

text \<open>\<open>int(s, 16)\<close>: digits with single underscores between them.\<close>

fun hex_digits :: "int \<Rightarrow> bool \<Rightarrow> string \<Rightarrow> int option" where
  "hex_digits acc digit_before [] = (if digit_before then Some acc else None)"
| "hex_digits acc digit_before (c # cs) =
     (if c = CHR ''_'' then (if digit_before then hex_digits acc False cs else None)
      else case hex_value c of
        None \<Rightarrow> None
      | Some d \<Rightarrow> hex_digits (16 * acc + d) True cs)"

definition hex_magnitude :: "string \<Rightarrow> int option" where
  "hex_magnitude s =
     (if py_startswith s ''0x'' \<or> py_startswith s ''0X''
      then (let rest = drop 2 s in
        if rest = [] then None else hex_digits 0 (hd rest = CHR ''_'') rest)
      else hex_digits 0 False s)"

definition py_int16 :: "string \<Rightarrow> int option" where
  "py_int16 s = (let t = py_strip s in
     if py_startswith t ''-'' then map_option uminus (hex_magnitude (drop 1 t))
     else if py_startswith t ''+'' then hex_magnitude (drop 1 t)
     else hex_magnitude t)"

subsection \<open>The UUID constructor and str\<close>

definition uuid_hex :: "uuid \<Rightarrow> string" where
  "uuid_hex u = map hex_char (to_base 16 32 (uint u))"

definition uuid_str :: "uuid \<Rightarrow> string" where
  "uuid_str u = (let h = uuid_hex u in
     take 8 h @ ''-'' @ take 4 (drop 8 h) @ ''-'' @ take 4 (drop 12 h) @ ''-'' @
     take 4 (drop 16 h) @ ''-'' @ drop 20 h)"

definition uuid_of_string :: "string \<Rightarrow> uuid result" where
  "uuid_of_string s = (
     let h = py_replace ''uuid:'' [] (py_replace ''urn:'' [] s);
         h = py_replace ''-'' [] (strip_where (\<lambda>c. c \<in> set ''{}'') h)
     in if length h \<noteq> 32 then Inl ValueError
        else case py_int16 h of
          None \<Rightarrow> Inl ValueError
        | Some n \<Rightarrow> if 0 \<le> n \<and> n < 2 ^ 128 then Inr (word_of_int n) else Inl ValueError)"

lemma length_uuid_hex [simp]: "length (uuid_hex u) = 32"
  by (simp add: uuid_hex_def)

lemma length_uuid_str [simp]: "length (uuid_str u) = 36"
  by (simp add: uuid_str_def Let_def)

lemma set_uuid_hex: "c \<in> set (uuid_hex u) \<Longrightarrow> \<exists>d. 0 \<le> d \<and> d < 16 \<and> c = hex_char d"
  using to_base_range [of 16 _ 32 "uint u"] by (auto simp: uuid_hex_def simp del: to_base.simps)

lemma set_uuid_str: "c \<in> set (uuid_str u) \<Longrightarrow> c = CHR ''-'' \<or> (\<exists>d. 0 \<le> d \<and> d < 16 \<and> c = hex_char d)"
  using set_uuid_hex [of c u]
  by (auto simp: uuid_str_def Let_def dest!: in_set_takeD in_set_dropD)

lemma uuid_str_chars:
  assumes "c \<in> set (uuid_str u)"
  shows "c \<notin> set ''_+xXurn:{}''" and "\<not> py_isspace c" and "c \<noteq> CHR 0x22" and "c \<noteq> CHR 0x5C"
    and "32 \<le> (of_char c :: nat)" and "(of_char c :: nat) < 128"
proof -
  from set_uuid_str [OF assms] consider "c = CHR ''-''" | d where "0 \<le> d" "d < 16" "c = hex_char d"
    by blast
  then have "c \<notin> set ''_+xXurn:{}'' \<and> \<not> py_isspace c \<and> c \<noteq> CHR 0x22 \<and> c \<noteq> CHR 0x5C \<and>
      32 \<le> (of_char c :: nat) \<and> (of_char c :: nat) < 128"
  proof cases
    case 1
    show ?thesis unfolding 1 by code_simp
  next
    case 2
    show ?thesis unfolding 2(3) using hex_char_cases [OF 2(1,2)] by simp
  qed
  then show "c \<notin> set ''_+xXurn:{}''" "\<not> py_isspace c" "c \<noteq> CHR 0x22" "c \<noteq> CHR 0x5C"
    "32 \<le> (of_char c :: nat)" "(of_char c :: nat) < 128"
    by blast+
qed

lemma py_replace_dash: "py_replace ''-'' [] s = filter (\<lambda>c. c \<noteq> CHR ''-'') s"
  by (induction s) auto

lemma uuid_hex_no_dash: "CHR ''-'' \<notin> set (uuid_hex u)"
  using set_uuid_hex [of "CHR ''-''" u] hex_char_cases(2) by fastforce

lemma uuid_hex_parts:
  "uuid_hex u = take 8 (uuid_hex u) @ take 4 (drop 8 (uuid_hex u)) @
     take 4 (drop 12 (uuid_hex u)) @ take 4 (drop 16 (uuid_hex u)) @ drop 20 (uuid_hex u)"
proof -
  let ?h = "uuid_hex u"
  have "drop 16 ?h = take 4 (drop 16 ?h) @ drop 20 ?h"
    and "drop 12 ?h = take 4 (drop 12 ?h) @ drop 16 ?h"
    and "drop 8 ?h = take 4 (drop 8 ?h) @ drop 12 ?h"
    using append_take_drop_id [of 4 "drop 16 ?h"] append_take_drop_id [of 4 "drop 12 ?h"]
      append_take_drop_id [of 4 "drop 8 ?h"] by simp_all
  then show ?thesis by (metis append_take_drop_id)
qed

lemma filter_uuid_str: "filter (\<lambda>c. c \<noteq> CHR ''-'') (uuid_str u) = uuid_hex u"
proof -
  let ?h = "uuid_hex u"
  have "CHR ''-'' \<notin> set (take n (drop m ?h))" "CHR ''-'' \<notin> set (drop m ?h)" for n m
    using uuid_hex_no_dash by (blast dest: in_set_takeD in_set_dropD)+
  moreover from this(1) [where m = 0] have "CHR ''-'' \<notin> set (take n ?h)" for n by simp
  moreover have "filter (\<lambda>c. c \<noteq> CHR ''-'') xs = xs" if "CHR ''-'' \<notin> set xs" for xs
    using that by (auto simp: filter_id_conv)
  ultimately have "filter (\<lambda>c. c \<noteq> CHR ''-'') (uuid_str u) = take 8 ?h @ take 4 (drop 8 ?h) @
      take 4 (drop 12 ?h) @ take 4 (drop 16 ?h) @ drop 20 ?h"
    by (simp only: uuid_str_def Let_def filter_append filter.simps) simp
  then show ?thesis by (simp only: uuid_hex_parts [symmetric])
qed

subsection \<open>Reading back\<close>

lemma hex_digits_map:
  assumes "\<forall>d \<in> set ds. 0 \<le> d \<and> d < 16" and "b \<or> ds \<noteq> []"
  shows "hex_digits acc b (map hex_char ds) = Some (of_base 16 acc ds)"
  using assms
proof (induction ds arbitrary: acc b)
  case (Cons d ds)
  then have d: "hex_value (hex_char d) = Some d" "hex_char d \<noteq> CHR ''_''"
    using hex_char_cases(1,2) [of d] by auto
  have "hex_digits (16 * acc + d) True (map hex_char ds) = Some (of_base 16 (16 * acc + d) ds)"
    by (rule Cons.IH) (use Cons.prems in auto)
  with d show ?case by simp
qed simp

lemma uuid_hex_not_startswith:
  assumes "x \<in> set p" and "x \<in> set ''-+xX''"
  shows "\<not> py_startswith (uuid_hex u) p"
proof
  assume "py_startswith (uuid_hex u) p"
  then have "x \<in> set (uuid_hex u)" using assms(1) by (auto simp: py_startswith_iff)
  then obtain d where "0 \<le> d" "d < 16" "x = hex_char d" using set_uuid_hex by blast
  then show False using assms(2) hex_char_cases(2) [of d] by auto
qed

lemma uuid_hex_not_signed:
  "\<not> py_startswith (uuid_hex u) ''-''" "\<not> py_startswith (uuid_hex u) ''+''"
  "\<not> py_startswith (uuid_hex u) ''0x''" "\<not> py_startswith (uuid_hex u) ''0X''"
  using uuid_hex_not_startswith [of "CHR ''-''" "''-''" u] uuid_hex_not_startswith [of "CHR ''+''" "''+''" u]
    uuid_hex_not_startswith [of "CHR ''x''" "''0x''" u] uuid_hex_not_startswith [of "CHR ''X''" "''0X''" u]
  by simp_all

lemma uint_uuid_less: "uint (u :: uuid) < 2 ^ 128"
  using unsigned_less [of u] by simp

lemma py_int16_uuid_hex: "py_int16 (uuid_hex u) = Some (uint u)"
proof -
  have strip: "py_strip (uuid_hex u) = uuid_hex u"
    unfolding py_strip_def
    by (rule strip_where_id) (use set_uuid_hex hex_char_cases(3) in blast)
  have "uint u < 16 ^ 32"
    using uint_uuid_less [of u] by simp
  then have val_of: "of_base 16 0 (to_base 16 32 (uint u)) = uint u"
    by (simp add: of_to_base del: to_base.simps)
  have "to_base 16 32 (uint u) \<noteq> []"
    using length_to_base [of 16 32 "uint u"] by (metis list.size(3) zero_neq_numeral)
  then have "hex_digits 0 False (uuid_hex u) = Some (uint u)"
    unfolding uuid_hex_def using to_base_range [of 16 _ 32 "uint u"]
    by (subst hex_digits_map) (simp_all add: val_of del: to_base.simps)
  then have "hex_magnitude (uuid_hex u) = Some (uint u)"
    using uuid_hex_not_signed [of u] by (simp add: hex_magnitude_def)
  then show ?thesis
    using uuid_hex_not_signed [of u] by (simp add: py_int16_def strip)
qed

theorem uuid_of_string_str: "uuid_of_string (uuid_str u) = Inr u"
proof -
  have "hd ''urn:'' \<notin> set (uuid_str u)" "hd ''uuid:'' \<notin> set (uuid_str u)"
    using uuid_str_chars(1) [of "CHR ''u''" u] by auto
  then have "py_replace ''uuid:'' [] (py_replace ''urn:'' [] (uuid_str u)) = uuid_str u"
    by (simp only: py_replace_absent list.distinct not_False_eq_True)
  moreover have "strip_where (\<lambda>c. c \<in> set ''{}'') (uuid_str u) = uuid_str u"
    by (rule strip_where_id) (use uuid_str_chars(1) in fastforce)
  moreover have "uint u < 2 ^ 128" by (rule uint_uuid_less)
  ultimately show ?thesis
    unfolding uuid_of_string_def Let_def
    by (simp only: py_replace_dash filter_uuid_str length_uuid_hex py_int16_uuid_hex) simp
qed

corollary uuid_str_inject [simp]: "uuid_str u = uuid_str v \<longleftrightarrow> u = v"
  by (metis sum.inject(2) uuid_of_string_str)

end
