(* ===== verification/Json.thy ===== *)
theory Json
  imports Uuid
begin

section \<open>JSON values\<close>

text \<open>
  What \<open>json.loads\<close> and \<open>jwt.decode\<close> give: Python's None, bool, int, float, str, list and dict.
  A float is a decimal mantissa and exponent, or one of the constants NaN, Infinity, -Infinity; a dict is an association list with distinct keys, in
  insertion order.  \<open>UUID(value)\<close> on a value that is no string fails in the ways the standard
  library's constructor does: None is no argument at all, everything else has no \<open>replace\<close>.
\<close>

datatype json =
    JNull
  | JBool bool
  | JInt int
  | JFloat int int
  | JConst string
  | JStr string
  | JArr "json list"
  | JObj "(string \<times> json) list"

type_synonym json_dict = "(string \<times> json) list"

definition dict_item :: "json_dict \<Rightarrow> string \<Rightarrow> json result" where
  "dict_item p k = (case map_of p k of None \<Rightarrow> Inl KeyError | Some v \<Rightarrow> Inr v)"

fun uuid_of_json :: "json \<Rightarrow> uuid result" where
  "uuid_of_json JNull = Inl TypeError"
| "uuid_of_json (JStr s) = uuid_of_string s"
| "uuid_of_json _ = Inl AttributeError"

lemma uuid_of_json_str [simp]: "uuid_of_json (JStr (uuid_str u)) = Inr u"
  by (simp add: uuid_of_string_str)

lemma uuid_of_json_AttributeError:
  "uuid_of_json v = Inl AttributeError \<longleftrightarrow> (\<forall>s. v \<noteq> JStr s) \<and> v \<noteq> JNull"
  by (cases v) (auto simp: uuid_of_string_def Let_def split: option.splits if_splits)

end
