(* ===== verification/PyTime.thy ===== *)
theory PyTime
  imports PyText
begin

section \<open>datetime.isoformat and datetime.fromisoformat\<close>

text \<open>
  The text form of an aware UTC \<open>datetime\<close> and the reader for it, as in Python 3.9, the oldest
  version the backend supports: \<open>YYYY-MM-DD\<close>, a separator character, \<open>HH[:MM[:SS[.fff[fff]]]]\<close>
  and an offset \<open>[+-]HH[:MM[:SS[.ffffff]]]\<close>.  Dates are converted with the standard library's
  ordinal arithmetic.  A \<open>datetime\<close> read from text has its local microseconds and, when the text
  gave one, its offset.
\<close>

subsection \<open>Ordinals and dates\<close>

definition is_leap :: "int \<Rightarrow> bool" where
  "is_leap y \<longleftrightarrow> y mod 4 = 0 \<and> (y mod 100 \<noteq> 0 \<or> y mod 400 = 0)"

definition days_before_year :: "int \<Rightarrow> int" where
  "days_before_year year = (let y = year - 1 in y * 365 + y div 4 - y div 100 + y div 400)"

definition month_starts :: "int list" where
  "month_starts = [0, 31, 59, 90, 120, 151, 181, 212, 243, 273, 304, 334]"

definition month_lengths :: "int list" where
  "month_lengths = [31, 28, 31, 30, 31, 30, 31, 31, 30, 31, 30, 31]"

definition days_before_month :: "bool \<Rightarrow> int \<Rightarrow> int" where
  "days_before_month leap month =
     month_starts ! nat (month - 1) + (if 2 < month \<and> leap then 1 else 0)"

definition days_in_month :: "bool \<Rightarrow> int \<Rightarrow> int" where
  "days_in_month leap month =
     (if month = 2 \<and> leap then 29 else month_lengths ! nat (month - 1))"

definition ymd2ord :: "int \<Rightarrow> int \<Rightarrow> int \<Rightarrow> int" where
  "ymd2ord year month day =
     days_before_year year + days_before_month (is_leap year) month + day"

text \<open>The month and day of a zero-based day of the year.\<close>

definition month_of_yday :: "bool \<Rightarrow> int \<Rightarrow> int \<times> int" where
  "month_of_yday leap n =
     (let month = (n + 50) div 32;
          preceding = days_before_month leap month
      in if preceding > n
         then (month - 1, n - (preceding - days_in_month leap (month - 1)) + 1)
         else (month, n - preceding + 1))"

definition ord2ymd :: "int \<Rightarrow> int \<times> int \<times> int" where
  "ord2ymd ordinal =
     (let n = ordinal - 1;
          n400 = n div 146097; n = n mod 146097;
          n100 = n div 36524; n = n mod 36524;
          n4 = n div 1461; n = n mod 1461;
          n1 = n div 365; n = n mod 365;
          year = n400 * 400 + 1 + n100 * 100 + n4 * 4 + n1
      in if n1 = 4 \<or> n100 = 4 then (year - 1, 12, 31)
         else let leap = (n1 = 3 \<and> (n4 \<noteq> 24 \<or> n100 = 3)); (month, day) = month_of_yday leap n
              in (year, month, day))"

subsection \<open>Writing\<close>

definition dec_char :: "int \<Rightarrow> char" where
  "dec_char d = ''0123456789'' ! nat d"

definition dec :: "nat \<Rightarrow> int \<Rightarrow> string" where
  "dec k n = map dec_char (to_base 10 k n)"

definition day_micros :: int where
  "day_micros = 86400000000"

definition epoch_ordinal :: int where
  "epoch_ordinal = 719163"

text \<open>\<open>isoformat\<close> of an aware UTC datetime; the years are 1 to 9999.\<close>

definition iso_time :: "int \<Rightarrow> string" where
  "iso_time micros =
     (let secs = micros div 1000000; us = micros mod 1000000 in
      dec 2 (secs div 3600) @ '':'' @ dec 2 (secs div 60 mod 60) @ '':'' @ dec 2 (secs mod 60) @
      (if us = 0 then [] else ''.'' @ dec 6 us))"

definition isoformat :: "instant \<Rightarrow> string" where
  "isoformat t =
     (case ord2ymd (t div day_micros + epoch_ordinal) of (y, m, d) \<Rightarrow>
        dec 4 y @ ''-'' @ dec 2 m @ ''-'' @ dec 2 d @ ''T'' @ iso_time (t mod day_micros) @ ''+00:00'')"

definition representable :: "instant \<Rightarrow> bool" where
  "representable t \<longleftrightarrow> - 62135596800000000 \<le> t \<and> t < 253402300800000000"

subsection \<open>Reading\<close>

record py_datetime =
  local_micros :: int
  utc_offset :: "int option"

definition dec_value :: "char \<Rightarrow> int option" where
  "dec_value c = (let n = (of_char c :: int) in
     if 48 \<le> n \<and> n \<le> 57 then Some (n - 48) else None)"

text \<open>A given number of decimal digits from the front.\<close>

fun read_digits :: "nat \<Rightarrow> int \<Rightarrow> string \<Rightarrow> (int \<times> string) option" where
  "read_digits 0 acc s = Some (acc, s)"
| "read_digits (Suc k) acc [] = None"
| "read_digits (Suc k) acc (c # cs) =
     (case dec_value c of None \<Rightarrow> None | Some d \<Rightarrow> read_digits k (10 * acc + d) cs)"

definition read_char :: "char \<Rightarrow> string \<Rightarrow> string option" where
  "read_char c s = (case s of [] \<Rightarrow> None | x # xs \<Rightarrow> if x = c then Some xs else None)"

definition read_date :: "string \<Rightarrow> (int \<times> int \<times> int) option" where
  "read_date s =
     Option.bind (read_digits 4 0 s) (\<lambda>(y, s).
     Option.bind (read_char CHR ''-'' s) (\<lambda>s.
     Option.bind (read_digits 2 0 s) (\<lambda>(m, s).
     Option.bind (read_char CHR ''-'' s) (\<lambda>s.
     Option.bind (read_digits 2 0 s) (\<lambda>(d, s).
       Some (y, m, d))))))"

definition read_micros :: "string \<Rightarrow> int option" where
  "read_micros s =
     (if length s = 6 then map_option fst (read_digits 6 0 s)
      else if length s = 3 then map_option (\<lambda>r. fst r * 1000) (read_digits 3 0 s)
      else None)"

text \<open>
  \<open>HH[:MM[:SS[.fff[fff]]]]\<close> up to the end of the given text: up to three two-digit components
  separated by colons, a dot starting the microseconds.
\<close>

fun read_hms :: "nat \<Rightarrow> string \<Rightarrow> (int list \<times> int) option" where
  "read_hms 0 s = None"
| "read_hms (Suc k) s =
     (case read_digits 2 0 s of
        None \<Rightarrow> None
      | Some (v, rest) \<Rightarrow>
          (case rest of
             [] \<Rightarrow> Some ([v], 0)
           | c # cs \<Rightarrow>
               if c = CHR ''.'' \<or> (c = CHR '':'' \<and> k = 0 \<and> cs \<noteq> [])
               then map_option (\<lambda>us. ([v], us)) (read_micros cs)
               else if c = CHR '':'' \<and> 0 < k
               then map_option (\<lambda>(vs, us). (v # vs, us)) (read_hms k cs)
               else None))"

definition hms_at :: "int list \<Rightarrow> nat \<Rightarrow> int" where
  "hms_at vs i = (if i < length vs then vs ! i else 0)"

definition is_sign :: "char \<Rightarrow> bool" where
  "is_sign c \<longleftrightarrow> c = CHR ''+'' \<or> c = CHR ''-''"

definition read_time :: "string \<Rightarrow> ((int list \<times> int) \<times> int option) option" where
  "read_time s =
     Option.bind (read_hms 3 (takeWhile (\<lambda>c. \<not> is_sign c) s)) (\<lambda>hms.
       (case dropWhile (\<lambda>c. \<not> is_sign c) s of
          [] \<Rightarrow> Some (hms, None)
        | sign # tz \<Rightarrow>
            Option.bind (read_hms 3 tz) (\<lambda>(vs, us).
              let micros = (hms_at vs 0 * 3600 + hms_at vs 1 * 60 + hms_at vs 2) * 1000000 + us
              in Some (hms, Some (if sign = CHR ''-'' then - micros else micros)))))"

definition valid_date :: "int \<Rightarrow> int \<Rightarrow> int \<Rightarrow> bool" where
  "valid_date y m d \<longleftrightarrow> 1 \<le> y \<and> y \<le> 9999 \<and> 1 \<le> m \<and> m \<le> 12 \<and> 1 \<le> d \<and> d \<le> days_in_month (is_leap y) m"

definition fromisoformat :: "string \<Rightarrow> py_datetime result" where
  "fromisoformat s =
     (case Option.bind (read_date s) (\<lambda>ymd.
        map_option (Pair ymd) (if length s \<le> 11 then Some (([0], 0), None) else read_time (drop 11 s))) of
        None \<Rightarrow> Inl ValueError
      | Some ((y, m, d), ((vs, us), offset)) \<Rightarrow>
          let hh = hms_at vs 0; mm = hms_at vs 1; ss = hms_at vs 2 in
          if valid_date y m d \<and> hh < 24 \<and> mm < 60 \<and> ss < 60 \<and>
             (case offset of None \<Rightarrow> True | Some off \<Rightarrow> \<bar>off\<bar> < day_micros)
          then Inr \<lparr>local_micros = (ymd2ord y m d - epoch_ordinal) * day_micros +
                     ((hh * 3600 + mm * 60 + ss) * 1000000 + us), utc_offset = offset\<rparr>
          else Inl ValueError)"

text \<open>The instant an aware datetime denotes; a naive one is read in the server's time zone.\<close>

definition instant_of :: "int \<Rightarrow> py_datetime \<Rightarrow> instant" where
  "instant_of server_offset dt =
     local_micros dt - (case utc_offset dt of None \<Rightarrow> server_offset | Some off \<Rightarrow> off)"

subsection \<open>Dates and ordinals are inverse\<close>

lemma month_of_yday_table:
  "\<forall>n \<in> set [0..364]. \<forall>leap \<in> {True, False}.
     (case month_of_yday leap n of (m, d) \<Rightarrow>
        1 \<le> m \<and> m \<le> 12 \<and> 1 \<le> d \<and> d \<le> days_in_month leap m \<and> days_before_month leap m + d = n + 1)"
  by code_simp

lemma month_of_yday:
  assumes "0 \<le> n" and "n < 365" and "month_of_yday leap n = (m, d)"
  shows "1 \<le> m" and "m \<le> 12" and "1 \<le> d" and "d \<le> days_in_month leap m"
    and "days_before_month leap m + d = n + 1"
proof -
  have "n \<in> set [0..364]" "leap \<in> {True, False}" using assms by auto
  from month_of_yday_table [rule_format, OF this] assms(3)
  show "1 \<le> m" "m \<le> 12" "1 \<le> d" "d \<le> days_in_month leap m" "days_before_month leap m + d = n + 1"
    by auto
qed

lemma mod_zero_top:
  fixes k q r :: int
  assumes "0 < k" "1 \<le> r" "r \<le> k"
  shows "(k * q + r) mod k = 0 \<longleftrightarrow> r = k"
proof (cases "r = k")
  case False
  then have "r mod k = r" using assms by simp
  with False assms show ?thesis by simp
qed simp

text \<open>A year from its place in the 400-, 100- and 4-year cycles.\<close>

lemma year_of_cycles:
  fixes a b c e :: int
  assumes "0 \<le> b" "b < 4" "0 \<le> c" "c < 25" "0 \<le> e" "e < 4"
    and y_def: "y = a * 400 + 1 + b * 100 + c * 4 + e"
  shows "days_before_year y = a * 146097 + b * 36524 + c * 1461 + e * 365"
    and "is_leap y \<longleftrightarrow> e = 3 \<and> (c \<noteq> 24 \<or> b = 3)"
proof -
  have q: "(y - 1) div 4 = 100 * a + 25 * b + c" "(y - 1) div 100 = 4 * a + b" "(y - 1) div 400 = a"
    using assms by (simp_all add: y_def)
  show "days_before_year y = a * 146097 + b * 36524 + c * 1461 + e * 365"
    unfolding days_before_year_def Let_def q by (simp add: y_def)
  have y4: "y = 4 * (100 * a + 25 * b + c) + (e + 1)"
    and y100: "y = 100 * (4 * a + b) + (4 * c + e + 1)"
    and y400: "y = 400 * a + (100 * b + 4 * c + e + 1)"
    by (simp_all add: y_def)
  have "y mod 4 = 0 \<longleftrightarrow> e + 1 = 4"
    by (subst y4, rule mod_zero_top; use assms in linarith)
  moreover have "y mod 100 = 0 \<longleftrightarrow> 4 * c + e + 1 = 100"
    by (subst y100, rule mod_zero_top; use assms in linarith)
  moreover have "y mod 400 = 0 \<longleftrightarrow> 100 * b + 4 * c + e + 1 = 400"
    by (subst y400, rule mod_zero_top; use assms in linarith)
  moreover have "4 * c + e + 1 = 100 \<longleftrightarrow> c = 24 \<and> e = 3"
    "100 * b + 4 * c + e + 1 = 400 \<longleftrightarrow> b = 3 \<and> c = 24 \<and> e = 3"
    using assms(1-6) by linarith+
  ultimately have "y mod 4 = 0 \<longleftrightarrow> e = 3" "y mod 100 = 0 \<longleftrightarrow> c = 24 \<and> e = 3"
    "y mod 400 = 0 \<longleftrightarrow> b = 3 \<and> c = 24 \<and> e = 3"
    by simp_all
  then show "is_leap y \<longleftrightarrow> e = 3 \<and> (c \<noteq> 24 \<or> b = 3)"
    by (auto simp: is_leap_def)
qed

lemma december_31:
  "days_before_month leap 12 = (if leap then 335 else 334)" "days_in_month leap 12 = 31"
  by (simp_all add: days_before_month_def days_in_month_def month_starts_def month_lengths_def)

text \<open>The last days of a cycle of 400 years and of a leap year, where the divisions overflow by one.\<close>

lemma cycle_end:
  assumes "0 \<le> a" and "a \<le> 23" and y: "y = a * 400 + 1 + 3 * 100 + 24 * 4 + 3"
  shows "ymd2ord y 12 31 = a * 146097 + 146097 \<and> valid_date y 12 31"
proof -
  note cyc = year_of_cycles [OF _ _ _ _ _ _ y, simplified]
  have "days_before_year y = a * 146097 + 145731" "is_leap y" using cyc by (simp_all add: y)
  with assms(1,2) show ?thesis by (simp add: ymd2ord_def valid_date_def december_31 y)
qed

lemma leap_year_end:
  assumes "0 \<le> a" and "a < 25" and "0 \<le> b" and "b < 4" and "0 \<le> c" and "c < 24"
    and y: "y = a * 400 + 1 + b * 100 + c * 4 + 3"
  shows "ymd2ord y 12 31 = a * 146097 + b * 36524 + c * 1461 + 1461 \<and> valid_date y 12 31"
proof -
  note cyc = year_of_cycles [OF _ _ _ _ _ _ y]
  have "is_leap y" using cyc assms by simp
  with cyc(1) assms show ?thesis by (simp add: ymd2ord_def valid_date_def december_31)
qed

lemma ordinary_day:
  assumes "0 \<le> a" and "a < 25" and "0 \<le> b" and "b < 4" and "0 \<le> c" and "c < 25" and "0 \<le> e" and "e < 4"
    and "0 \<le> r" and "r < 365" and y: "y = a * 400 + 1 + b * 100 + c * 4 + e"
    and md: "month_of_yday (e = 3 \<and> (c \<noteq> 24 \<or> b = 3)) r = (m, d)"
    and n: "n = a * 146097 + b * 36524 + c * 1461 + e * 365 + r + 1" and "n \<le> 3652059"
  shows "ymd2ord y m d = n \<and> valid_date y m d"
proof -
  note cyc = year_of_cycles [OF assms(3-8) y]
  from md have "month_of_yday (is_leap y) r = (m, d)" by (simp only: cyc(2))
  note mon = month_of_yday [OF assms(9,10) this]
  have "1 \<le> y" using y assms(1,3,5,7) by linarith
  moreover have "y \<le> 9999"
  proof (rule ccontr)
    assume "\<not> y \<le> 9999"
    then have "a = 24" "b = 3" "c = 24" "e = 3" using y assms(2,4,6,8) by linarith+
    with n assms(9,14) show False by linarith
  qed
  ultimately show ?thesis using cyc(1) mon n unfolding ymd2ord_def valid_date_def by linarith
qed

lemma ord2ymd_inverse:
  assumes "1 \<le> n" and "n \<le> 3652059" and "ord2ymd n = (y, m, d)"
  shows "ymd2ord y m d = n \<and> valid_date y m d"
proof -
  define a where "a = (n - 1) div 146097"
  define r1 where "r1 = (n - 1) mod 146097"
  define b where "b = r1 div 36524"
  define r2 where "r2 = r1 mod 36524"
  define c where "c = r2 div 1461"
  define r3 where "r3 = r2 mod 1461"
  define e where "e = r3 div 365"
  define r4 where "r4 = r3 mod 365"
  note defs = a_def r1_def b_def r2_def c_def r3_def e_def r4_def
  have n: "n = a * 146097 + r1 + 1" "r1 = b * 36524 + r2" "r2 = c * 1461 + r3" "r3 = e * 365 + r4"
    by (simp_all add: defs)
  have ranges: "0 \<le> a" "a < 25" "0 \<le> r1" "r1 < 146097" "0 \<le> b" "b \<le> 4" "0 \<le> r2" "r2 < 36524"
    "0 \<le> c" "c < 25" "0 \<le> r3" "r3 < 1461" "0 \<le> e" "e \<le> 4" "0 \<le> r4" "r4 < 365"
    using assms(1,2) by (simp_all add: defs)
  have split: "ord2ymd n = (if e = 4 \<or> b = 4 then (a * 400 + 1 + b * 100 + c * 4 + e - 1, 12, 31)
      else let leap = (e = 3 \<and> (c \<noteq> 24 \<or> b = 3)); (month, day) = month_of_yday leap r4
           in (a * 400 + 1 + b * 100 + c * 4 + e, month, day))"
    by (simp only: ord2ymd_def Let_def defs)
  consider (cycle) "b = 4" | (leap) "b < 4" "e = 4" | (day) "b < 4" "e < 4" using ranges by linarith
  then show ?thesis
  proof cases
    case cycle
    then have r: "r2 = 0" "c = 0" "e = 0" "r4 = 0" "a \<le> 23" using n ranges assms(2) by linarith+
    with cycle assms(3) split have "y = a * 400 + 1 + 3 * 100 + 24 * 4 + 3" "m = 12" "d = 31" by simp_all
    with cycle_end [OF ranges(1) r(5)] n cycle r(1) show ?thesis by simp
  next
    case leap
    then have r: "r4 = 0" "c < 24" using n ranges by linarith+
    with leap assms(3) split have "y = a * 400 + 1 + b * 100 + c * 4 + 3" "m = 12" "d = 31" by simp_all
    with leap_year_end [OF ranges(1,2,5) leap(1) ranges(9) r(2)] n leap(2) r(1) show ?thesis by simp
  next
    case day
    then have "y = a * 400 + 1 + b * 100 + c * 4 + e" "month_of_yday (e = 3 \<and> (c \<noteq> 24 \<or> b = 3)) r4 = (m, d)"
      using assms(3) split by (auto simp: Let_def split: prod.splits)
    from ordinary_day [OF ranges(1,2,5) day(1) ranges(9,10,13) day(2) ranges(15,16) this _ assms(2)] n
    show ?thesis by simp
  qed
qed

lemma days_in_month_table: "\<forall>m \<in> set [1..12]. \<forall>leap \<in> {True, False}. days_in_month leap m \<le> 31"
  by code_simp

lemma days_in_month_le: "1 \<le> m \<Longrightarrow> m \<le> 12 \<Longrightarrow> days_in_month leap m \<le> 31"
  using days_in_month_table by (cases leap) auto

subsection \<open>Reading back\<close>

lemma dec_char_table:
  "\<forall>d \<in> set [0..9]. dec_value (dec_char d) = Some d \<and> \<not> is_sign (dec_char d) \<and>
    dec_char d \<noteq> CHR ''.'' \<and> dec_char d \<noteq> CHR '':'' \<and>
    32 \<le> (of_char (dec_char d) :: nat) \<and> (of_char (dec_char d) :: nat) < 127 \<and>
    dec_char d \<noteq> CHR 0x22 \<and> dec_char d \<noteq> CHR 0x5C"
  by code_simp

lemma dec_digit:
  assumes "c \<in> set (dec k n)"
  shows "\<not> is_sign c" and "c \<noteq> CHR ''.''" and "c \<noteq> CHR '':''" and "32 \<le> (of_char c :: nat)"
    and "(of_char c :: nat) < 127" and "c \<noteq> CHR 0x22" and "c \<noteq> CHR 0x5C"
proof -
  obtain d where "d \<in> set (to_base 10 k n)" "c = dec_char d"
    using assms by (auto simp: dec_def simp del: to_base.simps)
  then have c: "c = dec_char d" and "d \<in> set [0..9]" using to_base_range [of 10 d k n] by simp_all
  from dec_char_table [rule_format, OF this(2)] show "\<not> is_sign c" "c \<noteq> CHR ''.''" "c \<noteq> CHR '':''" "32 \<le> (of_char c :: nat)"
    "(of_char c :: nat) < 127" "c \<noteq> CHR 0x22" "c \<noteq> CHR 0x5C"
    unfolding c by simp_all
qed

lemma length_dec [simp]: "length (dec k n) = k"
  by (simp add: dec_def)

lemma read_digits_map:
  assumes "\<forall>d \<in> set ds. 0 \<le> d \<and> d < 10"
  shows "read_digits (length ds) acc (map dec_char ds @ rest) = Some (of_base 10 acc ds, rest)"
  using assms
proof (induction ds arbitrary: acc)
  case (Cons d ds)
  then have "dec_value (dec_char d) = Some d" using dec_char_table by auto
  with Cons show ?case by simp
qed simp

lemma read_digits_dec:
  assumes "0 \<le> n" and "n < 10 ^ k"
  shows "read_digits k 0 (dec k n @ rest) = Some (n, rest)"
proof -
  have "read_digits (length (to_base 10 k n)) 0 (map dec_char (to_base 10 k n) @ rest) =
      Some (of_base 10 0 (to_base 10 k n), rest)"
    by (rule read_digits_map) (use to_base_range [of 10 _ k n] in auto)
  then show ?thesis
    using assms by (simp add: dec_def of_to_base del: to_base.simps)
qed

lemmas read_dec2 = read_digits_dec [of _ 2, simplified]
lemmas read_dec4 = read_digits_dec [of _ 4, simplified]
lemmas read_dec6 = read_digits_dec [of _ 6, simplified]

lemma read_date_dec:
  assumes "0 \<le> y" "y < 10000" "0 \<le> m" "m < 100" "0 \<le> d" "d < 100"
  shows "read_date (dec 4 y @ ''-'' @ dec 2 m @ ''-'' @ dec 2 d @ rest) = Some (y, m, d)"
  using assms by (simp add: read_date_def read_char_def read_dec2 read_dec4)

lemma iso_time_not_sign: "c \<in> set (iso_time u) \<Longrightarrow> \<not> is_sign c"
  using dec_digit(1)
  by (auto simp: iso_time_def Let_def is_sign_def split: if_splits)

lemma read_hms_dec:
  assumes "0 \<le> h" "h < 100" "0 \<le> m" "m < 100" "0 \<le> s" "s < 100"
  shows "read_hms 3 (dec 2 h @ '':'' @ dec 2 m @ '':'' @ dec 2 s) = Some ([h, m, s], 0)"
    and "read_hms 3 (dec 2 h @ '':'' @ dec 2 m @ '':'' @ dec 2 s @ ''.'' @ us) =
      map_option (Pair [h, m, s]) (read_micros us)"
  using assms read_dec2 [of s "[]"]
  by (simp_all add: numeral_3_eq_3 read_dec2 option.map_comp comp_def)

lemma read_hms_iso_time:
  assumes "0 \<le> u" and "u < day_micros"
  shows "read_hms 3 (iso_time u) =
    Some ([u div 1000000 div 3600, u div 1000000 div 60 mod 60, u div 1000000 mod 60], u mod 1000000)"
proof -
  define s where "s = u div 1000000"
  have s: "0 \<le> s" "s < 86400" using assms by (simp_all add: s_def day_micros_def)
  have parts: "0 \<le> s div 3600" "s div 3600 < 100" "0 \<le> s div 60 mod 60" "s div 60 mod 60 < 100"
    "0 \<le> s mod 60" "s mod 60 < 100"
    using s pos_mod_bound [of 60 "s div 60", simplified] pos_mod_bound [of 60 s, simplified]
      div_mult_mod_eq [of s 3600]
    by linarith+
  have read_us: "read_micros (dec 6 (u mod 1000000)) = Some (u mod 1000000)"
    using read_dec6 [of "u mod 1000000" "[]"] by (simp add: read_micros_def)
  show ?thesis
    unfolding iso_time_def Let_def s_def [symmetric]
    using read_hms_dec [OF parts] read_us by simp
qed

lemma hms_sum:
  fixes u :: int
  shows "(u div 1000000 div 3600 * 3600 + u div 1000000 div 60 mod 60 * 60 + u div 1000000 mod 60) *
    1000000 + u mod 1000000 = u"
proof -
  let ?s = "u div 1000000"
  have "?s div 3600 = ?s div 60 div 60" by (simp add: zdiv_zmult2_eq [symmetric])
  then have "?s div 3600 * 3600 + ?s div 60 mod 60 * 60 + ?s mod 60 = ?s"
    using div_mult_mod_eq [of ?s 60] div_mult_mod_eq [of "?s div 60" 60] by linarith
  then show ?thesis using div_mult_mod_eq [of u 1000000] by simp
qed

lemma day_micros_pos: "0 < day_micros"
  by (simp add: day_micros_def)

lemma representable_ordinal:
  assumes "representable t"
  shows "1 \<le> t div day_micros + epoch_ordinal" and "t div day_micros + epoch_ordinal \<le> 3652059"
  using assms mult_div_mod_eq [of day_micros t] pos_mod_sign [OF day_micros_pos, of t]
    pos_mod_bound [OF day_micros_pos, of t]
  unfolding representable_def day_micros_def epoch_ordinal_def by linarith+

text \<open>Reading the text of an aware datetime gives the datetime back, with offset zero.\<close>

theorem fromisoformat_isoformat:
  assumes "representable t"
  shows "fromisoformat (isoformat t) = Inr \<lparr>local_micros = t, utc_offset = Some 0\<rparr>"
proof -
  let ?day = "t div day_micros + epoch_ordinal" and ?u = "t mod day_micros"
  obtain y m d where ymd: "ord2ymd ?day = (y, m, d)" by (cases "ord2ymd ?day")
  from ord2ymd_inverse [OF representable_ordinal [OF assms] ymd]
  have ord: "ymd2ord y m d = ?day" and valid: "valid_date y m d" by simp_all
  have range: "0 \<le> y" "y < 10000" "0 \<le> m" "m < 100" "0 \<le> d" "d < 100"
    using valid days_in_month_le [of m "is_leap y"] unfolding valid_date_def by linarith+
  let ?date = "dec 4 y @ ''-'' @ dec 2 m @ ''-'' @ dec 2 d @ ''T''"
  have shape: "isoformat t = ?date @ iso_time ?u @ ''+00:00''"
    by (simp add: isoformat_def ymd)
  have date: "read_date (isoformat t) = Some (y, m, d)"
    unfolding shape using read_date_dec [OF range] by simp
  have rest: "drop 11 (isoformat t) = iso_time ?u @ ''+00:00''" and len: "\<not> length (isoformat t) \<le> 11"
    unfolding shape by simp_all
  let ?s = "?u div 1000000"
  have u: "0 \<le> ?u" "?u < day_micros" using day_micros_pos by simp_all
  have "takeWhile (\<lambda>c. \<not> is_sign c) (iso_time ?u @ ''+00:00'') = iso_time ?u"
    and "dropWhile (\<lambda>c. \<not> is_sign c) (iso_time ?u @ ''+00:00'') = ''+00:00''"
    using iso_time_not_sign by (simp_all add: takeWhile_append dropWhile_append is_sign_def)
  moreover have "read_hms 3 ''00:00'' = Some ([0, 0], 0)" by code_simp
  ultimately have time: "read_time (drop 11 (isoformat t)) =
      Some (([?s div 3600, ?s div 60 mod 60, ?s mod 60], ?u mod 1000000), Some 0)"
    by (simp add: rest read_time_def read_hms_iso_time [OF u] hms_at_def)
  let ?h = "?s div 3600" and ?m = "?s div 60 mod 60" and ?sec = "?s mod 60"
  have sum: "(?h * 3600 + ?m * 60 + ?sec) * 1000000 + ?u mod 1000000 = ?u"
    by (rule hms_sum)
  have "?s < 86400" using u by (simp add: day_micros_def)
  then have bounds: "?h < 24" "?m < 60" "?sec < 60" by simp_all
  have hms: "hms_at [?h, ?m, ?sec] 0 = ?h" "hms_at [?h, ?m, ?sec] 1 = ?m" "hms_at [?h, ?m, ?sec] 2 = ?sec"
    by (simp_all add: hms_at_def)
  have "(?day - epoch_ordinal) * day_micros + ?u = t" by simp
  then show ?thesis
    unfolding fromisoformat_def
    by (simp only: date time len valid ord hms bounds sum Let_def Option.bind.simps option.map prod.case
        option.case if_False simp_thms abs_zero day_micros_pos if_True)
qed

end
