(* ===== verification/JsonText.thy ===== *)
theory JsonText
  imports Json PyTime "HOL-Library.AList"
begin

section \<open>json.dumps and json.loads\<close>

text \<open>
  The writer for strings and flat objects of strings (with \<open>ensure_ascii\<close>, the default), and the
  reader: a scanner over the text in the grammar of the standard library's \<open>json\<close> module (four
  whitespace characters, escapes, surrogate pairs, numbers without leading zeros, the constants
  NaN, Infinity and -Infinity, the last of several equal keys).  The scanner recurses with fuel;
  \<open>json_value_fuel\<close> shows that twice the length of the text and two is always enough.  Every
  failure is a \<open>JSONDecodeError\<close>, a \<open>ValueError\<close>.  A character beyond code 255 is read as character
  255, as in the UTF-8 decoder.
\<close>

subsection \<open>Writing\<close>

definition json_plain :: "char \<Rightarrow> bool" where
  "json_plain c \<longleftrightarrow> (let n = (of_char c :: nat) in 32 \<le> n \<and> n < 127) \<and> c \<noteq> CHR 0x22 \<and> c \<noteq> CHR 0x5C"

definition json_escape :: "char \<Rightarrow> string" where
  "json_escape c =
     (if json_plain c then [c]
      else if c = CHR 0x22 then [CHR 0x5C, CHR 0x22]
      else if c = CHR 0x5C then [CHR 0x5C, CHR 0x5C]
      else if c = CHR 0x0A then [CHR 0x5C, CHR ''n'']
      else if c = CHR 0x0D then [CHR 0x5C, CHR ''r'']
      else if c = CHR 0x09 then [CHR 0x5C, CHR ''t'']
      else if c = CHR 0x0C then [CHR 0x5C, CHR ''f'']
      else if c = CHR 0x08 then [CHR 0x5C, CHR ''b'']
      else [CHR 0x5C, CHR ''u''] @ map hex_char (to_base 16 4 (of_char c)))"

definition json_quote :: "string \<Rightarrow> string" where
  "json_quote s = [CHR 0x22] @ concat (map json_escape s) @ [CHR 0x22]"

text \<open>\<open>json.dumps\<close> of a dict from strings to strings.\<close>

definition json_dumps :: "(string \<times> string) list \<Rightarrow> string" where
  "json_dumps d =
     ''{'' @ py_join '', '' (map (\<lambda>(k, v). json_quote k @ '': '' @ json_quote v) d) @ ''}''"

subsection \<open>Reading strings and numbers\<close>

definition json_space :: "char \<Rightarrow> bool" where
  "json_space c \<longleftrightarrow> c \<in> {CHR '' '', CHR 0x09, CHR 0x0A, CHR 0x0D}"

definition skip_space :: "string \<Rightarrow> string" where
  "skip_space s = dropWhile json_space s"

definition hex4 :: "string \<Rightarrow> (int \<times> string) option" where
  "hex4 s =
     (case s of
        a # b # c # d # rest \<Rightarrow>
          (case (hex_value a, hex_value b, hex_value c, hex_value d) of
             (Some a, Some b, Some c, Some d) \<Rightarrow> Some (((a * 16 + b) * 16 + c) * 16 + d, rest)
           | _ \<Rightarrow> None)
      | _ \<Rightarrow> None)"

text \<open>A high surrogate takes a low one that follows it along; both make one character.\<close>

definition skip_low_surrogate :: "int \<Rightarrow> string \<Rightarrow> string" where
  "skip_low_surrogate n rest =
     (if 55296 \<le> n \<and> n < 56320 \<and> take 2 rest = [CHR 0x5C, CHR ''u'']
      then case hex4 (drop 2 rest) of
        Some (m, rest') \<Rightarrow> if 56320 \<le> m \<and> m < 57344 then rest' else rest
      | None \<Rightarrow> rest
      else rest)"

definition code_char :: "int \<Rightarrow> char" where
  "code_char n = (if n < 256 then char_of n else CHR 0xFF)"

definition json_unescape :: "string \<Rightarrow> (char \<times> string) option" where
  "json_unescape s =
     (case s of
        [] \<Rightarrow> None
      | c # rest \<Rightarrow>
          if c \<in> {CHR 0x22, CHR 0x5C, CHR ''/''} then Some (c, rest)
          else if c = CHR ''b'' then Some (CHR 0x08, rest)
          else if c = CHR ''f'' then Some (CHR 0x0C, rest)
          else if c = CHR ''n'' then Some (CHR 0x0A, rest)
          else if c = CHR ''r'' then Some (CHR 0x0D, rest)
          else if c = CHR ''t'' then Some (CHR 0x09, rest)
          else if c = CHR ''u'' then
            (case hex4 rest of
               None \<Rightarrow> None
             | Some (n, rest') \<Rightarrow> Some (code_char n, skip_low_surrogate n rest'))
          else None)"

lemma hex4_length: "hex4 s = Some (n, rest) \<Longrightarrow> length s = length rest + 4"
  by (auto simp: hex4_def split: list.splits option.splits)

lemma skip_low_surrogate_length: "length (skip_low_surrogate n rest) \<le> length rest"
  by (auto simp: skip_low_surrogate_def split: option.splits dest: hex4_length)

lemma json_unescape_length:
  assumes "json_unescape s = Some (c, rest)"
  shows "length rest < length s"
proof (cases s)
  case (Cons a as)
  have "length (skip_low_surrogate n r) < Suc (length as)" if "hex4 as = Some (n, r)" for n r
    using hex4_length [OF that] skip_low_surrogate_length [of n r] by simp
  then show ?thesis
    using assms Cons by (auto simp: json_unescape_def split: if_splits option.splits)
qed (use assms in \<open>simp add: json_unescape_def\<close>)

text \<open>The rest of a string literal after its opening quote.\<close>

function (sequential) json_string :: "string \<Rightarrow> (string \<times> string) option" where
  "json_string [] = None"
| "json_string (c # cs) =
     (if c = CHR 0x22 then Some ([], cs)
      else if c = CHR 0x5C then
        (case json_unescape cs of
           None \<Rightarrow> None
         | Some (x, rest) \<Rightarrow> map_option (\<lambda>(s, r). (x # s, r)) (json_string rest))
      else if (of_char c :: nat) < 32 then None
      else map_option (\<lambda>(s, r). (c # s, r)) (json_string cs))"
  by pat_completeness auto
termination
  by (relation "measure length") (auto dest: json_unescape_length)

definition is_digit :: "char \<Rightarrow> bool" where
  "is_digit c \<longleftrightarrow> dec_value c \<noteq> None"

fun digits_value :: "int \<Rightarrow> string \<Rightarrow> int" where
  "digits_value acc [] = acc"
| "digits_value acc (c # cs) =
     digits_value (10 * acc + (case dec_value c of None \<Rightarrow> 0 | Some d \<Rightarrow> d)) cs"

text \<open>Fraction and exponent are part of the number only when a digit follows their marker.\<close>

definition json_fraction :: "string \<Rightarrow> string \<times> string" where
  "json_fraction s =
     (if take 1 s = ''.'' \<and> takeWhile is_digit (drop 1 s) \<noteq> []
      then (takeWhile is_digit (drop 1 s), dropWhile is_digit (drop 1 s))
      else ([], s))"

definition json_exponent :: "string \<Rightarrow> int option \<times> string" where
  "json_exponent s =
     (if s \<noteq> [] \<and> hd s \<in> {CHR ''e'', CHR ''E''} then
        let t = tl s;
            u = (if t \<noteq> [] \<and> hd t \<in> {CHR ''+'', CHR ''-''} then tl t else t);
            ds = takeWhile is_digit u
        in if ds = [] then (None, s)
           else (Some (if take 1 t = ''-'' then - digits_value 0 ds else digits_value 0 ds),
                 dropWhile is_digit u)
      else (None, s))"

definition json_number :: "string \<Rightarrow> (json \<times> string) option" where
  "json_number s =
     (let neg = (take 1 s = ''-'');
          t = (if neg then drop 1 s else s);
          whole = (if take 1 t = ''0'' then ''0'' else takeWhile is_digit t);
          sgn = (if neg then - 1 else 1)
      in if whole = [] then None
         else
           let (frac, u) = json_fraction (drop (length whole) t);
               (ex, v) = json_exponent u
           in Some (if frac = [] \<and> ex = None then JInt (sgn * digits_value 0 whole)
                    else JFloat (sgn * digits_value 0 (whole @ frac))
                           ((case ex of None \<Rightarrow> 0 | Some e \<Rightarrow> e) - int (length frac)), v))"

subsection \<open>Reading values\<close>

definition json_words :: "(string \<times> json) list" where
  "json_words = [(''null'', JNull), (''true'', JBool True), (''false'', JBool False),
     (''NaN'', JConst ''NaN''), (''Infinity'', JConst ''Infinity''),
     (''-Infinity'', JConst ''-Infinity'')]"

definition json_word :: "string \<Rightarrow> (json \<times> string) option" where
  "json_word s =
     (case find (\<lambda>(w, v). py_startswith s w) json_words of
        None \<Rightarrow> None
      | Some (w, v) \<Rightarrow> Some (v, drop (length w) s))"

fun json_value :: "nat \<Rightarrow> string \<Rightarrow> (json \<times> string) option"
  and json_items :: "nat \<Rightarrow> string \<Rightarrow> (json list \<times> string) option"
  and json_members :: "nat \<Rightarrow> string \<Rightarrow> ((string \<times> json) list \<times> string) option" where
  "json_value 0 s = None"
| "json_value (Suc n) s =
     (case s of
        [] \<Rightarrow> None
      | c # cs \<Rightarrow>
          if c = CHR 0x22 then map_option (\<lambda>(t, r). (JStr t, r)) (json_string cs)
          else if c = CHR ''['' then
            (case skip_space cs of
               [] \<Rightarrow> None
             | d # ds \<Rightarrow>
                 if d = CHR '']'' then Some (JArr [], ds)
                 else map_option (\<lambda>(vs, r). (JArr vs, r)) (json_items n (d # ds)))
          else if c = CHR ''{'' then
            (case skip_space cs of
               [] \<Rightarrow> None
             | d # ds \<Rightarrow>
                 if d = CHR ''}'' then Some (JObj [], ds)
                 else map_option (\<lambda>(kvs, r). (JObj (foldl (\<lambda>m (k, v). AList.update k v m) [] kvs), r))
                   (json_members n (d # ds)))
          else case json_word s of
            Some r \<Rightarrow> Some r
          | None \<Rightarrow> json_number s)"
| "json_items 0 s = None"
| "json_items (Suc n) s =
     (case json_value n s of
        None \<Rightarrow> None
      | Some (v, r) \<Rightarrow>
          (case skip_space r of
             [] \<Rightarrow> None
           | c # cs \<Rightarrow>
               if c = CHR '']'' then Some ([v], cs)
               else if c = CHR '','' then
                 map_option (\<lambda>(vs, r). (v # vs, r)) (json_items n (skip_space cs))
               else None))"
| "json_members 0 s = None"
| "json_members (Suc n) s =
     (case s of
        [] \<Rightarrow> None
      | q # cs \<Rightarrow>
          if q \<noteq> CHR 0x22 then None
          else case json_string cs of
            None \<Rightarrow> None
          | Some (k, r) \<Rightarrow>
              (case skip_space r of
                 [] \<Rightarrow> None
               | colon # ds \<Rightarrow>
                   if colon \<noteq> CHR '':'' then None
                   else case json_value n (skip_space ds) of
                     None \<Rightarrow> None
                   | Some (v, r) \<Rightarrow>
                       (case skip_space r of
                          [] \<Rightarrow> None
                        | c # es \<Rightarrow>
                            if c = CHR ''}'' then Some ([(k, v)], es)
                            else if c = CHR '','' then
                              map_option (\<lambda>(kvs, r). ((k, v) # kvs, r)) (json_members n (skip_space es))
                            else None)))"

definition json_loads :: "string \<Rightarrow> json result" where
  "json_loads s =
     (case json_value (2 * length s + 2) (skip_space s) of
        None \<Rightarrow> Inl ValueError
      | Some (v, rest) \<Rightarrow> if skip_space rest = [] then Inr v else Inl ValueError)"

subsection \<open>The fuel is enough\<close>

lemma skip_space_length: "length (skip_space s) \<le> length s"
  by (simp add: skip_space_def length_dropWhile_le)

lemma skip_space_Cons: "skip_space s = c # cs \<Longrightarrow> length cs < length s"
  using skip_space_length [of s] by simp

lemma json_string_length: "json_string s = Some (t, r) \<Longrightarrow> length r < length s"
proof (induction s arbitrary: t r rule: json_string.induct)
  case (2 c cs)
  show ?case
  proof (cases "c = CHR 0x5C \<and> c \<noteq> CHR 0x22")
    case True
    then obtain x rest u where un: "json_unescape cs = Some (x, rest)" and "json_string rest = Some (u, r)"
      using 2 by (auto split: option.splits)
    from 2(1) [of "(x, rest)" x rest u r] un True this(2) have "length r < length rest" by auto
    then show ?thesis using json_unescape_length [OF un] by simp
  next
    case False
    then show ?thesis using 2 by (fastforce split: if_splits)
  qed
qed simp

lemma json_word_length: "json_word s = Some (v, r) \<Longrightarrow> length r < length s"
  by (auto simp: json_word_def json_words_def py_startswith_iff split: option.splits if_splits)

lemma json_fraction_length: "json_fraction s = (f, r) \<Longrightarrow> length r \<le> length s"
  using length_dropWhile_le [of is_digit "drop 1 s"] by (auto simp: json_fraction_def split: if_splits)

lemma json_exponent_length: "json_exponent s = (e, r) \<Longrightarrow> length r \<le> length s"
proof -
  assume *: "json_exponent s = (e, r)"
  let ?u = "if tl s \<noteq> [] \<and> hd (tl s) \<in> {CHR ''+'', CHR ''-''} then tl (tl s) else tl s"
  have "r = s \<or> r = dropWhile is_digit ?u"
    using * unfolding json_exponent_def Let_def by (simp only: split: if_splits) auto
  then show ?thesis
    using length_dropWhile_le [of is_digit ?u] by (auto split: if_splits)
qed

lemma json_number_length: "json_number s = Some (v, r) \<Longrightarrow> length r < length s"
proof -
  assume *: "json_number s = Some (v, r)"
  define u where "u = (if take 1 s = ''-'' then drop 1 s else s)"
  define w where "w = (if take 1 u = ''0'' then ''0'' else takeWhile is_digit u)"
  obtain f r1 where fr: "json_fraction (drop (length w) u) = (f, r1)" by fastforce
  obtain e r2 where er: "json_exponent r1 = (e, r2)" by fastforce
  have "json_number s = (if w = [] then None
      else Some (if f = [] \<and> e = None
        then JInt ((if take 1 s = ''-'' then - 1 else 1) * digits_value 0 w)
        else JFloat ((if take 1 s = ''-'' then - 1 else 1) * digits_value 0 (w @ f))
               ((case e of None \<Rightarrow> 0 | Some e \<Rightarrow> e) - int (length f)), r2))"
    unfolding json_number_def Let_def u_def [symmetric] w_def [symmetric] fr prod.case er ..
  with * have "w \<noteq> []" "r = r2" by (auto split: if_splits)
  from \<open>w \<noteq> []\<close> have "length (drop (length w) u) < length u"
    by (cases u) (auto simp: w_def)
  moreover have "length u \<le> length s" by (simp add: u_def)
  ultimately show ?thesis
    using json_fraction_length [OF fr] json_exponent_length [OF er] unfolding \<open>r = r2\<close> by linarith
qed

text \<open>Each reader consumes at least one character.\<close>

text \<open>One step of each reader leaves less than it was given, when those it calls do.\<close>

lemma json_value_length:
  assumes items: "\<And>t vs r. json_items n t = Some (vs, r) \<Longrightarrow> length r < length t"
    and members: "\<And>t kvs r. json_members n t = Some (kvs, r) \<Longrightarrow> length r < length t"
    and read: "json_value (Suc n) s = Some (v, r)"
  shows "length r < length s"
proof (cases s)
  case (Cons c cs)
  consider (str) "c = CHR 0x22" | (arr) "c = CHR ''[''" | (obj) "c = CHR ''{''"
    | (other) "c \<noteq> CHR 0x22" "c \<noteq> CHR ''[''" "c \<noteq> CHR ''{''" by blast
  then show ?thesis
  proof cases
    case str
    with read Cons show ?thesis by (auto dest: json_string_length)
  next
    case arr
    with read Cons show ?thesis
      by (fastforce split: list.splits if_splits dest: skip_space_Cons items)
  next
    case obj
    with read Cons show ?thesis
      by (fastforce split: list.splits if_splits dest: skip_space_Cons members)
  next
    case other
    with read Cons show ?thesis
      by (auto split: option.splits dest: json_word_length json_number_length)
  qed
qed (use read in simp)

lemma json_items_length:
  assumes "\<And>t v r. json_value n t = Some (v, r) \<Longrightarrow> length r < length t"
    and "\<And>t vs r. json_items n t = Some (vs, r) \<Longrightarrow> length r < length t"
    and "json_items (Suc n) s = Some (vs, r)"
  shows "length r < length s"
proof -
  obtain v r1 c cs where v: "json_value n s = Some (v, r1)" and r1: "skip_space r1 = c # cs"
    and rest: "r = cs \<or> (\<exists>ws. json_items n (skip_space cs) = Some (ws, r))"
    using assms(3) by (auto split: option.splits list.splits if_splits)
  have "length r1 < length s" by (rule assms(1) [OF v])
  moreover have "length cs < length r1" by (rule skip_space_Cons [OF r1])
  moreover have "length r \<le> length cs" using rest assms(2) skip_space_length [of cs] by fastforce
  ultimately show ?thesis by linarith
qed

lemma json_members_length:
  assumes "\<And>t v r. json_value n t = Some (v, r) \<Longrightarrow> length r < length t"
    and "\<And>t kvs r. json_members n t = Some (kvs, r) \<Longrightarrow> length r < length t"
    and "json_members (Suc n) s = Some (kvs, r)"
  shows "length r < length s"
proof -
  obtain cs k r1 ds v r2 c es where s: "s = CHR 0x22 # cs" and k: "json_string cs = Some (k, r1)"
    and r1: "skip_space r1 = CHR '':'' # ds" and v: "json_value n (skip_space ds) = Some (v, r2)"
    and r2: "skip_space r2 = c # es" and rest: "r = es \<or> (\<exists>ws. json_members n (skip_space es) = Some (ws, r))"
    using assms(3) by (auto split: option.splits list.splits if_splits)
  have "length r1 < length cs" by (rule json_string_length [OF k])
  moreover have "length ds < length r1" by (rule skip_space_Cons [OF r1])
  moreover have "length r2 < length (skip_space ds)" by (rule assms(1) [OF v])
  moreover have "length es < length r2" by (rule skip_space_Cons [OF r2])
  moreover have "length r \<le> length es" using rest assms(2) skip_space_length [of es] by fastforce
  ultimately show ?thesis using s skip_space_length [of ds] by simp
qed

lemma json_reader_length:
  shows "json_value n s = Some (v, r) \<Longrightarrow> length r < length s"
    and "json_items n s = Some (vs, r) \<Longrightarrow> length r < length s"
    and "json_members n s = Some (kvs, r) \<Longrightarrow> length r < length s"
proof (induction n arbitrary: s v vs kvs r)
  case (Suc n)
  { case 1 show ?case by (rule json_value_length [OF Suc.IH(2,3) 1]) }
  { case 2 show ?case by (rule json_items_length [OF Suc.IH(1,2) 2]) }
  { case 3 show ?case by (rule json_members_length [OF Suc.IH(1,3) 3]) }
qed simp_all

text \<open>One step of each reader is the same with more fuel, when those it calls are.\<close>

lemma json_value_more_fuel:
  assumes "\<And>t. length t < length s \<Longrightarrow> json_items (Suc n) t = json_items n t"
    and "\<And>t. length t < length s \<Longrightarrow> json_members (Suc n) t = json_members n t"
  shows "json_value (Suc (Suc n)) s = json_value (Suc n) s"
proof (cases s)
  case (Cons c cs)
  show ?thesis
  proof (cases "skip_space cs")
    case Nil
    show ?thesis
      unfolding json_value.simps(2) [of "Suc n"] json_value.simps(2) [of n] Cons list.case Nil ..
  next
    case d: (Cons d ds)
    then have "json_items (Suc n) (d # ds) = json_items n (d # ds)" "json_members (Suc n) (d # ds) = json_members n (d # ds)"
      using assms [of "d # ds"] Cons skip_space_length [of cs] by simp_all
    then show ?thesis
      unfolding json_value.simps(2) [of "Suc n"] json_value.simps(2) [of n] Cons list.case d
      by (simp only:)
  qed
qed simp

lemma json_items_more_fuel:
  assumes v: "json_value (Suc n) s = json_value n s"
    and items: "\<And>t. length t < length s \<Longrightarrow> json_items (Suc n) t = json_items n t"
  shows "json_items (Suc (Suc n)) s = json_items (Suc n) s"
proof (cases "json_value n s")
  case None
  then show ?thesis
    unfolding json_items.simps(2) [of "Suc n"] json_items.simps(2) [of n] v by simp
next
  case (Some p)
  then obtain x r where vr: "json_value n s = Some (x, r)" by (cases p) auto
  show ?thesis
  proof (cases "skip_space r")
    case (Cons c cs)
    have "json_items (Suc n) (skip_space cs) = json_items n (skip_space cs)"
      using skip_space_length [of cs] skip_space_Cons [OF Cons] json_reader_length(1) [OF vr] by (intro items) linarith
    then show ?thesis
      unfolding json_items.simps(2) [of "Suc n"] json_items.simps(2) [of n] v vr
      by (simp only: option.case prod.case Cons list.case)
  next
    case Nil
    then show ?thesis
      unfolding json_items.simps(2) [of "Suc n"] json_items.simps(2) [of n] v vr by simp
  qed
qed

text \<open>A member is a key, a colon and a value; what is none is refused.\<close>

lemma json_members_step:
  obtains (member) k ds where "length (skip_space ds) < length s"
    and "\<And>m. json_members (Suc m) s = (case json_value m (skip_space ds) of None \<Rightarrow> None
      | Some (v, r) \<Rightarrow> (case skip_space r of [] \<Rightarrow> None
          | c # es \<Rightarrow> if c = CHR ''}'' then Some ([(k, v)], es)
              else if c = CHR '','' then map_option (\<lambda>(kvs, r). ((k, v) # kvs, r)) (json_members m (skip_space es))
              else None))"
  | (none) "\<And>m. json_members (Suc m) s = None"
proof (cases "\<exists>cs k r1 ds. s = CHR 0x22 # cs \<and> json_string cs = Some (k, r1) \<and> skip_space r1 = CHR '':'' # ds")
  case True
  then obtain cs k r1 ds where s: "s = CHR 0x22 # cs" and k: "json_string cs = Some (k, r1)"
    and r1: "skip_space r1 = CHR '':'' # ds" by blast
  have "length (skip_space ds) < length s"
    using json_string_length [OF k] skip_space_Cons [OF r1] skip_space_length [of ds] s by simp
  then show thesis by (rule member) (simp add: s k r1)
next
  case False
  then have "json_members (Suc m) s = None" for m
    by (auto split: list.split option.split)
  then show thesis by (rule none)
qed

lemma json_members_more_fuel:
  assumes "\<And>t. length t < length s \<Longrightarrow> json_value (Suc n) t = json_value n t"
    and members: "\<And>t. length t < length s \<Longrightarrow> json_members (Suc n) t = json_members n t"
  shows "json_members (Suc (Suc n)) s = json_members (Suc n) s"
proof (cases s rule: json_members_step)
  case (member k ds)
  note v = assms(1) [OF member(1)] and step = member(2)
  show ?thesis
  proof (cases "json_value n (skip_space ds)")
    case None
    then show ?thesis unfolding step v by simp
  next
    case (Some p)
    then obtain x r where vr: "json_value n (skip_space ds) = Some (x, r)" by (cases p) auto
    show ?thesis
    proof (cases "skip_space r")
      case (Cons c es)
      have "json_members (Suc n) (skip_space es) = json_members n (skip_space es)"
        using skip_space_length [of es] skip_space_Cons [OF Cons] json_reader_length(1) [OF vr] member(1)
        by (intro members) linarith
      then show ?thesis unfolding step v vr by (simp only: option.case prod.case Cons list.case)
    next
      case Nil
      then show ?thesis unfolding step v vr by simp
    qed
  qed
next
  case none
  then show ?thesis by simp
qed

lemma json_reader_fuel:
  shows "2 * length s + 1 \<le> n \<Longrightarrow> json_value (Suc n) s = json_value n s"
    and "2 * length s + 2 \<le> n \<Longrightarrow> json_items (Suc n) s = json_items n s"
    and "2 * length s + 2 \<le> n \<Longrightarrow> json_members (Suc n) s = json_members n s"
proof (induction n arbitrary: s)
  case (Suc n)
  { case 1 then show ?case by (intro json_value_more_fuel Suc.IH(2,3)) linarith+ }
  { case 2 then show ?case by (intro json_items_more_fuel Suc.IH(1,2)) linarith+ }
  { case 3 then show ?case by (intro json_members_more_fuel Suc.IH(1,3)) linarith+ }
qed simp_all

lemma json_value_fuel:
  assumes "2 * length s + 1 \<le> n"
  shows "json_value n s = json_value (2 * length s + 1) s"
  using assms
proof (induction n rule: dec_induct)
  case (step n)
  then show ?case using json_reader_fuel(1) [of s n] by simp
qed simp

lemma json_value_Suc_fuel:
  assumes "2 * length s + 1 \<le> n"
  shows "json_value (2 * length s + 1 + m) s = json_value n s"
  using json_value_fuel [OF assms] json_value_fuel [of s "2 * length s + 1 + m"] by simp

text \<open>No amount of extra fuel changes what \<open>json.loads\<close> gives.\<close>

theorem json_loads_fuel:
  assumes "2 * length s + 1 \<le> n"
  shows "json_loads s =
    (case json_value n (skip_space s) of
       None \<Rightarrow> Inl ValueError
     | Some (v, rest) \<Rightarrow> if skip_space rest = [] then Inr v else Inl ValueError)"
  using assms skip_space_length [of s]
    json_value_fuel [of "skip_space s" n] json_value_fuel [of "skip_space s" "2 * length s + 2"]
  by (simp add: json_loads_def)

subsection \<open>Reading what was written\<close>

lemma json_string_plain:
  assumes "list_all json_plain s"
  shows "json_string (s @ CHR 0x22 # rest) = Some (s, rest)"
  using assms by (induction s) (auto simp: json_plain_def Let_def)

lemma json_quote_plain: "list_all json_plain s \<Longrightarrow> json_quote s = [CHR 0x22] @ s @ [CHR 0x22]"
proof -
  assume "list_all json_plain s"
  then have "concat (map json_escape s) = s" by (induction s) (auto simp: json_escape_def)
  then show ?thesis by (simp add: json_quote_def)
qed

lemma json_value_plain:
  assumes "list_all json_plain s" and "0 < n"
  shows "json_value n (json_quote s @ rest) = Some (JStr s, rest)"
  using assms by (cases n) (simp_all add: json_quote_plain json_string_plain)

lemma skip_space_plain [simp]:
  "skip_space (CHR 0x22 # s) = CHR 0x22 # s" "skip_space (CHR '' '' # s) = skip_space s"
  "skip_space (CHR '':'' # s) = CHR '':'' # s" "skip_space (CHR '','' # s) = CHR '','' # s"
  "skip_space (CHR ''}'' # s) = CHR ''}'' # s" "skip_space (CHR ''{'' # s) = CHR ''{'' # s"
  "skip_space [] = []"
  by (simp_all add: skip_space_def json_space_def)

text \<open>A dict of two plain strings.\<close>

theorem json_loads_dumps_pair:
  assumes plain: "list_all json_plain k" "list_all json_plain v" "list_all json_plain k'"
    "list_all json_plain v'" and "k \<noteq> k'"
  shows "json_loads (json_dumps [(k, v), (k', v')]) = Inr (JObj [(k, JStr v), (k', JStr v')])"
proof -
  let ?q = "CHR 0x22"
  let ?members = "json_quote k @ '': '' @ json_quote v @ '', '' @ json_quote k' @ '': '' @ json_quote v' @ ''}''"
  have dumps: "json_dumps [(k, v), (k', v')] = CHR ''{'' # ?members"
    by (simp add: json_dumps_def)
  have quote: "json_quote s @ rest = ?q # s @ ?q # rest" if "list_all json_plain s" for s rest
    using that by (simp add: json_quote_plain)
  have last: "json_members (Suc (Suc n)) (json_quote k' @ '': '' @ json_quote v' @ ''}'') =
      Some ([(k', JStr v')], [])" for n
    using json_value_plain [OF plain(4), of "Suc n" "''}''"] plain
    by (simp add: quote json_string_plain del: json_value.simps)
  have "json_members (Suc (Suc (Suc n))) ?members = Some ([(k, JStr v), (k', JStr v')], [])" for n
    using json_value_plain [OF plain(2), of "Suc (Suc n)"] last [of n] plain
    by (simp add: quote json_string_plain del: json_value.simps json_members.simps
        add: json_members.simps(2) [of "Suc (Suc n)"])
  then have "json_value (Suc (Suc (Suc (Suc n)))) (CHR ''{'' # ?members) =
      Some (JObj [(k, JStr v), (k', JStr v')], [])" for n
    using \<open>k \<noteq> k'\<close> plain by (simp add: quote del: json_members.simps)
  moreover have "2 * length (CHR ''{'' # ?members) + 2 = Suc (Suc (Suc (Suc (2 * length ?members))))"
    by simp
  ultimately show ?thesis
    unfolding json_loads_def dumps by (simp del: json_value.simps)
qed

end
