(* ===== verification/JsonWrite.thy ===== *)
theory JsonWrite
  imports JsonText
begin

section \<open>json.dumps of any event\<close>

text \<open>
  The writer with compact separators, as the realtime backend and the log formatter call it.  A float
  is written the way Python's \<open>repr\<close> writes a number with those decimal digits: in positional notation
  from 0.0001 up to below 10 to the 16, in scientific notation outside.  Reading what was written gives
  the value back, for values without floats and whatever characters the strings have.
\<close>

function nat_str :: "nat \<Rightarrow> string" where
  "nat_str n = (if n < 10 then [dec_char (int n)] else nat_str (n div 10) @ [dec_char (int (n mod 10))])"
  by auto
termination by (relation "measure id") auto

declare nat_str.simps [simp del]

definition int_str :: "int \<Rightarrow> string" where
  "int_str i = (if i < 0 then ''-'' @ nat_str (nat (- i)) else nat_str (nat i))"

text \<open>The value is 0.\<open>digits\<close> times ten to the \<open>point\<close>, without zeros at the end.\<close>

definition float_digits :: "string \<Rightarrow> int \<Rightarrow> string" where
  "float_digits digits point =
     (let n = int (length digits) in
      if digits = [] then ''0.0''
      else if -4 < point \<and> point \<le> 0 then ''0.'' @ replicate (nat (- point)) CHR ''0'' @ digits
      else if 0 < point \<and> point < n \<and> point \<le> 16 then take (nat point) digits @ ''.'' @ drop (nat point) digits
      else if n \<le> point \<and> point \<le> 16 then digits @ replicate (nat (point - n)) CHR ''0'' @ ''.0''
      else
        let exponent = point - 1; size = nat_str (nat \<bar>exponent\<bar>)
        in hd digits # (if tl digits = [] then [] else ''.'' @ tl digits) @ ''e'' @
           (if exponent < 0 then ''-'' else ''+'') @ (if length size < 2 then ''0'' else []) @ size)"

definition float_str :: "int \<Rightarrow> int \<Rightarrow> string" where
  "float_str m e =
     (let digits = (if m = 0 then [] else nat_str (nat \<bar>m\<bar>))
      in (if m < 0 then ''-'' else []) @
         float_digits (rev (dropWhile (\<lambda>c. c = CHR ''0'') (rev digits))) (int (length digits) + e))"

fun json_compact :: "json \<Rightarrow> string" where
  "json_compact JNull = ''null''"
| "json_compact (JBool b) = (if b then ''true'' else ''false'')"
| "json_compact (JInt i) = int_str i"
| "json_compact (JFloat m e) = float_str m e"
| "json_compact (JConst w) = w"
| "json_compact (JStr s) = json_quote s"
| "json_compact (JArr vs) = ''['' @ py_join '','' (map json_compact vs) @ '']''"
| "json_compact (JObj kvs) =
     ''{'' @ py_join '','' (map (\<lambda>(k, v). json_quote k @ '':'' @ json_compact v) kvs) @ ''}''"

text \<open>What can be read back: no floats, and objects whose keys differ, as a dict's do.\<close>

fun writable :: "json \<Rightarrow> bool" where
  "writable (JFloat m e) = False"
| "writable (JConst w) = False"
| "writable (JArr vs) = (\<forall>v \<in> set vs. writable v)"
| "writable (JObj kvs) = (distinct (map fst kvs) \<and> (\<forall>p \<in> set kvs. writable (snd p)))"
| "writable _ = True"

lemma float_examples:
  "map (\<lambda>(m, e). float_str m e) [(1500, -3), (12345, -3), (3000, -3), (5, -4), (-5, -5), (1, 16), (25, 14), (0, 0)] =
    [''1.5'', ''12.345'', ''3.0'', ''0.0005'', ''-5e-05'', ''1e+16'', ''2500000000000000.0'', ''0.0'']"
  by (simp add: float_str_def float_digits_def nat_str.simps dec_char_def) (simp add: numeral_eq_Suc)

subsection \<open>Strings\<close>

lemma hex4_written:
  assumes "0 \<le> n" and "n < 65536"
  shows "hex4 (map hex_char (to_base 16 4 n) @ rest) = Some (n, rest)"
proof -
  have range: "0 \<le> d \<and> d < 16" if "d \<in> set (to_base 16 4 n)" for d
    using to_base_range [of 16 d 4 n] that by simp
  obtain a b c d where l: "to_base 16 4 n = [a, b, c, d]"
    by (simp add: numeral_eq_Suc)
  have "hex_value (hex_char x) = Some x" if "x \<in> {a, b, c, d}" for x
    using range [of x] that hex_char_cases(1) unfolding l by auto
  moreover have "of_base 16 0 [a, b, c, d] = n"
    using of_to_base [of 16 4 n] assms unfolding l by simp
  ultimately show ?thesis unfolding l by (simp add: hex4_def algebra_simps)
qed

lemma json_string_escape:
  "json_string (json_escape c @ rest) = map_option (\<lambda>(s, r). (c # s, r)) (json_string rest)"
proof (cases "json_plain c \<or> c \<in> set [CHR 0x22, CHR 0x5C, CHR 0x0A, CHR 0x0D, CHR 0x09, CHR 0x0C, CHR 0x08]")
  case True
  then show ?thesis by (auto simp: json_escape_def json_plain_def json_unescape_def Let_def)
next
  case False
  have n: "0 \<le> (of_char c :: int)" "(of_char c :: int) < 256"
    by (auto simp: of_char_def)
  have "json_unescape (CHR ''u'' # map hex_char (to_base 16 4 (of_char c)) @ rest) =
      Some (code_char (of_char c), skip_low_surrogate (of_char c) rest)"
    using hex4_written [of "of_char c" rest] n by (simp add: json_unescape_def del: to_base.simps)
  also have "code_char (of_char c) = c" using n by (simp add: code_char_def)
  also have "skip_low_surrogate (of_char c) rest = rest" using n by (simp add: skip_low_surrogate_def)
  finally show ?thesis using False by (simp add: json_escape_def del: to_base.simps)
qed

lemma json_string_quoted: "json_string (concat (map json_escape s) @ CHR 0x22 # rest) = Some (s, rest)"
  by (induction s) (simp_all add: json_string_escape)

subsection \<open>Numbers\<close>

lemma dec_char_facts:
  assumes "0 \<le> d" and "d < 10"
  shows "dec_value (dec_char d) = Some d" and "is_digit (dec_char d)"
    and "dec_char d = CHR ''0'' \<longleftrightarrow> d = 0"
    and "dec_char d \<notin> set ''-ntfNI[{]},:'' \<and> dec_char d \<noteq> CHR 0x22 \<and> \<not> json_space (dec_char d)"
proof -
  have "\<forall>d \<in> set [0..9]. dec_value (dec_char d) = Some d \<and> (dec_char d = CHR ''0'' \<longleftrightarrow> d = 0) \<and>
      dec_char d \<notin> set ''-ntfNI[{]},:'' \<and> dec_char d \<noteq> CHR 0x22 \<and> \<not> json_space (dec_char d)"
    by code_simp
  moreover have "d \<in> set [0..9]" using assms by simp
  ultimately show "dec_value (dec_char d) = Some d" "is_digit (dec_char d)" "dec_char d = CHR ''0'' \<longleftrightarrow> d = 0"
    "dec_char d \<notin> set ''-ntfNI[{]},:'' \<and> dec_char d \<noteq> CHR 0x22 \<and> \<not> json_space (dec_char d)"
    by (auto simp: is_digit_def)
qed

lemma nat_str_step: "10 \<le> n \<Longrightarrow> nat_str n = nat_str (n div 10) @ [dec_char (int (n mod 10))]"
  and nat_str_digit: "n < 10 \<Longrightarrow> nat_str n = [dec_char (int n)]"
  by (subst nat_str.simps, simp)+

lemma nat_str_nonempty: "nat_str n \<noteq> []"
  by (subst nat_str.simps) simp

lemma digits_value_snoc:
  "digits_value acc (s @ [c]) = 10 * digits_value acc s + (case dec_value c of None \<Rightarrow> 0 | Some d \<Rightarrow> d)"
  by (induction s arbitrary: acc) auto

lemma digits_value_nat_str: "digits_value acc (nat_str n) = acc * 10 ^ length (nat_str n) + int n"
proof (induction n rule: nat_str.induct)
  case (1 n)
  show ?case
  proof (cases "n < 10")
    case True
    then show ?thesis by (simp add: nat_str_digit dec_char_facts(1))
  next
    case False
    have "dec_value (dec_char (int (n mod 10))) = Some (int (n mod 10))" by (rule dec_char_facts(1)) auto
    moreover have "int n = 10 * int (n div 10) + int (n mod 10)" using div_mult_mod_eq [of n 10] by linarith
    ultimately show ?thesis using 1 [OF False] False by (simp add: nat_str_step digits_value_snoc algebra_simps)
  qed
qed

lemma nat_str_hd:
  "hd (nat_str n) \<notin> set ''-ntfNI[{]},:'' \<and> hd (nat_str n) \<noteq> CHR 0x22 \<and> \<not> json_space (hd (nat_str n))"
proof (induction n rule: nat_str.induct)
  case (1 n)
  then show ?case
    using dec_char_facts(4) [of "int n"] by (cases "n < 10") (simp_all add: nat_str_digit nat_str_step nat_str_nonempty)
qed

lemma nat_str_facts:
  shows "list_all is_digit (nat_str n)" and "nat_str n \<noteq> []" and "digits_value acc (nat_str n) = acc * 10 ^ length (nat_str n) + int n"
    and "hd (nat_str n) = CHR ''0'' \<Longrightarrow> n = 0"
    and "hd (nat_str n) \<notin> set ''-ntfNI[{]},:'' \<and> hd (nat_str n) \<noteq> CHR 0x22 \<and> \<not> json_space (hd (nat_str n))"
proof -
  show "list_all is_digit (nat_str n)"
    by (induction n rule: nat_str.induct) (subst nat_str.simps, simp add: dec_char_facts(2))
  show "n = 0" if "hd (nat_str n) = CHR ''0''"
    using that
  proof (induction n rule: nat_str.induct)
    case (1 n)
    then show ?case
      by (cases "n < 10") (auto simp: nat_str_digit nat_str_step nat_str_nonempty dec_char_facts(3))
  qed
qed (rule nat_str_nonempty digits_value_nat_str nat_str_hd)+

definition ends_value :: "string \<Rightarrow> bool" where
  "ends_value rest \<longleftrightarrow> rest = [] \<or> hd rest \<in> set '',]}''"

lemma ends_value_number:
  assumes "ends_value rest"
  shows "json_fraction rest = ([], rest)" and "json_exponent rest = (None, rest)" and "takeWhile is_digit rest = []"
  using assms by (cases rest; auto simp: ends_value_def json_fraction_def json_exponent_def is_digit_def dec_value_def)+

lemma takeWhile_digits: "ends_value rest \<Longrightarrow> takeWhile is_digit (nat_str n @ rest) = nat_str n"
  using nat_str_facts(1) [of n] ends_value_number(3) [of rest]
  by (simp add: list_all_iff takeWhile_append)

lemma json_number_nat:
  assumes "ends_value rest" and t_def: "t = nat_str n @ rest"
  shows "(if take 1 t = ''0'' then ''0'' else takeWhile is_digit t) = nat_str n"
    and "digits_value 0 (nat_str n) = int n"
proof -
  show "digits_value 0 (nat_str n) = int n" using nat_str_facts(3) [of 0 n] by simp
  have ne: "nat_str n \<noteq> []" by (rule nat_str_facts(2))
  show "(if take 1 t = ''0'' then ''0'' else takeWhile is_digit t) = nat_str n"
  proof (cases "take 1 t = ''0''")
    case True
    then have "hd (nat_str n) = CHR ''0''" using ne by (cases "nat_str n") (auto simp: t_def)
    then have "n = 0" by (rule nat_str_facts(4))
    moreover have "nat_str 0 = ''0''" by (simp add: nat_str.simps [of 0] dec_char_def)
    ultimately show ?thesis using True by simp
  next
    case False
    then show ?thesis using takeWhile_digits [OF assms(1)] by (simp add: t_def)
  qed
qed

lemma int_str_hd:
  "int_str i \<noteq> [] \<and> hd (int_str i) \<notin> set ''ntfNI[{]},:'' \<and> hd (int_str i) \<noteq> CHR 0x22 \<and> \<not> json_space (hd (int_str i))"
  using nat_str_facts(2,5) [of "nat i"] by (simp add: int_str_def json_space_def)

lemma json_number_signed:
  assumes "ends_value rest" and "t = nat_str n @ rest" and "u = (if neg then CHR ''-'' # t else t)"
    and "take 1 u = ''-'' \<longleftrightarrow> neg"
  shows "json_number u = Some (JInt ((if neg then - 1 else 1) * int n), rest)"
proof -
  note w = json_number_nat [OF assms(1,2)] nat_str_facts(2) [of n]
  have "(if take 1 u = ''-'' then drop 1 u else u) = t" using assms(3,4) by auto
  moreover have "drop (length (nat_str n)) t = rest" using assms(2) by simp
  ultimately show ?thesis
    unfolding json_number_def Let_def assms(4)
    by (simp only: w if_False ends_value_number [OF assms(1)] prod.case simp_thms if_True
        assms(4) list.size append_Nil2 option.simps)
qed

lemma json_number_written:
  assumes "ends_value rest"
  shows "json_number (int_str i @ rest) = Some (JInt i, rest)"
proof (cases "i < 0")
  case True
  then show ?thesis
    using json_number_signed [OF assms refl refl, where n = "nat (- i)" and neg = True] by (simp add: int_str_def)
next
  case False
  have "take 1 (nat_str (nat i) @ rest) \<noteq> ''-''"
    using nat_str_facts(2,5) [of "nat i"] by (cases "nat_str (nat i)") auto
  then show ?thesis
    using False json_number_signed [OF assms refl refl, where n = "nat i" and neg = False] by (simp add: int_str_def)
qed

subsection \<open>Values\<close>

fun value_fuel :: "json \<Rightarrow> nat" where
  "value_fuel (JArr vs) = Suc (Suc (sum_list (map (\<lambda>v. Suc (value_fuel v)) vs)))"
| "value_fuel (JObj kvs) = Suc (Suc (sum_list (map (\<lambda>(k, v). Suc (value_fuel v)) kvs)))"
| "value_fuel _ = 1"

lemma compact_hd:
  assumes "writable v"
  shows "json_compact v \<noteq> [] \<and> \<not> json_space (hd (json_compact v)) \<and> hd (json_compact v) \<notin> set '']},:''"
  using assms int_str_hd
  by (cases v) (auto simp: json_quote_def json_space_def)

lemma skip_space_compact: "writable v \<Longrightarrow> skip_space (json_compact v @ rest) = json_compact v @ rest"
  using compact_hd [of v] by (cases "json_compact v") (auto simp: skip_space_def)

lemma skip_space_join:
  assumes "\<And>v. v \<in> set vs \<Longrightarrow> writable v" and "vs \<noteq> []"
  shows "skip_space (py_join '','' (map json_compact vs) @ rest) = py_join '','' (map json_compact vs) @ rest"
  using assms skip_space_compact by (cases vs rule: remdups_adj.cases) auto

lemma skip_space_bracket [simp]: "skip_space (CHR '']'' # s) = CHR '']'' # s"
  by (simp add: skip_space_def json_space_def)

lemma read_items:
  assumes "\<And>v n rest. v \<in> set vs \<Longrightarrow> value_fuel v \<le> n \<Longrightarrow> ends_value rest \<Longrightarrow> json_value n (json_compact v @ rest) = Some (v, rest)"
    and "\<And>v. v \<in> set vs \<Longrightarrow> writable v" and "vs \<noteq> []" and "sum_list (map (\<lambda>v. Suc (value_fuel v)) vs) \<le> n"
  shows "json_items n (py_join '','' (map json_compact vs) @ CHR '']'' # rest) = Some (vs, rest)"
  using assms
proof (induction vs arbitrary: n)
  case (Cons v ws)
  then obtain m where m: "n = Suc m" "value_fuel v \<le> m" "sum_list (map (\<lambda>v. Suc (value_fuel v)) ws) \<le> m"
    by (cases n) auto
  show ?case
  proof (cases ws)
    case Nil
    have "json_value m (json_compact v @ CHR '']'' # rest) = Some (v, CHR '']'' # rest)"
      using Cons.prems(1) m(2) by (simp add: ends_value_def)
    with Nil m show ?thesis by simp
  next
    case (Cons w us)
    let ?tail = "py_join '','' (map json_compact ws) @ CHR '']'' # rest"
    have "json_value m (json_compact v @ CHR '','' # ?tail) = Some (v, CHR '','' # ?tail)"
      using Cons.prems(1) m(2) by (simp add: ends_value_def)
    moreover have "skip_space ?tail = ?tail" using Cons.prems(2) Cons by (intro skip_space_join) auto
    moreover have "json_items m ?tail = Some (ws, rest)"
      using Cons.prems Cons m(3) by (intro Cons.IH) auto
    ultimately show ?thesis using Cons m by simp
  qed
qed simp

definition compact_member :: "string \<times> json \<Rightarrow> string" where
  "compact_member p = json_quote (fst p) @ '':'' @ json_compact (snd p)"

lemma read_members:
  assumes "\<And>p n rest. p \<in> set kvs \<Longrightarrow> value_fuel (snd p) \<le> n \<Longrightarrow> ends_value rest \<Longrightarrow>
      json_value n (json_compact (snd p) @ rest) = Some (snd p, rest)"
    and "\<And>p. p \<in> set kvs \<Longrightarrow> writable (snd p)" and "kvs \<noteq> []"
    and "sum_list (map (\<lambda>p. Suc (value_fuel (snd p))) kvs) \<le> n"
  shows "json_members n (py_join '','' (map compact_member kvs) @ CHR ''}'' # rest) = Some (kvs, rest)"
  using assms
proof (induction kvs arbitrary: n)
  case (Cons p ps)
  obtain k v where p: "p = (k, v)" by (cases p)
  obtain m where m: "n = Suc m" "value_fuel v \<le> m" "sum_list (map (\<lambda>p. Suc (value_fuel (snd p))) ps) \<le> m"
    using Cons.prems(4) p by (cases n) auto
  have key: "json_string (concat (map json_escape k) @ CHR 0x22 # CHR '':'' # s) = Some (k, CHR '':'' # s)" for s
    by (rule json_string_quoted)
  have val: "json_value m (json_compact v @ s) = Some (v, s)" if "ends_value s" for s
    using Cons.prems(1) [of p] m(2) that p by simp
  have sp: "skip_space (json_compact v @ s) = json_compact v @ s" for s
    using Cons.prems(2) [of p] p by (intro skip_space_compact) simp
  show ?case
  proof (cases ps)
    case Nil
    with m p key val [of "CHR ''}'' # rest"] sp show ?thesis
      by (simp add: compact_member_def json_quote_def ends_value_def)
  next
    case (Cons q qs)
    define tail where "tail = py_join '','' (map compact_member ps) @ CHR ''}'' # rest"
    have "skip_space tail = tail"
      unfolding tail_def using Cons by (cases qs) (auto simp: compact_member_def json_quote_def)
    moreover have "json_members m tail = Some (ps, rest)"
      unfolding tail_def using Cons.prems Cons m(3) by (intro Cons.IH) auto
    moreover have "json_value m (json_compact v @ CHR '','' # tail) = Some (v, CHR '','' # tail)"
      by (rule val) (simp add: ends_value_def)
    moreover have "compact_member (k, v) = CHR 0x22 # concat (map json_escape k) @ CHR 0x22 # CHR '':'' # json_compact v"
      by (simp add: compact_member_def json_quote_def)
    then have "py_join '','' (map compact_member (p # ps)) @ CHR ''}'' # rest =
        CHR 0x22 # concat (map json_escape k) @ CHR 0x22 # CHR '':'' # json_compact v @ CHR '','' # tail"
      using Cons by (simp add: tail_def p)
    ultimately show ?thesis using m(1) p key sp by simp
  qed
qed simp

lemma update_new: "k \<notin> fst ` set m \<Longrightarrow> AList.update k v m = m @ [(k, v)]"
  by (induction m) auto

lemma foldl_update_distinct:
  "distinct (map fst (acc @ kvs)) \<Longrightarrow> foldl (\<lambda>m (k, v). AList.update k v m) acc kvs = acc @ kvs"
proof (induction kvs arbitrary: acc)
  case (Cons p kvs)
  obtain k v where p: "p = (k, v)" by (cases p)
  have "AList.update k v acc = acc @ [(k, v)]"
    using Cons.prems p by (intro update_new) auto
  moreover have "foldl (\<lambda>m (k, v). AList.update k v m) (acc @ [(k, v)]) kvs = (acc @ [(k, v)]) @ kvs"
    using Cons.prems p by (intro Cons.IH) auto
  ultimately show ?case using p by simp
qed simp

lemma json_word_other: "s \<noteq> [] \<Longrightarrow> hd s \<notin> set ''ntfNI-'' \<Longrightarrow> json_word s = None"
  by (cases s) (auto simp: json_word_def json_words_def py_startswith_def)

lemma json_word_int: "json_word (int_str i @ rest) = None"
proof (cases "i < 0")
  case True
  obtain c cs where "nat_str (nat (- i)) = c # cs" "c \<noteq> CHR ''I''"
    using nat_str_facts(2,5) [of "nat (- i)"] by (cases "nat_str (nat (- i))") auto
  then show ?thesis
    using True by (simp add: int_str_def json_word_def json_words_def py_startswith_def)
next
  case False
  then show ?thesis
    using nat_str_facts(2,5) [of "nat i"] by (intro json_word_other) (auto simp: int_str_def)
qed

text \<open>An array and an object, once their parts are read back.\<close>

lemma read_array:
  assumes "\<And>v n rest. v \<in> set vs \<Longrightarrow> value_fuel v \<le> n \<Longrightarrow> ends_value rest \<Longrightarrow> json_value n (json_compact v @ rest) = Some (v, rest)"
    and "writable (JArr vs)" and "value_fuel (JArr vs) \<le> n"
  shows "json_value n (json_compact (JArr vs) @ rest) = Some (JArr vs, rest)"
proof -
  obtain m where m: "n = Suc m" "sum_list (map (\<lambda>v. Suc (value_fuel v)) vs) \<le> m" using assms(3) by (cases n) auto
  show ?thesis
  proof (cases vs)
    case Nil
    with m show ?thesis by simp
  next
    case (Cons v ws)
    let ?items = "py_join '','' (map json_compact vs) @ CHR '']'' # rest"
    have "json_items m ?items = Some (vs, rest)"
      using assms(1,2) Cons m(2) by (intro read_items) auto
    moreover have "skip_space ?items = ?items" using assms(2) Cons by (intro skip_space_join) auto
    moreover obtain c cs where "?items = c # cs" "c \<noteq> CHR '']''"
    proof -
      have "json_compact v \<noteq> [] \<and> hd (json_compact v) \<noteq> CHR '']''"
        using assms(2) Cons compact_hd [of v] by simp
      then obtain c cs where "json_compact v = c # cs" "c \<noteq> CHR '']''" by (cases "json_compact v") auto
      with Cons that show thesis by (cases ws) auto
    qed
    ultimately show ?thesis using m by simp
  qed
qed

lemma compact_object: "json_compact (JObj kvs) = ''{'' @ py_join '','' (map compact_member kvs) @ ''}''"
proof -
  have "(\<lambda>(k, v). json_quote k @ '':'' @ json_compact v) = compact_member"
    by (simp add: fun_eq_iff compact_member_def)
  then show ?thesis by simp
qed

lemma object_fuel: "value_fuel (JObj kvs) = Suc (Suc (sum_list (map (\<lambda>p. Suc (value_fuel (snd p))) kvs)))"
proof -
  have "(\<lambda>(k :: string, v). Suc (value_fuel v)) = (\<lambda>p. Suc (value_fuel (snd p)))" by (simp add: fun_eq_iff)
  then show ?thesis by simp
qed

lemma read_object:
  assumes "\<And>p n rest. p \<in> set kvs \<Longrightarrow> value_fuel (snd p) \<le> n \<Longrightarrow> ends_value rest \<Longrightarrow>
      json_value n (json_compact (snd p) @ rest) = Some (snd p, rest)"
    and "writable (JObj kvs)" and "value_fuel (JObj kvs) \<le> n"
  shows "json_value n (json_compact (JObj kvs) @ rest) = Some (JObj kvs, rest)"
proof -
  obtain m where m: "n = Suc m" "sum_list (map (\<lambda>p. Suc (value_fuel (snd p))) kvs) \<le> m"
    using assms(3) unfolding object_fuel by (cases n) auto
  show ?thesis
  proof (cases kvs)
    case Nil
    with m show ?thesis by simp
  next
    case (Cons p ps)
    let ?ms = "py_join '','' (map compact_member kvs) @ CHR ''}'' # rest"
    have "json_members m ?ms = Some (kvs, rest)"
      using assms(1,2) Cons m(2) by (intro read_members) auto
    moreover obtain cs where "?ms = CHR 0x22 # cs"
      using Cons by (cases ps) (auto simp: compact_member_def json_quote_def)
    moreover have "foldl (\<lambda>m (k, v). AList.update k v m) [] kvs = kvs"
      using foldl_update_distinct [of "[]" kvs] assms(2) by simp
    ultimately show ?thesis using m(1) by (simp add: compact_object del: json_compact.simps)
  qed
qed

lemma read_written:
  "writable v \<Longrightarrow> value_fuel v \<le> n \<Longrightarrow> ends_value rest \<Longrightarrow> json_value n (json_compact v @ rest) = Some (v, rest)"
proof (induction v arbitrary: n rest)
  case (JInt i)
  then obtain m where m: "n = Suc m" by (cases n) auto
  obtain c cs where c: "int_str i @ rest = c # cs" "c \<notin> set ''ntfNI[{'' \<and> c \<noteq> CHR 0x22"
    using int_str_hd [of i] by (cases "int_str i") auto
  have "json_word (int_str i @ rest) = None" by (rule json_word_int)
  moreover have "json_number (int_str i @ rest) = Some (JInt i, rest)"
    using JInt.prems(3) by (rule json_number_written)
  ultimately show ?case using m c by (simp add: c(1))
next
  case (JStr s)
  then show ?case by (cases n) (simp_all add: json_quote_def json_string_quoted)
next
  case (JArr vs)
  then show ?case by (intro read_array) auto
next
  case (JObj kvs)
  have "json_value i (json_compact (snd p) @ r) = Some (snd p, r)"
    if "p \<in> set kvs" "value_fuel (snd p) \<le> i" "ends_value r" for p i r
    using JObj.IH [of p "snd p" i r] JObj.prems(1) that by (cases p) force
  then show ?case by (rule read_object [OF _ JObj.prems(1,2)])
qed (auto simp: json_word_def json_words_def py_startswith_def neq_Nil_conv Suc_le_eq gr0_conv_Suc)

lemma loads_compact:
  assumes "writable v"
  shows "json_loads (json_compact v) = Inr v"
proof -
  let ?n = "max (value_fuel v) (2 * length (json_compact v) + 1)"
  have "json_value ?n (json_compact v @ []) = Some (v, [])"
    using assms by (intro read_written) (auto simp: ends_value_def)
  moreover have "skip_space (json_compact v) = json_compact v"
    using skip_space_compact [OF assms, of "[]"] by simp
  ultimately show ?thesis
    using json_loads_fuel [of "json_compact v" ?n] by simp
qed

text \<open>What json.dumps writes, json.loads reads back: for every value of nulls, booleans, integers,
  strings, lists and dicts, of any depth and with any characters in its strings, parsing the compact
  text gives the value.\<close>

theorem json_loads_compact:
  assumes "writable v"
  shows "json_loads (json_compact v) = Inr v"
  using assms by (rule loads_compact)

theorem json_loads_compact_witness:
  "json_loads (json_compact (JObj [(''a'', JArr [JInt (- 120), JNull]), (''b'', JStr [CHR 0xE9, CHR 0x0A])])) =
    Inr (JObj [(''a'', JArr [JInt (- 120), JNull]), (''b'', JStr [CHR 0xE9, CHR 0x0A])])"
  by (rule json_loads_compact) simp

end
