(* ===== verification/Base64.thy ===== *)
theory Base64
  imports PyText
begin

section \<open>URL-safe base64 and UTF-8\<close>

text \<open>
  \<open>base64.urlsafe_b64encode\<close> and \<open>urlsafe_b64decode\<close> of the standard library.  Encoding is by
  groups of three bytes; decoding is \<open>binascii.a2b_base64\<close> in its lenient mode, which skips
  characters outside the alphabet and stops at the first complete pad sequence.  Byte strings are
  strings of characters with codes 0 to 255; a decoded character beyond code 255, which the text
  model does not have, is read as character 255.
\<close>

subsection \<open>The alphabet\<close>

definition b64_alphabet :: string where
  "b64_alphabet = ''ABCDEFGHIJKLMNOPQRSTUVWXYZabcdefghijklmnopqrstuvwxyz0123456789-_''"

definition b64_char :: "int \<Rightarrow> char" where
  "b64_char v = b64_alphabet ! nat v"

text \<open>The decoder's table, after \<open>urlsafe_b64decode\<close> has turned dash and underscore into plus and
  slash; those two are accepted as they are.\<close>

definition b64_value :: "char \<Rightarrow> int option" where
  "b64_value c = (let n = (of_char c :: int) in
     if 65 \<le> n \<and> n \<le> 90 then Some (n - 65)
     else if 97 \<le> n \<and> n \<le> 122 then Some (n - 71)
     else if 48 \<le> n \<and> n \<le> 57 then Some (n + 4)
     else if n = 45 \<or> n = 43 then Some 62
     else if n = 95 \<or> n = 47 then Some 63
     else None)"

lemma b64_char_table:
  "\<forall>v \<in> set [0..63]. b64_value (b64_char v) = Some v \<and> b64_char v \<noteq> CHR ''='' \<and>
    (of_char (b64_char v) :: nat) < 128"
  by code_simp

lemma b64_char:
  assumes "0 \<le> v" and "v < 64"
  shows "b64_value (b64_char v) = Some v" and "b64_char v \<noteq> CHR ''=''"
    and "(of_char (b64_char v) :: nat) < 128"
proof -
  have "v \<in> set [0..63]" using assms by simp
  from b64_char_table [rule_format, OF this]
  show "b64_value (b64_char v) = Some v" "b64_char v \<noteq> CHR ''=''" "(of_char (b64_char v) :: nat) < 128"
    by blast+
qed

subsection \<open>Encoding\<close>

definition byte :: "char \<Rightarrow> int" where
  "byte c = of_char c"

definition of_byte :: "int \<Rightarrow> char" where
  "of_byte n = char_of n"

fun b64_encode :: "string \<Rightarrow> string" where
  "b64_encode [] = []"
| "b64_encode [a] =
     [b64_char (byte a div 4), b64_char (byte a mod 4 * 16), CHR ''='', CHR ''='']"
| "b64_encode [a, b] =
     [b64_char (byte a div 4), b64_char (byte a mod 4 * 16 + byte b div 16),
      b64_char (byte b mod 16 * 4), CHR ''='']"
| "b64_encode (a # b # c # rest) =
     b64_char (byte a div 4) # b64_char (byte a mod 4 * 16 + byte b div 16) #
     b64_char (byte b mod 16 * 4 + byte c div 64) # b64_char (byte c mod 64) # b64_encode rest"

subsection \<open>Decoding\<close>

text \<open>
  The loop of \<open>a2b_base64\<close>: the position in the group of four, the bits left over from the
  previous character, the pads seen since the last data character.
\<close>

fun a2b :: "nat \<Rightarrow> int \<Rightarrow> nat \<Rightarrow> string \<Rightarrow> string option" where
  "a2b quad left pads [] = (if quad = 0 then Some [] else None)"
| "a2b quad left pads (c # cs) =
     (if c = CHR ''='' then
        (if 2 \<le> quad then (if 4 \<le> quad + pads + 1 then Some [] else a2b quad left (pads + 1) cs)
         else a2b quad left pads cs)
      else case b64_value c of
        None \<Rightarrow> a2b quad left pads cs
      | Some v \<Rightarrow>
          if quad = 0 then a2b 1 v 0 cs
          else if quad = 1 then map_option (Cons (of_byte (left * 4 + v div 16))) (a2b 2 (v mod 16) 0 cs)
          else if quad = 2 then map_option (Cons (of_byte (left * 16 + v div 4))) (a2b 3 (v mod 4) 0 cs)
          else map_option (Cons (of_byte (left * 64 + v))) (a2b 0 0 0 cs))"

definition is_ascii :: "string \<Rightarrow> bool" where
  "is_ascii s \<longleftrightarrow> list_all (\<lambda>c. (of_char c :: nat) < 128) s"

text \<open>A str argument must be ASCII; \<open>binascii.Error\<close> is a \<open>ValueError\<close>.\<close>

definition urlsafe_b64decode :: "string \<Rightarrow> string result" where
  "urlsafe_b64decode s =
     (if \<not> is_ascii s then Inl ValueError
      else case a2b 0 0 0 s of None \<Rightarrow> Inl ValueError | Some bs \<Rightarrow> Inr bs)"

definition rstrip_char :: "char \<Rightarrow> string \<Rightarrow> string" where
  "rstrip_char c s = rev (dropWhile (\<lambda>x. x = c) (rev s))"

text \<open>\<open>cursor + "=" * (-len(cursor) % 4)\<close>\<close>

definition pad_base64 :: "string \<Rightarrow> string" where
  "pad_base64 s = s @ replicate (nat (- int (length s) mod 4)) CHR ''=''"

subsection \<open>UTF-8\<close>

definition continuation :: "char \<Rightarrow> int option" where
  "continuation c = (if byte c div 64 = 2 then Some (byte c mod 64) else None)"

definition code_point :: "int \<Rightarrow> char" where
  "code_point n = (if n < 256 then of_byte n else CHR 0xFF)"

text \<open>One character from the front: one to four bytes, shortest form, no surrogates.\<close>

definition utf8_char :: "string \<Rightarrow> (char \<times> string) option" where
  "utf8_char s =
     (case s of
        [] \<Rightarrow> None
      | a # cs \<Rightarrow>
          if byte a < 128 then Some (a, cs)
          else
            let tail = map continuation (take 3 cs);
                more = (if 194 \<le> byte a \<and> byte a < 224 then 1
                        else if 224 \<le> byte a \<and> byte a < 240 then 2
                        else if 240 \<le> byte a \<and> byte a < 245 then 3 else 0)
            in (case (more, tail) of
                  (Suc 0, Some x # _) \<Rightarrow>
                    Some (code_point ((byte a - 192) * 64 + x), drop 1 cs)
                | (Suc (Suc 0), Some x # Some y # _) \<Rightarrow>
                    let n = (byte a - 224) * 4096 + x * 64 + y in
                    if n < 2048 \<or> (55296 \<le> n \<and> n < 57344) then None
                    else Some (code_point n, drop 2 cs)
                | (Suc (Suc (Suc 0)), [Some x, Some y, Some z]) \<Rightarrow>
                    let n = (byte a - 240) * 262144 + x * 4096 + y * 64 + z in
                    if n < 65536 \<or> 1114112 \<le> n then None
                    else Some (code_point n, drop 3 cs)
                | _ \<Rightarrow> None))"

lemma utf8_char_length: "utf8_char s = Some (c, rest) \<Longrightarrow> length rest < length s"
  by (cases s) (auto simp: utf8_char_def Let_def split: if_splits nat.splits list.splits option.splits)

function utf8_decode :: "string \<Rightarrow> string result" where
  "utf8_decode s =
     (if s = [] then Inr []
      else case utf8_char s of
        None \<Rightarrow> Inl ValueError
      | Some (c, rest) \<Rightarrow> ebind (utf8_decode rest) (\<lambda>t. Inr (c # t)))"
  by pat_completeness auto
termination
  by (relation "measure length") (auto dest: utf8_char_length)

declare utf8_decode.simps [simp del]

lemma byte_nat: "byte c = int (of_char c)"
  by (simp only: byte_def of_nat_of_char)

lemma byte_range: "0 \<le> byte c" "byte c < 256"
  using nat_of_char_less_256 [of c] by (simp_all add: byte_nat del: of_nat_of_char nat_of_char)

lemma of_byte_byte [simp]: "of_byte (byte c) = c"
  by (simp add: of_byte_def byte_def)

lemma utf8_decode_ascii: "is_ascii s \<Longrightarrow> utf8_decode s = Inr s"
proof (induction s)
  case (Cons c s)
  then have "(of_char c :: nat) < 128" by (simp add: is_ascii_def)
  then have "byte c < 128" unfolding byte_nat by linarith
  moreover have "utf8_decode s = Inr s" using Cons by (simp add: is_ascii_def)
  ultimately show ?case by (subst utf8_decode.simps) (simp add: utf8_char_def)
qed (simp add: utf8_decode.simps)

lemma utf8_decode_errors: "utf8_decode s = Inl e \<Longrightarrow> e = ValueError"
proof (induction s rule: utf8_decode.induct)
  case (1 s)
  then show ?case
    by (subst (asm) (2) utf8_decode.simps) (auto simp: ebind_Inl_iff split: if_splits option.splits)
qed

subsection \<open>Decoding what was encoded\<close>

lemma byte_parts:
  "0 \<le> byte a div 4" "byte a div 4 < 64" "0 \<le> byte a div 16" "byte a div 16 < 16"
  "0 \<le> byte a div 64" "byte a div 64 < 4"
  using byte_range [of a] by simp_all

lemma byte_parts_small:
  "byte a div 16 div 16 = 0" "byte a div 16 mod 16 = byte a div 16"
  "byte a div 64 div 4 = 0" "byte a div 64 mod 4 = byte a div 64"
  using byte_parts [of a] by simp_all

lemma a2b_step:
  assumes "0 \<le> v" and "v < 64"
  shows "a2b 0 l p (b64_char v # cs) = a2b 1 v 0 cs"
    and "a2b 1 l p (b64_char v # cs) = map_option (Cons (of_byte (l * 4 + v div 16))) (a2b 2 (v mod 16) 0 cs)"
    and "a2b 2 l p (b64_char v # cs) = map_option (Cons (of_byte (l * 16 + v div 4))) (a2b 3 (v mod 4) 0 cs)"
    and "a2b 3 l p (b64_char v # cs) = map_option (Cons (of_byte (l * 64 + v))) (a2b 0 0 0 cs)"
  using b64_char(1,2) [OF assms] by simp_all

lemma a2b_pads: "a2b 2 l 0 ''=='' = Some []" "a2b 3 l 0 ''='' = Some []"
  by simp_all

lemma join_bits:
  fixes x y :: int
  assumes "0 \<le> y"
  shows "y < 16 \<Longrightarrow> (x mod 4 * 16 + y) div 16 = x mod 4" "y < 16 \<Longrightarrow> (x mod 4 * 16 + y) mod 16 = y"
    and "y < 4 \<Longrightarrow> (x mod 16 * 4 + y) div 4 = x mod 16" "y < 4 \<Longrightarrow> (x mod 16 * 4 + y) mod 4 = y"
  using assms by simp_all

lemma a2b_encode: "a2b 0 0 0 (b64_encode bs) = Some bs"
proof (induction bs rule: b64_encode.induct)
  case (2 a)
  have "0 \<le> byte a mod 4 * 16" "byte a mod 4 * 16 < 64" by simp_all
  note steps = a2b_step(1) [OF byte_parts(1,2) [of a]] a2b_step(2) [OF this]
  show ?case by (simp add: steps a2b_pads byte_parts_small del: a2b.simps(2) One_nat_def)
next
  case (3 a b)
  have s: "0 \<le> byte a mod 4 * 16 + byte b div 16" "byte a mod 4 * 16 + byte b div 16 < 64"
    using byte_parts(3,4) [of b] pos_mod_bound [of 4 "byte a"] by simp_all
  have t: "0 \<le> byte b mod 16 * 4" "byte b mod 16 * 4 < 64"
    using pos_mod_bound [of 16 "byte b"] by simp_all
  note steps = a2b_step(1) [OF byte_parts(1,2) [of a]] a2b_step(2) [OF s] a2b_step(3) [OF t]
    join_bits [OF byte_parts(3) [of b]]
  show ?case using byte_parts(4) [of b] by (simp add: steps a2b_pads byte_parts_small del: a2b.simps(2) One_nat_def)
next
  case (4 a b c rest)
  have s: "0 \<le> byte a mod 4 * 16 + byte b div 16" "byte a mod 4 * 16 + byte b div 16 < 64"
    using byte_parts(3,4) [of b] pos_mod_bound [of 4 "byte a"] by simp_all
  have t: "0 \<le> byte b mod 16 * 4 + byte c div 64" "byte b mod 16 * 4 + byte c div 64 < 64"
    using byte_parts(5,6) [of c] pos_mod_bound [of 16 "byte b"] by simp_all
  have u: "0 \<le> byte c mod 64" "byte c mod 64 < 64" by simp_all
  note steps = a2b_step(1) [OF byte_parts(1,2) [of a]] a2b_step(2) [OF s] a2b_step(3) [OF t]
    a2b_step(4) [OF u] join_bits [OF byte_parts(3) [of b]] join_bits [OF byte_parts(5) [of c]]
  show ?case using 4 byte_parts(4) [of b] byte_parts(6) [of c] by (simp add: steps a2b_pads byte_parts_small del: a2b.simps(2) One_nat_def)
qed simp

lemma four_dvd: "4 dvd Suc (Suc (Suc (Suc 0)))"
  by (simp add: eval_nat_numeral)

text \<open>The encoded text is a body without pads, filled up to a multiple of four.\<close>

lemma b64_encode_shape:
  "\<exists>body k. b64_encode bs = body @ replicate k CHR ''='' \<and> k < 4 \<and> 4 dvd length body + k \<and>
     CHR ''='' \<notin> set body \<and> is_ascii body"
proof (induction bs rule: b64_encode.induct)
  case 1
  show ?case by (rule exI [of _ "[]"], rule exI [of _ 0]) (simp add: is_ascii_def)
next
  case (2 a)
  let ?body = "[b64_char (byte a div 4), b64_char (byte a mod 4 * 16)]"
  have "0 \<le> byte a mod 4 * 16" "byte a mod 4 * 16 < 64" by simp_all
  from b64_char(2,3) [OF this] b64_char(2,3) [OF byte_parts(1,2) [of a]]
  moreover have "replicate 2 CHR ''='' = ''==''" by (simp add: numeral_2_eq_2)
  ultimately show ?case
    by (intro exI [of _ ?body] exI [of _ 2]) (simp add: is_ascii_def eq_commute four_dvd)
next
  case (3 a b)
  let ?body = "[b64_char (byte a div 4), b64_char (byte a mod 4 * 16 + byte b div 16),
      b64_char (byte b mod 16 * 4)]"
  have s: "0 \<le> byte a mod 4 * 16 + byte b div 16" "byte a mod 4 * 16 + byte b div 16 < 64"
    using byte_parts(3,4) [of b] pos_mod_bound [of 4 "byte a"] by simp_all
  have t: "0 \<le> byte b mod 16 * 4" "byte b mod 16 * 4 < 64"
    using pos_mod_bound [of 16 "byte b"] by simp_all
  from b64_char(2,3) [OF s] b64_char(2,3) [OF t] b64_char(2,3) [OF byte_parts(1,2) [of a]]
  show ?case by (intro exI [of _ ?body] exI [of _ 1]) (simp add: is_ascii_def eq_commute four_dvd)
next
  case (4 a b c rest)
  then obtain body k where IH: "b64_encode rest = body @ replicate k CHR ''=''" "k < 4"
    "4 dvd length body + k" "CHR ''='' \<notin> set body" "is_ascii body" by blast
  let ?four = "[b64_char (byte a div 4), b64_char (byte a mod 4 * 16 + byte b div 16),
      b64_char (byte b mod 16 * 4 + byte c div 64), b64_char (byte c mod 64)]"
  have s: "0 \<le> byte a mod 4 * 16 + byte b div 16" "byte a mod 4 * 16 + byte b div 16 < 64"
    using byte_parts(3,4) [of b] pos_mod_bound [of 4 "byte a"] by simp_all
  have t: "0 \<le> byte b mod 16 * 4 + byte c div 64" "byte b mod 16 * 4 + byte c div 64 < 64"
    using byte_parts(5,6) [of c] pos_mod_bound [of 16 "byte b"] by simp_all
  have u: "0 \<le> byte c mod 64" "byte c mod 64 < 64" by simp_all
  have "CHR ''='' \<notin> set ?four" "is_ascii ?four"
    using b64_char(2,3) [OF s] b64_char(2,3) [OF t] b64_char(2,3) [OF u]
      b64_char(2,3) [OF byte_parts(1,2) [of a]] by (simp_all add: is_ascii_def eq_commute)
  moreover have "4 dvd length (?four @ body) + k"
  proof -
    have "length (?four @ body) + k = 4 + (length body + k)" by simp
    then show ?thesis using IH(3) by (metis dvd_add dvd_refl)
  qed
  ultimately show ?case using IH
    by (intro exI [of _ "?four @ body"] exI [of _ k]) (simp add: is_ascii_def del: length_append)
qed

lemma rstrip_char_replicate:
  "c \<notin> set s \<Longrightarrow> rstrip_char c (s @ replicate k c) = s"
proof -
  assume c: "c \<notin> set s"
  have "dropWhile (\<lambda>x. x = c) (replicate k c @ rev s) = rev s"
    using c by (induction k) (auto simp: dropWhile_eq_self_iff hd_rev dest: last_in_set)
  then show ?thesis by (simp add: rstrip_char_def)
qed

theorem urlsafe_b64_roundtrip:
  "urlsafe_b64decode (pad_base64 (rstrip_char CHR ''='' (b64_encode bs))) = Inr bs"
proof -
  obtain body k where enc: "b64_encode bs = body @ replicate k CHR ''=''" and k: "k < 4"
    "4 dvd length body + k" and body: "CHR ''='' \<notin> set body" "is_ascii body"
    using b64_encode_shape [of bs] by blast
  have "- int (length body) mod 4 = int k"
    using k by presburger
  then have "pad_base64 (rstrip_char CHR ''='' (b64_encode bs)) = b64_encode bs"
    by (simp add: enc rstrip_char_replicate body pad_base64_def)
  moreover have "is_ascii (b64_encode bs)"
    using body(2) by (auto simp: enc is_ascii_def list_all_iff)
  ultimately show ?thesis
    by (simp add: urlsafe_b64decode_def a2b_encode)
qed

end
