(* ===== verification/Database.thy ===== *)
theory Database
  imports Uuid
begin

section \<open>The relational state (models/)\<close>

text \<open>
  One record per SQLAlchemy model, one list of rows per table.  A row is inserted the way a flush
  inserts it: the constraints the model declares (primary keys, unique columns, foreign keys, the
  check on the conversation type) are tested and a violation raises \<open>IntegrityError\<close>.  A query
  without an \<open>ORDER BY\<close> gives the rows in table order; no property depends on that order.
  The invariants at the end say that the declared constraints hold of the stored rows.
\<close>

subsection \<open>Rows\<close>

record user =
  u_id :: uuid
  u_username :: string
  u_email :: string
  u_password_hash :: string
  u_created_at :: instant
  u_updated_at :: instant
  u_last_seen :: "instant option"

record refresh_token =
  rt_id :: uuid
  rt_jti :: uuid
  rt_user_id :: uuid
  rt_expires_at :: instant
  rt_revoked_at :: "instant option"
  rt_created_at :: instant

record conversation =
  c_id :: uuid
  c_type :: string
  c_name :: "string option"
  c_direct_key :: "string option"
  c_created_by :: uuid
  c_created_at :: instant
  c_updated_at :: instant

record conversation_member =
  cm_conversation_id :: uuid
  cm_user_id :: uuid
  cm_role :: string
  cm_joined_at :: instant

record message =
  m_id :: uuid
  m_conversation_id :: uuid
  m_sender_id :: uuid
  m_content :: string
  m_created_at :: instant
  m_edited_at :: "instant option"
  m_deleted_at :: "instant option"

record message_receipt =
  r_id :: uuid
  r_message_id :: uuid
  r_user_id :: uuid
  r_delivered_at :: "instant option"
  r_read_at :: "instant option"

record attachment =
  a_id :: uuid
  a_conversation_id :: uuid
  a_uploader_id :: uuid
  a_message_id :: "uuid option"
  a_filename :: string
  a_mime_type :: string
  a_file_size :: int
  a_storage_key :: string
  a_created_at :: instant
  a_uploaded_at :: "instant option"

record db =
  users :: "user list"
  refresh_tokens :: "refresh_token list"
  conversations :: "conversation list"
  members :: "conversation_member list"
  messages :: "message list"
  receipts :: "message_receipt list"
  attachments :: "attachment list"

definition empty_db :: db where
  "empty_db = \<lparr>users = [], refresh_tokens = [], conversations = [], members = [],
     messages = [], receipts = [], attachments = []\<rparr>"

abbreviation user_ids :: "db \<Rightarrow> uuid set" where
  "user_ids d \<equiv> u_id ` set (users d)"

abbreviation conversation_ids :: "db \<Rightarrow> uuid set" where
  "conversation_ids d \<equiv> c_id ` set (conversations d)"

abbreviation message_ids :: "db \<Rightarrow> uuid set" where
  "message_ids d \<equiv> m_id ` set (messages d)"

subsection \<open>The declared constraints\<close>

definition wf_users :: "db \<Rightarrow> bool" where
  "wf_users d \<longleftrightarrow> distinct (map u_id (users d)) \<and> distinct (map u_username (users d)) \<and>
     distinct (map u_email (users d))"

definition wf_refresh_tokens :: "db \<Rightarrow> bool" where
  "wf_refresh_tokens d \<longleftrightarrow> distinct (map rt_id (refresh_tokens d)) \<and>
     distinct (map rt_jti (refresh_tokens d)) \<and>
     rt_user_id ` set (refresh_tokens d) \<subseteq> user_ids d"

definition wf_conversations :: "db \<Rightarrow> bool" where
  "wf_conversations d \<longleftrightarrow> distinct (map c_id (conversations d)) \<and>
     distinct (filter (\<lambda>k. k \<noteq> None) (map c_direct_key (conversations d))) \<and>
     c_type ` set (conversations d) \<subseteq> {''direct''} \<and>
     c_created_by ` set (conversations d) \<subseteq> user_ids d"

abbreviation member_key :: "conversation_member \<Rightarrow> uuid \<times> uuid" where
  "member_key m \<equiv> (cm_conversation_id m, cm_user_id m)"

definition wf_members :: "db \<Rightarrow> bool" where
  "wf_members d \<longleftrightarrow> distinct (map member_key (members d)) \<and>
     cm_conversation_id ` set (members d) \<subseteq> conversation_ids d \<and>
     cm_user_id ` set (members d) \<subseteq> user_ids d"

definition wf_messages :: "db \<Rightarrow> bool" where
  "wf_messages d \<longleftrightarrow> distinct (map m_id (messages d)) \<and>
     m_conversation_id ` set (messages d) \<subseteq> conversation_ids d \<and>
     m_sender_id ` set (messages d) \<subseteq> user_ids d"

abbreviation receipt_key :: "message_receipt \<Rightarrow> uuid \<times> uuid" where
  "receipt_key r \<equiv> (r_message_id r, r_user_id r)"

definition wf_receipts :: "db \<Rightarrow> bool" where
  "wf_receipts d \<longleftrightarrow> distinct (map r_id (receipts d)) \<and>
     distinct (map receipt_key (receipts d)) \<and>
     r_message_id ` set (receipts d) \<subseteq> message_ids d \<and>
     r_user_id ` set (receipts d) \<subseteq> user_ids d"

definition wf_attachments :: "db \<Rightarrow> bool" where
  "wf_attachments d \<longleftrightarrow> distinct (map a_id (attachments d)) \<and>
     distinct (map a_storage_key (attachments d)) \<and>
     a_conversation_id ` set (attachments d) \<subseteq> conversation_ids d \<and>
     a_uploader_id ` set (attachments d) \<subseteq> user_ids d \<and>
     a_message_id ` set (attachments d) \<subseteq> insert None (Some ` message_ids d)"

definition wf_db :: "db \<Rightarrow> bool" where
  "wf_db d \<longleftrightarrow> wf_users d \<and> wf_refresh_tokens d \<and> wf_conversations d \<and> wf_members d \<and>
     wf_messages d \<and> wf_receipts d \<and> wf_attachments d"

lemmas wf_defs = wf_db_def wf_users_def wf_refresh_tokens_def wf_conversations_def wf_members_def
  wf_messages_def wf_receipts_def wf_attachments_def

lemma wf_empty_db: "wf_db empty_db"
  by (simp add: wf_defs empty_db_def)

lemma wf_dbD:
  assumes "wf_db d"
  shows "wf_users d" "wf_refresh_tokens d" "wf_conversations d" "wf_members d" "wf_messages d"
    "wf_receipts d" "wf_attachments d"
  using assms by (simp_all add: wf_db_def)

lemma image_update_where [simp]:
  assumes "\<And>r. g (f r) = g r"
  shows "g ` set (update_where P f rows) = g ` set rows"
proof -
  have "set (map g (update_where P f rows)) = set (map g rows)"
    using assms by (simp only: map_update_where)
  then show ?thesis by simp
qed

subsection \<open>Inserts\<close>

definition insert_user :: "user \<Rightarrow> db \<Rightarrow> db result" where
  "insert_user u d =
     (if u_id u \<in> user_ids d \<or> u_username u \<in> u_username ` set (users d) \<or>
         u_email u \<in> u_email ` set (users d)
      then Inl IntegrityError
      else Inr (d\<lparr>users := users d @ [u]\<rparr>))"

definition insert_refresh_token :: "refresh_token \<Rightarrow> db \<Rightarrow> db result" where
  "insert_refresh_token t d =
     (if rt_id t \<in> rt_id ` set (refresh_tokens d) \<or> rt_jti t \<in> rt_jti ` set (refresh_tokens d) \<or>
         rt_user_id t \<notin> user_ids d
      then Inl IntegrityError
      else Inr (d\<lparr>refresh_tokens := refresh_tokens d @ [t]\<rparr>))"

definition insert_conversation :: "conversation \<Rightarrow> db \<Rightarrow> db result" where
  "insert_conversation c d =
     (if c_id c \<in> conversation_ids d \<or>
         (c_direct_key c \<noteq> None \<and> c_direct_key c \<in> c_direct_key ` set (conversations d)) \<or>
         c_type c \<noteq> ''direct'' \<or> c_created_by c \<notin> user_ids d
      then Inl IntegrityError
      else Inr (d\<lparr>conversations := conversations d @ [c]\<rparr>))"

definition insert_member :: "conversation_member \<Rightarrow> db \<Rightarrow> db result" where
  "insert_member m d =
     (if member_key m \<in> member_key ` set (members d) \<or>
         cm_conversation_id m \<notin> conversation_ids d \<or> cm_user_id m \<notin> user_ids d
      then Inl IntegrityError
      else Inr (d\<lparr>members := members d @ [m]\<rparr>))"

definition insert_message :: "message \<Rightarrow> db \<Rightarrow> db result" where
  "insert_message m d =
     (if m_id m \<in> message_ids d \<or> m_conversation_id m \<notin> conversation_ids d \<or>
         m_sender_id m \<notin> user_ids d
      then Inl IntegrityError
      else Inr (d\<lparr>messages := messages d @ [m]\<rparr>))"

definition insert_receipt :: "message_receipt \<Rightarrow> db \<Rightarrow> db result" where
  "insert_receipt r d =
     (if r_id r \<in> r_id ` set (receipts d) \<or> receipt_key r \<in> receipt_key ` set (receipts d) \<or>
         r_message_id r \<notin> message_ids d \<or> r_user_id r \<notin> user_ids d
      then Inl IntegrityError
      else Inr (d\<lparr>receipts := receipts d @ [r]\<rparr>))"

definition insert_attachment :: "attachment \<Rightarrow> db \<Rightarrow> db result" where
  "insert_attachment a d =
     (if a_id a \<in> a_id ` set (attachments d) \<or>
         a_storage_key a \<in> a_storage_key ` set (attachments d) \<or>
         a_conversation_id a \<notin> conversation_ids d \<or> a_uploader_id a \<notin> user_ids d \<or>
         a_message_id a \<notin> insert None (Some ` message_ids d)
      then Inl IntegrityError
      else Inr (d\<lparr>attachments := attachments d @ [a]\<rparr>))"

fun insert_all :: "('r \<Rightarrow> db \<Rightarrow> db result) \<Rightarrow> 'r list \<Rightarrow> db \<Rightarrow> db result" where
  "insert_all ins [] d = Inr d"
| "insert_all ins (r # rs) d = ebind (ins r d) (insert_all ins rs)"

lemmas insert_defs = insert_user_def insert_refresh_token_def insert_conversation_def
  insert_member_def insert_message_def insert_receipt_def insert_attachment_def

lemma insert_user_Inr_iff:
  "insert_user u d = Inr d' \<longleftrightarrow>
    \<not> (u_id u \<in> user_ids d \<or> u_username u \<in> u_username ` set (users d) \<or>
         u_email u \<in> u_email ` set (users d)) \<and>
    d' = d\<lparr>users := users d @ [u]\<rparr>"
  unfolding insert_user_def by (simp only: if_Inl_eq_Inr sum.inject eq_commute [of d'])

lemma insert_refresh_token_Inr_iff:
  "insert_refresh_token t d = Inr d' \<longleftrightarrow>
    \<not> (rt_id t \<in> rt_id ` set (refresh_tokens d) \<or> rt_jti t \<in> rt_jti ` set (refresh_tokens d) \<or>
         rt_user_id t \<notin> user_ids d) \<and>
    d' = d\<lparr>refresh_tokens := refresh_tokens d @ [t]\<rparr>"
  unfolding insert_refresh_token_def by (simp only: if_Inl_eq_Inr sum.inject eq_commute [of d'])

lemma insert_conversation_Inr_iff:
  "insert_conversation c d = Inr d' \<longleftrightarrow>
    \<not> (c_id c \<in> conversation_ids d \<or>
         (c_direct_key c \<noteq> None \<and> c_direct_key c \<in> c_direct_key ` set (conversations d)) \<or>
         c_type c \<noteq> ''direct'' \<or> c_created_by c \<notin> user_ids d) \<and>
    d' = d\<lparr>conversations := conversations d @ [c]\<rparr>"
  unfolding insert_conversation_def by (simp only: if_Inl_eq_Inr sum.inject eq_commute [of d'])

lemma insert_member_Inr_iff:
  "insert_member m d = Inr d' \<longleftrightarrow>
    \<not> (member_key m \<in> member_key ` set (members d) \<or>
         cm_conversation_id m \<notin> conversation_ids d \<or> cm_user_id m \<notin> user_ids d) \<and>
    d' = d\<lparr>members := members d @ [m]\<rparr>"
  unfolding insert_member_def by (simp only: if_Inl_eq_Inr sum.inject eq_commute [of d'])

lemma insert_message_Inr_iff:
  "insert_message m d = Inr d' \<longleftrightarrow>
    \<not> (m_id m \<in> message_ids d \<or> m_conversation_id m \<notin> conversation_ids d \<or>
         m_sender_id m \<notin> user_ids d) \<and>
    d' = d\<lparr>messages := messages d @ [m]\<rparr>"
  unfolding insert_message_def by (simp only: if_Inl_eq_Inr sum.inject eq_commute [of d'])

lemma insert_receipt_Inr_iff:
  "insert_receipt r d = Inr d' \<longleftrightarrow>
    \<not> (r_id r \<in> r_id ` set (receipts d) \<or> receipt_key r \<in> receipt_key ` set (receipts d) \<or>
         r_message_id r \<notin> message_ids d \<or> r_user_id r \<notin> user_ids d) \<and>
    d' = d\<lparr>receipts := receipts d @ [r]\<rparr>"
  unfolding insert_receipt_def by (simp only: if_Inl_eq_Inr sum.inject eq_commute [of d'])

lemma insert_attachment_Inr_iff:
  "insert_attachment a d = Inr d' \<longleftrightarrow>
    \<not> (a_id a \<in> a_id ` set (attachments d) \<or>
         a_storage_key a \<in> a_storage_key ` set (attachments d) \<or>
         a_conversation_id a \<notin> conversation_ids d \<or> a_uploader_id a \<notin> user_ids d \<or>
         a_message_id a \<notin> insert None (Some ` message_ids d)) \<and>
    d' = d\<lparr>attachments := attachments d @ [a]\<rparr>"
  unfolding insert_attachment_def by (simp only: if_Inl_eq_Inr sum.inject eq_commute [of d'])

lemma insert_user_wf [wf_intros]:
  "insert_user u d = Inr d' \<Longrightarrow> wf_db d \<Longrightarrow> wf_db d'"
  unfolding insert_user_Inr_iff by (elim conjE) (simp add: wf_defs subset_insertI2)

lemma insert_refresh_token_wf [wf_intros]:
  "insert_refresh_token t d = Inr d' \<Longrightarrow> wf_db d \<Longrightarrow> wf_db d'"
  unfolding insert_refresh_token_Inr_iff by (elim conjE) (simp add: wf_defs subset_insertI2)

lemma insert_conversation_wf [wf_intros]:
  "insert_conversation c d = Inr d' \<Longrightarrow> wf_db d \<Longrightarrow> wf_db d'"
  unfolding insert_conversation_Inr_iff
  by (cases "c_direct_key c"; elim conjE) (simp_all add: wf_defs subset_insertI2)

lemma insert_member_wf [wf_intros]:
  "insert_member m d = Inr d' \<Longrightarrow> wf_db d \<Longrightarrow> wf_db d'"
  unfolding insert_member_Inr_iff by (elim conjE) (simp add: wf_defs subset_insertI2)

lemma subset_insert_second: "A \<subseteq> insert x B \<Longrightarrow> A \<subseteq> insert x (insert y B)"
  by blast

lemma insert_message_wf [wf_intros]:
  "insert_message m d = Inr d' \<Longrightarrow> wf_db d \<Longrightarrow> wf_db d'"
  unfolding insert_message_Inr_iff
  by (elim conjE) (simp add: wf_defs subset_insertI2 subset_insert_second)

lemma insert_receipt_wf [wf_intros]:
  "insert_receipt r d = Inr d' \<Longrightarrow> wf_db d \<Longrightarrow> wf_db d'"
  unfolding insert_receipt_Inr_iff by (elim conjE) (simp add: wf_defs subset_insertI2)

lemma insert_attachment_wf [wf_intros]:
  "insert_attachment a d = Inr d' \<Longrightarrow> wf_db d \<Longrightarrow> wf_db d'"
  unfolding insert_attachment_Inr_iff by (elim conjE) (simp add: wf_defs subset_insertI2)

lemma insert_all_wf [wf_intros]:
  assumes "insert_all ins rs d = Inr d'" and "wf_db d"
    and "\<And>r d d'. ins r d = Inr d' \<Longrightarrow> wf_db d \<Longrightarrow> wf_db d'"
  shows "wf_db d'"
  using assms(1,2)
proof (induction rs arbitrary: d)
  case (Cons r rs)
  then obtain d1 where "ins r d = Inr d1" "insert_all ins rs d1 = Inr d'"
    by (auto simp: ebind_Inr_iff)
  with Cons assms(3) show ?case by blast
qed simp

end
