(* ===== verification/Cursor.thy ===== *)
theory Cursor
  imports Base64 JsonText Database
begin

section \<open>Message cursors (services/message_service.py)\<close>

text \<open>
  A cursor is the URL-safe base64 text, without pads, of a JSON object with a message's creation
  time and identifier.  A client sends it back and may send anything: decoding gives the pair or
  the \<open>INVALID_CURSOR\<close> error, except for an \<open>id\<close> that is JSON but neither a string nor null, on
  which \<open>UUID\<close> raises an \<open>AttributeError\<close> the handler does not catch.
\<close>

definition encode_cursor :: "message \<Rightarrow> string" where
  "encode_cursor m =
     (let payload = json_dumps [(''created_at'', isoformat (m_created_at m)), (''id'', uuid_str (m_id m))]
      in rstrip_char CHR ''='' (b64_encode payload))"

definition invalid_cursor :: exc where
  "invalid_cursor = AppError 422 ''INVALID_CURSOR'' ''Message cursor is invalid''"

text \<open>\<open>payload[key]\<close> on whatever the JSON text held.\<close>

fun json_subscript :: "json \<Rightarrow> string \<Rightarrow> json result" where
  "json_subscript (JObj d) k = dict_item d k"
| "json_subscript _ k = Inl TypeError"

fun datetime_of_json :: "json \<Rightarrow> py_datetime result" where
  "datetime_of_json (JStr s) = fromisoformat s"
| "datetime_of_json _ = Inl TypeError"

text \<open>The \<open>except\<close> clause of \<open>decode_cursor\<close>.\<close>

fun as_invalid_cursor :: "'a result \<Rightarrow> 'a result" where
  "as_invalid_cursor (Inl ValueError) = Inl invalid_cursor"
| "as_invalid_cursor (Inl TypeError) = Inl invalid_cursor"
| "as_invalid_cursor (Inl KeyError) = Inl invalid_cursor"
| "as_invalid_cursor r = r"

definition decode_cursor :: "string \<Rightarrow> (py_datetime \<times> uuid) result" where
  "decode_cursor cursor = as_invalid_cursor (
     ebind (urlsafe_b64decode (pad_base64 cursor)) (\<lambda>raw.
     ebind (utf8_decode raw) (\<lambda>txt.
     ebind (json_loads txt) (\<lambda>payload.
     ebind (ebind (json_subscript payload ''created_at'') datetime_of_json) (\<lambda>created_at.
     ebind (ebind (json_subscript payload ''id'') uuid_of_json) (\<lambda>uid.
       Inr (created_at, uid)))))))"

subsection \<open>Facts\<close>

lemma plain_isoformat: "list_all json_plain (isoformat t)"
proof -
  have "list_all json_plain (dec k n)" for k n
    using dec_digit(4-7) by (auto simp: list_all_iff json_plain_def Let_def)
  moreover have "json_plain CHR ''-''" "json_plain CHR '':''" "json_plain CHR ''.''"
    "json_plain CHR ''T''" "json_plain CHR ''+''" "json_plain CHR ''0''"
    by code_simp+
  ultimately show ?thesis
    by (cases "ord2ymd (t div day_micros + epoch_ordinal)")
      (simp add: isoformat_def iso_time_def Let_def)
qed

lemma json_plain_hex_table: "\<forall>d \<in> set [0..15]. json_plain (hex_char d)"
  by code_simp

lemma plain_uuid_str: "list_all json_plain (uuid_str u)"
proof -
  have "json_plain c" if c: "c \<in> set (uuid_str u)" for c
  proof -
    from set_uuid_str [OF c] consider "c = CHR ''-''" | d where "0 \<le> d" "d < 16" "c = hex_char d"
      by blast
    then show ?thesis
    proof cases
      case 1
      show ?thesis unfolding 1 by code_simp
    next
      case 2
      then have "d \<in> set [0..15]" by simp
      with json_plain_hex_table show ?thesis unfolding 2(3) by blast
    qed
  qed
  then show ?thesis by (simp add: list_all_iff)
qed

lemma is_ascii_plain: "list_all json_plain s \<Longrightarrow> is_ascii s"
proof -
  have "json_plain c \<Longrightarrow> (of_char c :: nat) < 128" for c
    unfolding json_plain_def Let_def by linarith
  then show "list_all json_plain s \<Longrightarrow> is_ascii s"
    unfolding is_ascii_def by (simp add: list_all_iff)
qed

lemma is_ascii_append [simp]: "is_ascii (s @ t) \<longleftrightarrow> is_ascii s \<and> is_ascii t"
  by (simp add: is_ascii_def)

lemma fromisoformat_errors: "fromisoformat s = Inl e \<Longrightarrow> e = ValueError"
  by (auto simp: fromisoformat_def Let_def split: option.splits prod.splits if_splits)

lemma uuid_of_string_errors: "uuid_of_string s = Inl e \<Longrightarrow> e = ValueError"
  by (auto simp: uuid_of_string_def Let_def split: option.splits if_splits)

lemma json_loads_errors: "json_loads s = Inl e \<Longrightarrow> e = ValueError"
  by (auto simp: json_loads_def split: option.splits prod.splits if_splits)

lemma urlsafe_b64decode_errors: "urlsafe_b64decode s = Inl e \<Longrightarrow> e = ValueError"
  by (auto simp: urlsafe_b64decode_def split: option.splits if_splits)

lemma as_invalid_cursor_Inl:
  "as_invalid_cursor (Inl e) =
    (if e \<in> {ValueError, TypeError, KeyError} then Inl invalid_cursor else Inl e)"
  by (cases e) auto

lemma as_invalid_cursor_Inr [simp]: "as_invalid_cursor (Inr x) = Inr x"
  by simp

lemma uuid_of_json_errors:
  "uuid_of_json v = Inl e \<Longrightarrow> e \<in> {ValueError, TypeError} \<or> e = AttributeError"
  by (cases v) (auto dest: uuid_of_string_errors)

lemma json_subscript_errors: "json_subscript v k = Inl e \<Longrightarrow> e \<in> {TypeError, KeyError}"
  by (cases v) (auto simp: dict_item_def split: option.splits)

lemma datetime_of_json_errors: "datetime_of_json v = Inl e \<Longrightarrow> e \<in> {ValueError, TypeError}"
  by (cases v) (auto dest: fromisoformat_errors)

lemma as_invalid_cursor_InlD:
  "as_invalid_cursor r = Inl e \<Longrightarrow>
    \<exists>e'. r = Inl e' \<and> e = (if e' \<in> {ValueError, TypeError, KeyError} then invalid_cursor else e')"
  by (cases r) (auto simp: as_invalid_cursor_Inl split: if_splits)

lemma ebind_errors:
  assumes "ebind r f = Inl e" and "\<And>e. r = Inl e \<Longrightarrow> e \<in> E" and "\<And>x e. f x = Inl e \<Longrightarrow> e \<in> E"
  shows "e \<in> E"
  using assms by (auto simp: ebind_Inl_iff)

lemma decode_encode_cursor:
  assumes "representable (m_created_at m)"
  shows "decode_cursor (encode_cursor m) =
    Inr (\<lparr>local_micros = m_created_at m, utc_offset = Some 0\<rparr>, m_id m)"
proof -
  let ?txt = "json_dumps [(''created_at'', isoformat (m_created_at m)), (''id'', uuid_str (m_id m))]"
  have keys: "list_all json_plain ''created_at''" "list_all json_plain ''id''" by code_simp+
  have "is_ascii (json_quote s)" if "list_all json_plain s" for s
    using is_ascii_plain [OF that] by (simp add: json_quote_plain [OF that] is_ascii_def)
  with keys plain_isoformat plain_uuid_str have "is_ascii ?txt"
    by (simp add: json_dumps_def) (simp add: is_ascii_def)
  then have "utf8_decode ?txt = Inr ?txt" by (rule utf8_decode_ascii)
  moreover have "json_loads ?txt = Inr (JObj [(''created_at'', JStr (isoformat (m_created_at m))),
      (''id'', JStr (uuid_str (m_id m)))])"
    by (rule json_loads_dumps_pair) (use keys plain_isoformat plain_uuid_str in simp_all)
  moreover have "urlsafe_b64decode (pad_base64 (encode_cursor m)) = Inr ?txt"
    unfolding encode_cursor_def Let_def by (rule urlsafe_b64_roundtrip)
  ultimately show ?thesis
    by (simp add: decode_cursor_def dict_item_def fromisoformat_isoformat [OF assms] uuid_of_string_str)
qed

subsection \<open>Properties\<close>

text \<open>C33: A cursor made from a message whose creation time Python can represent decodes to exactly
  that time, as an aware UTC datetime, and to the message's identifier.\<close>

theorem cursor_roundtrip:
  assumes "representable (m_created_at m)"
  shows "decode_cursor (encode_cursor m) =
    Inr (\<lparr>local_micros = m_created_at m, utc_offset = Some 0\<rparr>, m_id m)"
  by (rule decode_encode_cursor [OF assms])

definition sample_message :: message where
  "sample_message = \<lparr>m_id = 77, m_conversation_id = 5, m_sender_id = 1, m_content = ''hi'',
     m_created_at = 1704067200123456, m_edited_at = None, m_deleted_at = None\<rparr>"

theorem cursor_roundtrip_witness:
  "representable 1704067200123456 \<and>
    decode_cursor (encode_cursor sample_message) =
      Inr (\<lparr>local_micros = 1704067200123456, utc_offset = Some 0\<rparr>, 77)"
  using cursor_roundtrip [of sample_message] by (simp add: sample_message_def representable_def)

text \<open>Whatever text a client sends as a cursor, decoding it gives a pair, the documented 422
  error or an AttributeError; the latter is possible: a cursor that is valid base64 of a JSON
  object with a number for its id is one, and no except clause turns it into the 422 error.\<close>

theorem cursor_failures:
  "(\<forall>c e. decode_cursor c = Inl e \<longrightarrow> e = invalid_cursor \<or> e = AttributeError) \<and>
   decode_cursor ''eyJjcmVhdGVkX2F0IjoiMjAyNC0wMS0wMSIsImlkIjoxfQ'' = Inl AttributeError \<and>
   decode_cursor ''not-a-cursor'' = Inl invalid_cursor"
proof (intro conjI allI impI)
  fix c e assume *: "decode_cursor c = Inl e"
  then obtain e' where
    e': "ebind (urlsafe_b64decode (pad_base64 c)) (\<lambda>raw. ebind (utf8_decode raw) (\<lambda>txt.
        ebind (json_loads txt) (\<lambda>payload.
        ebind (ebind (json_subscript payload ''created_at'') datetime_of_json) (\<lambda>created_at.
        ebind (ebind (json_subscript payload ''id'') uuid_of_json) (\<lambda>uid. Inr (created_at, uid)))))) = Inl e'"
    and e: "e = (if e' \<in> {ValueError, TypeError, KeyError} then invalid_cursor else e')"
    unfolding decode_cursor_def by (blast dest: as_invalid_cursor_InlD)
  from e' have "e' \<in> {ValueError, TypeError, KeyError, AttributeError}"
    apply (elim ebind_errors)
    apply (drule urlsafe_b64decode_errors, simp)
    apply (drule utf8_decode_errors, simp)
    apply (drule json_loads_errors, simp)
    apply (drule json_subscript_errors, blast)
    apply (drule datetime_of_json_errors, blast)
    apply (drule json_subscript_errors, blast)
    apply (drule uuid_of_json_errors, blast)
    apply simp
    done
  with e show "e = invalid_cursor \<or> e = AttributeError" by auto
next
  show "decode_cursor ''eyJjcmVhdGVkX2F0IjoiMjAyNC0wMS0wMSIsImlkIjoxfQ'' = Inl AttributeError"
    by code_simp
  show "decode_cursor ''not-a-cursor'' = Inl invalid_cursor"
    by code_simp
qed

theorem cursor_failures_witness:
  "decode_cursor ''AAAA'' = Inl invalid_cursor \<and> decode_cursor ''AAAA'' \<noteq> Inl KeyError"
proof -
  have "decode_cursor ''AAAA'' = Inl invalid_cursor" by code_simp
  moreover have "decode_cursor ''AAAA'' \<noteq> Inl KeyError"
    using cursor_failures by (force simp: invalid_cursor_def)
  ultimately show ?thesis by simp
qed

end
