(* ===== verification/Realtime.thy ===== *)
theory Realtime
  imports Redis JsonWrite Cursor Settings
begin

section \<open>The Redis realtime backend (websocket/redis_backend.py)\<close>

text \<open>
  The four Lua scripts, which Redis runs atomically, the operations that call them, and the
  publish/subscribe envelope.  The state is the server's state and the instance's \<open>available\<close>
  flag.  \<open>now\<close> is the value \<open>time.time()\<close> gives in the operation.  The maintenance sweep makes
  several calls for each user; \<open>env\<close> is what other instances do to the server in between.
\<close>

subsection \<open>Configuration and keys\<close>

record backend_config =
  bc_instance_id :: string
  bc_key_prefix :: string
  bc_presence_ttl_seconds :: int
  bc_presence_heartbeat_seconds :: int
  bc_typing_ttl_micros :: int

definition backend_config_of :: "settings \<Rightarrow> string \<Rightarrow> backend_config" where
  "backend_config_of S instance_id =
     \<lparr>bc_instance_id = instance_id, bc_key_prefix = redis_key_prefix S,
      bc_presence_ttl_seconds = presence_ttl_seconds S,
      bc_presence_heartbeat_seconds = presence_heartbeat_seconds S,
      bc_typing_ttl_micros = typing_ttl_micros S\<rparr>"

record 'r realtime =
  rb_available :: bool
  rb_redis :: 'r

definition events_channel :: "backend_config \<Rightarrow> string" where
  "events_channel C = bc_key_prefix C @ '':realtime:events''"

definition presence_users_key :: "backend_config \<Rightarrow> string" where
  "presence_users_key C = bc_key_prefix C @ '':presence:users''"

definition typing_expirations_key :: "backend_config \<Rightarrow> string" where
  "typing_expirations_key C = bc_key_prefix C @ '':typing:expirations''"

definition typing_data_key :: "backend_config \<Rightarrow> string" where
  "typing_data_key C = bc_key_prefix C @ '':typing:data''"

definition presence_key :: "backend_config \<Rightarrow> uuid \<Rightarrow> string" where
  "presence_key C user_id = bc_key_prefix C @ '':presence:'' @ uuid_str user_id"

definition typing_member :: "uuid \<Rightarrow> uuid \<Rightarrow> string" where
  "typing_member conversation_id user_id = uuid_str conversation_id @ '':'' @ uuid_str user_id"

definition rate_key :: "backend_config \<Rightarrow> string \<Rightarrow> uuid \<Rightarrow> string" where
  "rate_key C action user_id =
     bc_key_prefix C @ '':rate:'' @ py_replace '':'' ''_'' action @ '':'' @ uuid_str user_id"

definition seconds :: "int \<Rightarrow> int" where
  "seconds n = n * 1000000"

subsection \<open>The scripts\<close>

definition presence_connect_script ::
  "'r redis \<Rightarrow> string \<Rightarrow> string \<Rightarrow> instant \<Rightarrow> instant \<Rightarrow> string \<Rightarrow> int \<Rightarrow> string \<Rightarrow> 'r \<Rightarrow> int \<times> 'r" where
  "presence_connect_script R key1 key2 now expires_at inst ttl user r =
     (let r = rd_zremrangebyscore R key1 now r;
          was_offline = (rd_zcard R key1 r = 0);
          r = rd_zadd R key1 expires_at inst r;
          r = rd_expire R key1 ttl r;
          r = rd_zadd R key2 expires_at user r
      in (if was_offline then 1 else 0, r))"

definition presence_disconnect_script ::
  "'r redis \<Rightarrow> string \<Rightarrow> string \<Rightarrow> string \<Rightarrow> instant \<Rightarrow> string \<Rightarrow> 'r \<Rightarrow> int \<times> 'r" where
  "presence_disconnect_script R key1 key2 inst now user r =
     (let r = snd (rd_zrem R key1 inst r);
          r = rd_zremrangebyscore R key1 now r
      in if rd_zcard R key1 r = 0 then (1, snd (rd_zrem R key2 user (rd_del R key1 r)))
         else (0, case rd_zlast R key1 r of None \<Rightarrow> r | Some (_, score) \<Rightarrow> rd_zadd R key2 score user r))"

fun collect_expired :: "'r redis \<Rightarrow> string \<Rightarrow> string \<Rightarrow> string list \<Rightarrow> 'r \<Rightarrow> string list \<times> 'r" where
  "collect_expired R key1 key2 [] r = ([], r)"
| "collect_expired R key1 key2 (member # rest) r =
     (let (n, r1) = rd_zrem R key1 member r
      in if n = 1 then
           let data = rd_hget R key2 member r1;
               (result, r2) = collect_expired R key1 key2 rest (rd_hdel R key2 member r1)
           in (case data of None \<Rightarrow> result | Some v \<Rightarrow> v # result, r2)
         else collect_expired R key1 key2 rest r1)"

definition typing_sweep_script :: "'r redis \<Rightarrow> string \<Rightarrow> string \<Rightarrow> instant \<Rightarrow> 'r \<Rightarrow> string list \<times> 'r" where
  "typing_sweep_script R key1 key2 now r =
     collect_expired R key1 key2 (rd_zrangebyscore R key1 now 100 r) r"

definition rate_limit_script :: "'r redis \<Rightarrow> string \<Rightarrow> int \<Rightarrow> int \<Rightarrow> 'r \<Rightarrow> int \<times> 'r" where
  "rate_limit_script R key limit window r =
     (let (count, r) = rd_incr R key r;
          r = (if count = 1 then rd_expire R key window r else r)
      in (if count \<le> limit then 1 else 0, r))"

subsection \<open>Presence and rate limits\<close>

definition redis_ping :: "'r redis \<Rightarrow> ('r, bool) op" where
  "redis_ping R = rask R (\<lambda>_. True)"

definition user_connected :: "'r redis \<Rightarrow> backend_config \<Rightarrow> instant \<Rightarrow> uuid \<Rightarrow> ('r, bool) op" where
  "user_connected R C now user_id =
     obind (rcall R (presence_connect_script R (presence_key C user_id) (presence_users_key C) now
         (now + seconds (bc_presence_ttl_seconds C)) (bc_instance_id C) (bc_presence_ttl_seconds C * 2)
         (uuid_str user_id))) (\<lambda>n. oreturn (n \<noteq> 0))"

definition user_disconnected :: "'r redis \<Rightarrow> backend_config \<Rightarrow> instant \<Rightarrow> uuid \<Rightarrow> ('r, bool) op" where
  "user_disconnected R C now user_id =
     obind (rcall R (presence_disconnect_script R (presence_key C user_id) (presence_users_key C)
         (bc_instance_id C) now (uuid_str user_id))) (\<lambda>n. oreturn (n \<noteq> 0))"

text \<open>The pipeline of \<open>online_user_ids\<close>: two commands per user, of which the second result is read.\<close>

fun presence_counts :: "'r redis \<Rightarrow> backend_config \<Rightarrow> instant \<Rightarrow> uuid list \<Rightarrow> 'r \<Rightarrow> int list \<times> 'r" where
  "presence_counts R C now [] r = ([], r)"
| "presence_counts R C now (u # us) r =
     (let r1 = rd_zremrangebyscore R (presence_key C u) now r;
          n = rd_zcard R (presence_key C u) r1;
          (ns, r2) = presence_counts R C now us r1
      in (n # ns, r2))"

definition redis_online_user_ids :: "'r redis \<Rightarrow> backend_config \<Rightarrow> instant \<Rightarrow> uuid list \<Rightarrow> ('r, uuid list) op" where
  "redis_online_user_ids R C now uids =
     (if uids = [] then oreturn []
      else obind (rcall R (presence_counts R C now uids)) (\<lambda>results.
        oreturn (map fst (filter (\<lambda>(u, n). 0 < n) (zip uids results)))))"

definition redis_allow_action :: "'r redis \<Rightarrow> backend_config \<Rightarrow> uuid \<Rightarrow> string \<Rightarrow> int \<Rightarrow> int \<Rightarrow> ('r, bool) op" where
  "redis_allow_action R C user_id action limit window_seconds =
     obind (rcall R (rate_limit_script R (rate_key C action user_id) limit window_seconds)) (\<lambda>n.
       oreturn (n \<noteq> 0))"

subsection \<open>Publishing and typing\<close>

definition on_redis :: "('r, 'a) op \<Rightarrow> ('r realtime, 'a) op" where
  "on_redis m s = (let (x, r) = m (rb_redis s) in (x, s\<lparr>rb_redis := r\<rparr>))"

definition uuid_strings :: "uuid list \<Rightarrow> json" where
  "uuid_strings uids = JArr (map (\<lambda>u. JStr (uuid_str u)) uids)"

definition envelope :: "backend_config \<Rightarrow> uuid list \<Rightarrow> json \<Rightarrow> json" where
  "envelope C uids event =
     JObj [(''source'', JStr (bc_instance_id C)), (''targets'', uuid_strings uids), (''event'', event)]"

definition redis_publish_users :: "'r redis \<Rightarrow> backend_config \<Rightarrow> uuid list \<Rightarrow> json \<Rightarrow> ('r realtime, bool) op" where
  "redis_publish_users R C uids event s =
     (if \<not> rb_available s then (Inr False, s)
      else obind (on_redis (rdo R (rd_publish R (events_channel C) (json_compact (envelope C uids event)))))
        (\<lambda>_. oreturn True) s)"

definition redis_typing_started ::
  "'r redis \<Rightarrow> backend_config \<Rightarrow> instant \<Rightarrow> uuid \<Rightarrow> uuid \<Rightarrow> uuid list \<Rightarrow> json \<Rightarrow> json \<Rightarrow> ('r realtime, bool) op" where
  "redis_typing_started R C now conversation_id user_id target_ids started_event stopped_event s =
     (if \<not> rb_available s then (Inr False, s)
      else
        let member = typing_member conversation_id user_id;
            expiration_data = json_compact (JObj [(''targets'', uuid_strings target_ids), (''event'', stopped_event)])
        in obind (on_redis (rdo R (\<lambda>r. rd_zadd R (typing_expirations_key C) (now + bc_typing_ttl_micros C) member
             (rd_hset R (typing_data_key C) member expiration_data r))))
           (\<lambda>_. redis_publish_users R C target_ids started_event) s)"

definition redis_typing_stopped ::
  "'r redis \<Rightarrow> backend_config \<Rightarrow> uuid \<Rightarrow> uuid \<Rightarrow> uuid list \<Rightarrow> json \<Rightarrow> ('r realtime, bool) op" where
  "redis_typing_stopped R C conversation_id user_id target_ids stopped_event s =
     (if \<not> rb_available s then (Inr False, s)
      else
        let member = typing_member conversation_id user_id
        in obind (on_redis (rdo R (\<lambda>r. rd_hdel R (typing_data_key C) member
             (snd (rd_zrem R (typing_expirations_key C) member r)))))
           (\<lambda>_. redis_publish_users R C target_ids stopped_event) s)"

subsection \<open>Receiving\<close>

datatype raw_data = RawStr string | RawBytes string | RawOther

text \<open>Iterating over a JSON value: a list's items, a string's characters, a dict's keys.\<close>

fun json_iter :: "json \<Rightarrow> json list result" where
  "json_iter (JArr vs) = Inr vs"
| "json_iter (JStr s) = Inr (map (\<lambda>c. JStr [c]) s)"
| "json_iter (JObj d) = Inr (map (\<lambda>p. JStr (fst p)) d)"
| "json_iter _ = Inl TypeError"

definition targets_and_event :: "string \<Rightarrow> (uuid list \<times> json) result" where
  "targets_and_event txt =
     ebind (json_loads txt) (\<lambda>payload.
     ebind (json_subscript payload ''targets'') (\<lambda>values.
     ebind (json_iter values) (\<lambda>values.
     ebind (traverse uuid_of_json values) (\<lambda>targets.
     ebind (json_subscript payload ''event'') (\<lambda>event. Inr (targets, event))))))"

text \<open>The \<open>except\<close> clause: the listed exceptions make the payload malformed, others go on.\<close>

fun ignore_malformed :: "'a result \<Rightarrow> 'a option result" where
  "ignore_malformed (Inr x) = Inr (Some x)"
| "ignore_malformed (Inl ValueError) = Inr None"
| "ignore_malformed (Inl TypeError) = Inr None"
| "ignore_malformed (Inl KeyError) = Inr None"
| "ignore_malformed (Inl e) = Inl e"

text \<open>What \<open>_deliver_envelope\<close> delivers: targets and an event, or nothing.\<close>

definition received_envelope :: "raw_data \<Rightarrow> (uuid list \<times> json_dict) option result" where
  "received_envelope raw =
     ebind (case raw of RawStr s \<Rightarrow> Inr (Some s) | RawBytes b \<Rightarrow> ebind (utf8_decode b) (\<lambda>s. Inr (Some s))
            | RawOther \<Rightarrow> Inr None) (\<lambda>txt.
     case txt of
       None \<Rightarrow> Inr None
     | Some txt \<Rightarrow>
         ebind (ignore_malformed (targets_and_event txt)) (\<lambda>parsed.
         case parsed of
           Some (targets, JObj event) \<Rightarrow> Inr (Some (targets, event))
         | _ \<Rightarrow> Inr None))"

subsection \<open>Maintenance\<close>

definition sweep_typing_data :: "'r redis \<Rightarrow> backend_config \<Rightarrow> string \<Rightarrow> ('r realtime, unit) op" where
  "sweep_typing_data R C raw s =
     (case ignore_malformed (targets_and_event raw) of
        Inl e \<Rightarrow> (Inl e, s)
      | Inr None \<Rightarrow> (Inr (), s)
      | Inr (Some (targets, event)) \<Rightarrow> obind (redis_publish_users R C targets event) (\<lambda>_. oreturn ()) s)"

definition sweep_typing :: "'r redis \<Rightarrow> backend_config \<Rightarrow> instant \<Rightarrow> ('r realtime, unit) op" where
  "sweep_typing R C now =
     obind (on_redis (rcall R (typing_sweep_script R (typing_expirations_key C) (typing_data_key C) now)))
       (oforeach (sweep_typing_data R C))"

text \<open>
  One user of \<open>_sweep_presence\<close>.  First the user is claimed in the index and loses the leases that
  ended: the answer is the user when no lease is left.  \<open>env\<close> 0 runs after the claim, 1 before the
  \<open>ZRANGE\<close>, 2 before the \<open>DEL\<close>, 3 before the final check; \<open>later\<close> is the instant of that check.
\<close>

definition end_presence ::
  "'r redis \<Rightarrow> backend_config \<Rightarrow> (nat \<Rightarrow> 'r \<Rightarrow> 'r) \<Rightarrow> instant \<Rightarrow> string \<Rightarrow> ('r, uuid option) op" where
  "end_presence R C env now user_value =
     obind (rcall R (rd_zrem R (presence_users_key C) user_value)) (\<lambda>claimed.
     if claimed = 0 then oreturn None
     else
       case uuid_of_string user_value of
         Inl ValueError \<Rightarrow> oreturn None
       | Inl e \<Rightarrow> oraise e
       | Inr user_id \<Rightarrow>
           let key = presence_key C user_id in
           obind (interleave (env 0)) (\<lambda>_.
           obind (rdo R (rd_zremrangebyscore R key now)) (\<lambda>_.
           obind (interleave (env 1)) (\<lambda>_.
           obind (rask R (rd_zlast R key)) (\<lambda>latest.
           obind (interleave (env 2)) (\<lambda>_.
           case latest of
             Some (_, score) \<Rightarrow>
               obind (rdo R (rd_zadd R (presence_users_key C) score user_value)) (\<lambda>_. oreturn None)
           | None \<Rightarrow> obind (rdo R (rd_del R key)) (\<lambda>_. oreturn (Some user_id))))))))"

text \<open>
  Then \<open>on_presence_expired\<close>, when there is one, is called for a user who is offline.  It works on
  the server and on what else the application has.
\<close>

definition sweep_presence_user ::
  "'r redis \<Rightarrow> backend_config \<Rightarrow> (uuid \<Rightarrow> ('r \<times> 'x, unit) op) option \<Rightarrow> (nat \<Rightarrow> 'r \<Rightarrow> 'r) \<Rightarrow> instant \<Rightarrow> instant \<Rightarrow> string \<Rightarrow>
     ('r \<times> 'x, unit) op" where
  "sweep_presence_user R C on_presence_expired env now later user_value =
     obind (on_first (end_presence R C env now user_value)) (\<lambda>ended.
     case (ended, on_presence_expired) of
       (Some user_id, Some expired) \<Rightarrow>
         obind (on_first (interleave (env 3))) (\<lambda>_.
         obind (on_first (redis_online_user_ids R C later [user_id])) (\<lambda>online.
         if online = [] then expired user_id else oreturn ()))
     | _ \<Rightarrow> oreturn ())"

text \<open>The loop over the users found; a failed call, or a failing \<open>on_presence_expired\<close>, ends it.\<close>

definition sweep_presence ::
  "'r redis \<Rightarrow> backend_config \<Rightarrow> (uuid \<Rightarrow> ('r \<times> 'x, unit) op) option \<Rightarrow> (string \<Rightarrow> nat \<Rightarrow> 'r \<Rightarrow> 'r) \<Rightarrow> instant \<Rightarrow> instant \<Rightarrow>
     ('r \<times> 'x, unit) op" where
  "sweep_presence R C on_presence_expired env now later =
     obind (on_first (rask R (rd_zrangebyscore R (presence_users_key C) now 100)))
       (oforeach (\<lambda>u. sweep_presence_user R C on_presence_expired (env u) now later u))"

subsection \<open>Presence as leases\<close>

text \<open>
  The specification: a user has leases, one per instance, each until an instant; the user is
  online while one of them runs.  Connecting renews the instance's lease and drops the others that
  ended, disconnecting drops it.
\<close>

type_synonym leases = "string \<Rightarrow> instant option"

definition live :: "instant \<Rightarrow> leases \<Rightarrow> bool" where
  "live now L \<longleftrightarrow> (\<exists>inst e. L inst = Some e \<and> now < e)"

definition lease_connect :: "instant \<Rightarrow> instant \<Rightarrow> string \<Rightarrow> leases \<Rightarrow> leases" where
  "lease_connect now expires_at inst L = (drop_upto now L)(inst \<mapsto> expires_at)"

definition lease_disconnect :: "instant \<Rightarrow> string \<Rightarrow> leases \<Rightarrow> leases" where
  "lease_disconnect now inst L = drop_upto now (L(inst := None))"

lemma live_iff_drop_upto: "live now L \<longleftrightarrow> drop_upto now L \<noteq> Map.empty"
  by (metis drop_upto_empty live_def not_less)

lemma live_drop_upto [simp]: "now \<le> later \<Longrightarrow> live later (drop_upto now L) \<longleftrightarrow> live later L"
  by (auto simp: live_def drop_upto_Some) (meson order_le_less_trans)

lemma presence_key_inject [simp]: "presence_key C u = presence_key C v \<longleftrightarrow> u = v"
  by (simp add: presence_key_def)

lemma presence_users_key_apart [simp]:
  "presence_key C u \<noteq> presence_users_key C" "presence_users_key C \<noteq> presence_key C u"
proof -
  have "presence_key C u \<noteq> presence_users_key C"
  proof
    assume "presence_key C u = presence_users_key C"
    then have "uuid_str u = ''users''" by (simp add: presence_key_def presence_users_key_def)
    then have "length (uuid_str u) = length ''users''" by simp
    then show False by simp
  qed
  then show "presence_key C u \<noteq> presence_users_key C" "presence_users_key C \<noteq> presence_key C u" by auto
qed

definition leases_of :: "('r \<Rightarrow> string \<Rightarrow> string \<Rightarrow> instant option) \<Rightarrow> backend_config \<Rightarrow> 'r \<Rightarrow> uuid \<Rightarrow> leases" where
  "leases_of zset C r u = zset r (presence_key C u)"

text \<open>The users index: the instant until which a user is known to be online.\<close>

definition indexed :: "('r \<Rightarrow> string \<Rightarrow> string \<Rightarrow> instant option) \<Rightarrow> backend_config \<Rightarrow> 'r \<Rightarrow> uuid \<Rightarrow> instant option" where
  "indexed zset C r u = zset r (presence_users_key C) (uuid_str u)"

context redis_sorted_sets
begin

lemma user_connected_result:
  assumes "rd_up R r" and expires: "expires = now + seconds (bc_presence_ttl_seconds C)"
  shows "\<exists>r'. user_connected R C now u r = (Inr (\<not> live now (leases_of zset C r u)), r') \<and> rd_up R r' \<and>
    leases_of zset C r' = (leases_of zset C r)(u := lease_connect now expires (bc_instance_id C) (leases_of zset C r u)) \<and>
    indexed zset C r' = (indexed zset C r)(u \<mapsto> expires)"
proof -
  have "(drop_upto now (zset r (presence_key C u)) = Map.empty) = (\<not> live now (leases_of zset C r u))"
    by (simp add: live_iff_drop_upto leases_of_def)
  then show ?thesis
    using assms(1)
    by (auto simp: user_connected_def presence_connect_script_def Let_def obind_def oreturn_def
        zcard_zero leases_of_def indexed_def lease_connect_def expires fun_eq_iff)
qed

lemma user_disconnected_result:
  assumes "rd_up R r" and left: "left = lease_disconnect now (bc_instance_id C) (leases_of zset C r u)"
  shows "\<exists>r'. user_disconnected R C now u r = (Inr (\<not> live now left), r') \<and> rd_up R r' \<and>
    leases_of zset C r' = (leases_of zset C r)(u := left)"
proof -
  let ?key = "presence_key C u"
  define r1 where "r1 = rd_zremrangebyscore R ?key now (snd (rd_zrem R ?key (bc_instance_id C) r))"
  have key: "zset r1 ?key = left" by (simp add: r1_def left lease_disconnect_def leases_of_def)
  have other: "v \<noteq> u \<Longrightarrow> zset r1 (presence_key C v) = zset r (presence_key C v)" for v by (simp add: r1_def)
  have up: "rd_up R r1" using assms(1) by (simp add: r1_def)
  have idem: "drop_upto now left = left" by (auto simp: left lease_disconnect_def drop_upto_def fun_eq_iff split: option.splits)
  then have "live now left \<longleftrightarrow> left \<noteq> Map.empty" by (simp add: live_iff_drop_upto)
  then have gone: "rd_zcard R ?key r1 = 0 \<longleftrightarrow> \<not> live now left" by (simp add: zcard_zero key)
  define r2 where "r2 = (if rd_zcard R ?key r1 = 0
    then snd (rd_zrem R (presence_users_key C) (uuid_str u) (rd_del R ?key r1))
    else case rd_zlast R ?key r1 of None \<Rightarrow> r1 | Some (_, score) \<Rightarrow> rd_zadd R (presence_users_key C) score (uuid_str u) r1)"
  have "user_disconnected R C now u r = (Inr (\<not> live now left), r2)"
    using assms(1) gone [unfolded r1_def]
    by (cases "rd_zlast R ?key r1")
      (auto simp: user_disconnected_def presence_disconnect_script_def Let_def obind_def oreturn_def r2_def r1_def)
  moreover have "zset r2 (presence_key C v) = (if v = u then left else zset r (presence_key C v))" for v
    using key other zcard_zero [of ?key r1] by (auto simp: r2_def split: option.splits)
  moreover have "rd_up R r2" using up by (auto simp: r2_def split: option.splits)
  ultimately show ?thesis by (auto simp: leases_of_def fun_eq_iff)
qed

lemma presence_counts_result:
  "\<exists>r'. presence_counts R C now us r = (map (\<lambda>u. int (card (dom (drop_upto now (leases_of zset C r u))))) us, r') \<and>
    rd_up R r' = rd_up R r \<and>
    (\<forall>u. leases_of zset C r' u = (if u \<in> set us then drop_upto now (leases_of zset C r u) else leases_of zset C r u)) \<and>
    indexed zset C r' = indexed zset C r"
proof (induction us arbitrary: r)
  case (Cons v us)
  define r1 where "r1 = rd_zremrangebyscore R (presence_key C v) now r"
  have r1: "leases_of zset C r1 u = (if u = v then drop_upto now (leases_of zset C r u) else leases_of zset C r u)"
    "rd_up R r1 = rd_up R r" "indexed zset C r1 = indexed zset C r" for u
    by (auto simp: r1_def leases_of_def indexed_def fun_eq_iff)
  have idem: "drop_upto now (drop_upto now L) = drop_upto now L" for L
    by (auto simp: drop_upto_def fun_eq_iff split: option.splits)
  obtain r' where r': "presence_counts R C now us r1 =
      (map (\<lambda>u. int (card (dom (drop_upto now (leases_of zset C r1 u))))) us, r')" "rd_up R r' = rd_up R r1"
    "\<forall>u. leases_of zset C r' u = (if u \<in> set us then drop_upto now (leases_of zset C r1 u) else leases_of zset C r1 u)"
    "indexed zset C r' = indexed zset C r1"
    using Cons.IH [of r1] by blast
  have "drop_upto now (leases_of zset C r1 u) = drop_upto now (leases_of zset C r u)" for u
    by (simp add: r1 idem)
  moreover have "rd_zcard R (presence_key C v) r1 = int (card (dom (drop_upto now (leases_of zset C r v))))"
    by (simp add: zcard r1_def leases_of_def)
  ultimately show ?case using r' r1 by (simp add: Let_def idem flip: r1_def)
qed simp

lemma online_user_ids_result:
  assumes "rd_up R r"
  shows "\<exists>r'. redis_online_user_ids R C now us r = (Inr (filter (\<lambda>u. live now (leases_of zset C r u)) us), r') \<and>
    rd_up R r' \<and> (\<forall>u. leases_of zset C r' u = (if u \<in> set us then drop_upto now (leases_of zset C r u) else leases_of zset C r u)) \<and>
    indexed zset C r' = indexed zset C r"
proof (cases "us = []")
  case True
  then show ?thesis using assms by (simp add: redis_online_user_ids_def oreturn_def)
next
  case False
  let ?n = "\<lambda>u. int (card (dom (drop_upto now (leases_of zset C r u))))"
  have "dom (drop_upto now (leases_of zset C r u)) \<subseteq> dom (leases_of zset C r u)" for u
    by (auto simp: drop_upto_Some dom_def)
  then have "finite (dom (drop_upto now (leases_of zset C r u)))" for u
    using finite_zset finite_subset unfolding leases_of_def by blast
  then have n: "0 < ?n u \<longleftrightarrow> live now (leases_of zset C r u)" for u
    by (simp add: live_iff_drop_upto card_gt_0_iff)
  have "map fst (filter (\<lambda>(u, n). 0 < n) (zip us (map ?n us))) = filter (\<lambda>u. live now (leases_of zset C r u)) us" for us
    by (induction us) (simp_all add: n [unfolded of_nat_0_less_iff])
  with presence_counts_result [of C now us r] assms False show ?thesis
    by (auto simp: redis_online_user_ids_def obind_def oreturn_def)
qed

end

subsection \<open>Any sequence of presence calls\<close>

datatype presence_call = Connected string uuid | Disconnected string uuid | Lookup "uuid list"

datatype presence_reply = Became bool | Online "uuid list"

text \<open>Calls made by the instances, each at its instant, on the server and on the specification.\<close>

definition with_instance :: "backend_config \<Rightarrow> string \<Rightarrow> backend_config" where
  "with_instance C inst = C\<lparr>bc_instance_id := inst\<rparr>"

definition presence_step ::
  "'r redis \<Rightarrow> backend_config \<Rightarrow> instant \<times> presence_call \<Rightarrow> ('r, presence_reply) op" where
  "presence_step R C = (\<lambda>(now, call).
     case call of
       Connected inst u \<Rightarrow> obind (user_connected R (with_instance C inst) now u) (\<lambda>b. oreturn (Became b))
     | Disconnected inst u \<Rightarrow> obind (user_disconnected R (with_instance C inst) now u) (\<lambda>b. oreturn (Became b))
     | Lookup us \<Rightarrow> obind (redis_online_user_ids R C now us) (\<lambda>us. oreturn (Online us)))"

fun run_presence ::
  "'r redis \<Rightarrow> backend_config \<Rightarrow> (instant \<times> presence_call) list \<Rightarrow> ('r, presence_reply list) op" where
  "run_presence R C [] = oreturn []"
| "run_presence R C (c # cs) =
     obind (presence_step R C c) (\<lambda>x. obind (run_presence R C cs) (\<lambda>xs. oreturn (x # xs)))"

definition lease_step ::
  "int \<Rightarrow> instant \<times> presence_call \<Rightarrow> (uuid \<Rightarrow> leases) \<Rightarrow> presence_reply \<times> (uuid \<Rightarrow> leases)" where
  "lease_step lifetime = (\<lambda>(now, call) L.
     case call of
       Connected inst u \<Rightarrow> (Became (\<not> live now (L u)), L(u := lease_connect now (now + lifetime) inst (L u)))
     | Disconnected inst u \<Rightarrow>
         (Became (\<not> live now (lease_disconnect now inst (L u))), L(u := lease_disconnect now inst (L u)))
     | Lookup us \<Rightarrow> (Online (filter (\<lambda>u. live now (L u)) us),
         \<lambda>u. if u \<in> set us then drop_upto now (L u) else L u))"

fun run_leases ::
  "int \<Rightarrow> (instant \<times> presence_call) list \<Rightarrow> (uuid \<Rightarrow> leases) \<Rightarrow> presence_reply list \<times> (uuid \<Rightarrow> leases)" where
  "run_leases lifetime [] L = ([], L)"
| "run_leases lifetime (c # cs) L =
     (let (x, L) = lease_step lifetime c L; (xs, L) = run_leases lifetime cs L in (x # xs, L))"

lemma with_instance_simps [simp]:
  "presence_key (with_instance C i) = presence_key C" "presence_users_key (with_instance C i) = presence_users_key C"
  "bc_instance_id (with_instance C i) = i" "bc_presence_ttl_seconds (with_instance C i) = bc_presence_ttl_seconds C"
  "leases_of zset (with_instance C i) = leases_of zset C" "indexed zset (with_instance C i) = indexed zset C"
  by (auto simp: with_instance_def presence_key_def presence_users_key_def leases_of_def indexed_def fun_eq_iff)

context redis_sorted_sets
begin

lemma presence_step_refines:
  assumes "rd_up R r"
  shows "\<exists>r'. presence_step R C c r =
      (Inr (fst (lease_step (seconds (bc_presence_ttl_seconds C)) c (leases_of zset C r))), r') \<and> rd_up R r' \<and>
    leases_of zset C r' = snd (lease_step (seconds (bc_presence_ttl_seconds C)) c (leases_of zset C r))"
proof -
  obtain now call where c: "c = (now, call)" by (cases c)
  show ?thesis
  proof (cases call)
    case (Connected i u)
    from user_connected_result [OF assms refl, where now = now and C = "with_instance C i" and u = u] Connected show ?thesis
      by (auto simp: c presence_step_def lease_step_def obind_def oreturn_def)
  next
    case (Disconnected i u)
    from user_disconnected_result [OF assms refl, where now = now and C = "with_instance C i" and u = u] Disconnected show ?thesis
      by (auto simp: c presence_step_def lease_step_def obind_def oreturn_def)
  next
    case (Lookup us)
    from online_user_ids_result [OF assms, of C now us] Lookup show ?thesis
      by (auto simp: c presence_step_def lease_step_def obind_def oreturn_def fun_eq_iff)
  qed
qed

lemma run_presence_refines:
  "rd_up R r \<Longrightarrow> \<exists>r'. run_presence R C cs r =
      (Inr (fst (run_leases (seconds (bc_presence_ttl_seconds C)) cs (leases_of zset C r))), r') \<and> rd_up R r' \<and>
    leases_of zset C r' = snd (run_leases (seconds (bc_presence_ttl_seconds C)) cs (leases_of zset C r))"
proof (induction cs arbitrary: r)
  case (Cons c cs)
  from presence_step_refines [OF Cons.prems, of C c] obtain r1 where r1: "presence_step R C c r =
      (Inr (fst (lease_step (seconds (bc_presence_ttl_seconds C)) c (leases_of zset C r))), r1)" "rd_up R r1"
    "leases_of zset C r1 = snd (lease_step (seconds (bc_presence_ttl_seconds C)) c (leases_of zset C r))" by blast
  from Cons.IH [OF r1(2)] r1 show ?case
    by (auto simp: obind_def oreturn_def Let_def split: prod.splits)
qed (simp add: oreturn_def)

end

text \<open>C16: Presence in Redis is the lease table of its specification: any sequence of connects, disconnects
  and lookups, by any instances at any instants, gets from the server exactly the answers of the
  table in which a user is online while one instance's lease runs, and leaves exactly its leases.\<close>

theorem presence_refines_leases:
  assumes "redis_sorted_sets R zset" and "rd_up R r"
  shows "\<exists>r'. run_presence R C calls r =
      (Inr (fst (run_leases (seconds (bc_presence_ttl_seconds C)) calls (leases_of zset C r))), r') \<and>
    leases_of zset C r' = snd (run_leases (seconds (bc_presence_ttl_seconds C)) calls (leases_of zset C r))"
  using redis_sorted_sets.run_presence_refines [OF assms] by blast

definition default_backend :: backend_config where
  "default_backend = backend_config_of default_settings ''a''"

theorem presence_refines_leases_witness:
  "\<exists>r'. run_presence memory_redis default_backend
      [(0, Connected ''a'' 1), (5, Connected ''b'' 1), (9, Disconnected ''a'' 1), (10, Lookup [1, 2])] empty_memory =
    (Inr [Became True, Became False, Became False, Online [1]], r')"
proof -
  have "leases_of mem_zset default_backend empty_memory = (\<lambda>_. Map.empty)"
    by (simp add: leases_of_def mem_zset_def empty_memory_def fun_eq_iff)
  moreover have "rd_up memory_redis empty_memory" by (simp add: memory_redis_def empty_memory_def)
  moreover have "fst (run_leases (seconds 30)
      [(0, Connected ''a'' 1), (5, Connected ''b'' 1), (9, Disconnected ''a'' 1), (10, Lookup [1, 2])] (\<lambda>_. Map.empty)) =
    [Became True, Became False, Became False, Online [1]]"
    by (simp add: lease_step_def lease_connect_def lease_disconnect_def live_def drop_upto_def seconds_def Let_def
        split: if_splits)
  ultimately show ?thesis
    using presence_refines_leases [OF memory_sets.redis_sorted_sets_axioms, of empty_memory default_backend
        "[(0, Connected ''a'' 1), (5, Connected ''b'' 1), (9, Disconnected ''a'' 1), (10, Lookup [1, 2])]"]
    by (auto simp: default_backend_def backend_config_of_def)
qed

end
