(* ===== verification/Manager.thy ===== *)
theory Manager
  imports Realtime
begin

section \<open>The connection manager (websocket/manager.py)\<close>

text \<open>
  The sockets of this instance by user, the distributed backend when one is attached, and the
  fallback tracker of typing notices.  A socket is a number; \<open>mg_net\<close> says what sending on it
  does: None when the frame is sent, an exception otherwise (\<open>RuntimeError\<close> for a closed one).
  Frames sent are recorded in order.  Operations run without interleaving; what other tasks do in
  between two of them is a step of its own.
\<close>

subsection \<open>The backend's interface\<close>

text \<open>The protocol \<open>DistributedRealtimeBackend\<close>: one operation per method.\<close>

record 'b backend =
  be_available :: "'b \<Rightarrow> bool"
  be_publish_users :: "uuid list \<Rightarrow> json \<Rightarrow> ('b, bool) op"
  be_user_connected :: "uuid \<Rightarrow> ('b, bool) op"
  be_user_disconnected :: "uuid \<Rightarrow> ('b, bool) op"
  be_online_user_ids :: "uuid list \<Rightarrow> ('b, uuid list) op"
  be_allow_action :: "uuid \<Rightarrow> string \<Rightarrow> int \<Rightarrow> int \<Rightarrow> ('b, bool) op"
  be_typing_started :: "uuid \<Rightarrow> uuid \<Rightarrow> uuid list \<Rightarrow> json \<Rightarrow> json \<Rightarrow> ('b, bool) op"
  be_typing_stopped :: "uuid \<Rightarrow> uuid \<Rightarrow> uuid list \<Rightarrow> json \<Rightarrow> ('b, bool) op"

text \<open>The Redis backend as one, at an instant.\<close>

definition redis_backend :: "'r redis \<Rightarrow> backend_config \<Rightarrow> instant \<Rightarrow> 'r realtime backend" where
  "redis_backend R C now = \<lparr>
     be_available = rb_available,
     be_publish_users = redis_publish_users R C,
     be_user_connected = (\<lambda>u. on_redis (user_connected R C now u)),
     be_user_disconnected = (\<lambda>u. on_redis (user_disconnected R C now u)),
     be_online_user_ids = (\<lambda>us. on_redis (redis_online_user_ids R C now us)),
     be_allow_action = (\<lambda>u action limit window. on_redis (redis_allow_action R C u action limit window)),
     be_typing_started = redis_typing_started R C now,
     be_typing_stopped = redis_typing_stopped R C\<rparr>"

text \<open>
  What the manager relies on: an unavailable backend does nothing when asked to publish, and a
  lookup answers with users it was asked about.
\<close>

locale distributed_backend =
  fixes B :: "'b backend"
  assumes publish_unavailable: "\<not> be_available B b \<Longrightarrow> be_publish_users B us ev b = (Inr False, b)"
    and online_among: "be_online_user_ids B us b = (Inr xs, b') \<Longrightarrow> set xs \<subseteq> set us"

lemma redis_online_among:
  "redis_online_user_ids R C now us r = (Inr xs, r') \<Longrightarrow> set xs \<subseteq> set us"
  by (auto simp: redis_online_user_ids_def oreturn_def obind_Inr_iff split: if_splits dest!: set_zip_leftD)

interpretation redis_backend: distributed_backend "redis_backend R C now"
  by unfold_locales
    (auto simp: redis_backend_def redis_publish_users_def on_redis_def Let_def
      split: prod.splits dest!: redis_online_among)

subsection \<open>State\<close>

type_synonym websocket = nat

record typing_task =
  tt_deadline :: instant
  tt_targets :: "uuid list"
  tt_event :: json

record 'b manager =
  mg_connections :: "(uuid \<times> websocket list) list" \<comment> \<open>a dict of sets\<close>
  mg_backend :: "'b option"
  mg_tasks :: "((uuid \<times> uuid) \<times> typing_task) list"
  mg_net :: "websocket \<Rightarrow> exc option"
  mg_frames :: "(websocket \<times> json) list"

definition connections_of :: "'b manager \<Rightarrow> uuid \<Rightarrow> websocket list" where
  "connections_of m u = (case map_of (mg_connections m) u of None \<Rightarrow> [] | Some ws \<Rightarrow> ws)"

definition set_connections :: "uuid \<Rightarrow> websocket list \<Rightarrow> 'b manager \<Rightarrow> 'b manager" where
  "set_connections u ws m = m\<lparr>mg_connections := AList.update u ws (mg_connections m)\<rparr>"

definition pop_connections :: "uuid \<Rightarrow> 'b manager \<Rightarrow> 'b manager" where
  "pop_connections u m = m\<lparr>mg_connections := AList.delete u (mg_connections m)\<rparr>"

definition attach_backend :: "'b \<Rightarrow> 'b manager \<Rightarrow> 'b manager" where
  "attach_backend b m = m\<lparr>mg_backend := Some b\<rparr>"

text \<open>\<open>attached\<close> says whether the backend given is the object attached.\<close>

definition detach_backend :: "bool \<Rightarrow> 'b manager \<Rightarrow> 'b manager" where
  "detach_backend attached m = (if attached then m\<lparr>mg_backend := None\<rparr> else m)"

definition distributed :: "'b backend \<Rightarrow> 'b manager \<Rightarrow> bool" where
  "distributed B m = (case mg_backend m of None \<Rightarrow> False | Some b \<Rightarrow> be_available B b)"

text \<open>
  A call to the backend when it is attached and available, with the exception, if any, logged:
  None stands for both ways of not getting an answer.
\<close>

definition ask_backend :: "'b backend \<Rightarrow> ('b, 'a) op \<Rightarrow> 'b manager \<Rightarrow> 'a option \<times> 'b manager" where
  "ask_backend B call m =
     (case mg_backend m of
        None \<Rightarrow> (None, m)
      | Some b \<Rightarrow>
          if \<not> be_available B b then (None, m)
          else case call b of
            (Inl e, b') \<Rightarrow> (None, m\<lparr>mg_backend := Some b'\<rparr>)
          | (Inr x, b') \<Rightarrow> (Some x, m\<lparr>mg_backend := Some b'\<rparr>))"

subsection \<open>Connections\<close>

text \<open>\<open>accepted\<close> is the outcome of \<open>websocket.accept\<close>.\<close>

definition connect :: "'b backend \<Rightarrow> unit result \<Rightarrow> uuid \<Rightarrow> websocket \<Rightarrow> ('b manager, bool) op" where
  "connect B accepted user_id ws m =
     (case accepted of
        Inl e \<Rightarrow> (Inl e, m)
      | Inr _ \<Rightarrow>
          let was_locally_offline = (connections_of m user_id = []);
              m1 = set_connections user_id (List.insert ws (connections_of m user_id)) m
          in if was_locally_offline
             then (case ask_backend B (be_user_connected B user_id) m1 of
                     (Some b, m2) \<Rightarrow> (Inr b, m2)
                   | (None, m2) \<Rightarrow> (Inr was_locally_offline, m2))
             else (Inr was_locally_offline, m1))"

definition disconnect :: "'b backend \<Rightarrow> uuid \<Rightarrow> websocket \<Rightarrow> 'b manager \<Rightarrow> bool \<times> 'b manager" where
  "disconnect B user_id ws m =
     (case map_of (mg_connections m) user_id of
        None \<Rightarrow> (False, m)
      | Some connections \<Rightarrow>
          let left = removeAll ws connections in
          if left \<noteq> [] then (False, set_connections user_id left m)
          else (case ask_backend B (be_user_disconnected B user_id) (pop_connections user_id m) of
                  (Some b, m2) \<Rightarrow> (b, m2)
                | (None, m2) \<Rightarrow> (True, m2)))"

definition local_user_ids :: "'b manager \<Rightarrow> uuid list" where
  "local_user_ids m = map fst (mg_connections m)"

definition connection_count :: "uuid \<Rightarrow> 'b manager \<Rightarrow> nat" where
  "connection_count user_id m = length (connections_of m user_id)"

subsection \<open>Delivery\<close>

definition send_json :: "json \<Rightarrow> websocket \<Rightarrow> ('b manager, unit) op" where
  "send_json event ws m =
     (case mg_net m ws of
        None \<Rightarrow> (Inr (), m\<lparr>mg_frames := mg_frames m @ [(ws, event)]\<rparr>)
      | Some e \<Rightarrow> (Inl e, m))"

text \<open>The loop over the snapshot: the stale sockets, or an exception other than \<open>RuntimeError\<close>.\<close>

fun send_all :: "json \<Rightarrow> websocket list \<Rightarrow> ('b manager, websocket list) op" where
  "send_all event [] m = (Inr [], m)"
| "send_all event (ws # rest) m =
     (case send_json event ws m of
        (Inr _, m1) \<Rightarrow> send_all event rest m1
      | (Inl RuntimeError, m1) \<Rightarrow> obind (send_all event rest) (\<lambda>stale. oreturn (ws # stale)) m1
      | (Inl e, m1) \<Rightarrow> (Inl e, m1))"

fun drop_stale :: "'b backend \<Rightarrow> uuid \<Rightarrow> websocket list \<Rightarrow> 'b manager \<Rightarrow> 'b manager" where
  "drop_stale B user_id [] m = m"
| "drop_stale B user_id (ws # rest) m = drop_stale B user_id rest (snd (disconnect B user_id ws m))"

definition deliver_to_user_local :: "'b backend \<Rightarrow> json \<Rightarrow> uuid \<Rightarrow> ('b manager, unit) op" where
  "deliver_to_user_local B event user_id m =
     obind (send_all event (connections_of m user_id))
       (\<lambda>stale m. (Inr (), drop_stale B user_id stale m)) m"

text \<open>\<open>asyncio.gather\<close>: every delivery runs; the first exception is raised when one fails.\<close>

fun deliver_to_users_local :: "'b backend \<Rightarrow> uuid list \<Rightarrow> json \<Rightarrow> ('b manager, unit) op" where
  "deliver_to_users_local B [] event m = (Inr (), m)"
| "deliver_to_users_local B (u # us) event m =
     (case deliver_to_user_local B event u m of
        (Inr _, m1) \<Rightarrow> deliver_to_users_local B us event m1
      | (Inl e, m1) \<Rightarrow> (Inl e, snd (deliver_to_users_local B us event m1)))"

text \<open>\<open>dict.fromkeys\<close> keeps the first occurrences.\<close>

fun first_occurrences :: "'a list \<Rightarrow> 'a list" where
  "first_occurrences [] = []"
| "first_occurrences (x # xs) = x # filter (\<lambda>y. y \<noteq> x) (first_occurrences xs)"

definition send_to_users :: "'b backend \<Rightarrow> uuid list \<Rightarrow> json \<Rightarrow> uuid option \<Rightarrow> ('b manager, unit) op" where
  "send_to_users B us event exclude_user_id m =
     (let targets = first_occurrences (filter (\<lambda>u. Some u \<noteq> exclude_user_id) us) in
      if targets = [] then (Inr (), m)
      else case ask_backend B (be_publish_users B targets event) m of
        (Some True, m1) \<Rightarrow> (Inr (), m1)
      | (_, m1) \<Rightarrow> deliver_to_users_local B targets event m1)"

definition send_to_user :: "'b backend \<Rightarrow> uuid \<Rightarrow> json \<Rightarrow> ('b manager, unit) op" where
  "send_to_user B user_id event = send_to_users B [user_id] event None"

subsection \<open>Presence and limits\<close>

definition online_user_ids :: "'b backend \<Rightarrow> uuid list \<Rightarrow> 'b manager \<Rightarrow> uuid list \<times> 'b manager" where
  "online_user_ids B us m =
     (case ask_backend B (be_online_user_ids B us) m of
        (Some xs, m1) \<Rightarrow> (xs, m1)
      | (None, m1) \<Rightarrow> (filter (\<lambda>u. connections_of m1 u \<noteq> []) us, m1))"

definition is_online :: "'b backend \<Rightarrow> uuid \<Rightarrow> 'b manager \<Rightarrow> bool \<times> 'b manager" where
  "is_online B user_id m = apfst (\<lambda>us. us \<noteq> []) (online_user_ids B [user_id] m)"

definition allow_action :: "'b backend \<Rightarrow> uuid \<Rightarrow> string \<Rightarrow> int \<Rightarrow> int \<Rightarrow> 'b manager \<Rightarrow> bool \<times> 'b manager" where
  "allow_action B user_id action limit window_seconds m =
     (case ask_backend B (be_allow_action B user_id action limit window_seconds) m of
        (Some b, m1) \<Rightarrow> (b, m1)
      | (None, m1) \<Rightarrow> (True, m1))"

subsection \<open>Typing\<close>

text \<open>The tracker: starting replaces a running task, stopping cancels it, and a task that ends pops itself.\<close>

definition tracker_stop :: "uuid \<Rightarrow> uuid \<Rightarrow> 'b manager \<Rightarrow> 'b manager" where
  "tracker_stop conversation_id user_id m =
     m\<lparr>mg_tasks := AList.delete (conversation_id, user_id) (mg_tasks m)\<rparr>"

definition tracker_start :: "int \<Rightarrow> instant \<Rightarrow> uuid \<Rightarrow> uuid \<Rightarrow> uuid list \<Rightarrow> json \<Rightarrow> 'b manager \<Rightarrow> 'b manager" where
  "tracker_start ttl now conversation_id user_id targets stopped_event m =
     (let m1 = tracker_stop conversation_id user_id m
      in m1\<lparr>mg_tasks := AList.update (conversation_id, user_id)
             \<lparr>tt_deadline = now + ttl, tt_targets = targets, tt_event = stopped_event\<rparr> (mg_tasks m1)\<rparr>)"

definition tracker_expire :: "'b backend \<Rightarrow> instant \<Rightarrow> uuid \<times> uuid \<Rightarrow> ('b manager, unit) op" where
  "tracker_expire B now key m =
     (case map_of (mg_tasks m) key of
        None \<Rightarrow> (Inr (), m)
      | Some task \<Rightarrow>
          if now < tt_deadline task then (Inr (), m)
          else send_to_users B (tt_targets task) (tt_event task) None (m\<lparr>mg_tasks := AList.delete key (mg_tasks m)\<rparr>))"

definition typing_ttl :: int where
  "typing_ttl = 5000000"

definition typing_start ::
  "'b backend \<Rightarrow> instant \<Rightarrow> uuid \<Rightarrow> uuid \<Rightarrow> uuid list \<Rightarrow> json \<Rightarrow> json \<Rightarrow> ('b manager, unit) op" where
  "typing_start B now conversation_id user_id member_list started_event stopped_event m =
     (let targets = filter (\<lambda>u. u \<noteq> user_id) member_list in
      case ask_backend B (be_typing_started B conversation_id user_id targets started_event stopped_event) m of
        (Some True, m1) \<Rightarrow> (Inr (), m1)
      | (_, m1) \<Rightarrow> send_to_users B targets started_event None
          (tracker_start typing_ttl now conversation_id user_id targets stopped_event m1))"

definition typing_stop ::
  "'b backend \<Rightarrow> uuid \<Rightarrow> uuid \<Rightarrow> uuid list \<Rightarrow> json \<Rightarrow> ('b manager, unit) op" where
  "typing_stop B conversation_id user_id member_list stopped_event m =
     (let targets = filter (\<lambda>u. u \<noteq> user_id) member_list in
      case ask_backend B (be_typing_stopped B conversation_id user_id targets stopped_event)
             (tracker_stop conversation_id user_id m) of
        (Some True, m1) \<Rightarrow> (Inr (), m1)
      | (_, m1) \<Rightarrow> send_to_users B targets stopped_event None m1)"

subsection \<open>The connection table\<close>

definition manager_ok :: "'b manager \<Rightarrow> bool" where
  "manager_ok m \<longleftrightarrow> distinct (map fst (mg_connections m)) \<and>
     (\<forall>(u, ws) \<in> set (mg_connections m). ws \<noteq> [] \<and> distinct ws)"

definition new_manager :: "(websocket \<Rightarrow> exc option) \<Rightarrow> 'b manager" where
  "new_manager net = \<lparr>mg_connections = [], mg_backend = None, mg_tasks = [], mg_net = net, mg_frames = []\<rparr>"

lemma connections_of_set [simp]:
  "connections_of (set_connections u ws m) v = (if v = u then ws else connections_of m v)"
  by (simp add: connections_of_def set_connections_def update_conv')

lemma connections_of_pop [simp]:
  "connections_of (pop_connections u m) v = (if v = u then [] else connections_of m v)"
  by (simp add: connections_of_def pop_connections_def AList.delete_conv')

lemma map_of_delete_None: "map_of (AList.delete u l) v = (if v = u then None else map_of l v)"
  by (simp add: AList.delete_conv')

lemma manager_ok_set: "manager_ok m \<Longrightarrow> ws \<noteq> [] \<Longrightarrow> distinct ws \<Longrightarrow> manager_ok (set_connections u ws m)"
proof -
  assume *: "manager_ok m" "ws \<noteq> []" "distinct ws"
  have "(v, xs) \<in> set (AList.update u ws l) \<Longrightarrow> (v, xs) = (u, ws) \<or> (v, xs) \<in> set l" for v xs l
    by (induction l) (auto split: if_splits)
  with * show ?thesis by (fastforce simp: manager_ok_def set_connections_def distinct_update)
qed

lemma manager_ok_pop: "manager_ok m \<Longrightarrow> manager_ok (pop_connections u m)"
proof -
  assume "manager_ok m"
  moreover have "set (AList.delete u l) \<subseteq> set l" for l :: "(uuid \<times> websocket list) list"
    by (auto simp: AList.delete_eq)
  ultimately show ?thesis by (fastforce simp: manager_ok_def pop_connections_def distinct_delete)
qed

lemma manager_ok_connections:
  assumes "manager_ok m"
  shows "distinct (connections_of m u)" and "map_of (mg_connections m) u = (if connections_of m u = [] then None else Some (connections_of m u))"
proof -
  show "distinct (connections_of m u)"
    using assms by (auto simp: manager_ok_def connections_of_def split: option.splits dest!: map_of_SomeD)
  show "map_of (mg_connections m) u = (if connections_of m u = [] then None else Some (connections_of m u))"
    using assms by (auto simp: manager_ok_def connections_of_def split: option.splits dest!: map_of_SomeD)
qed

lemma local_user_ids_iff: "manager_ok m \<Longrightarrow> u \<in> set (local_user_ids m) \<longleftrightarrow> connections_of m u \<noteq> []"
  using manager_ok_connections(2) [of m u] map_of_eq_None_iff [of "mg_connections m" u]
  by (simp add: local_user_ids_def split: if_splits)

text \<open>What the backend is asked leaves everything of the manager but the backend as it is.\<close>

lemma ask_backend_frame:
  assumes "ask_backend B call m = (x, m')"
  obtains bk where "m' = m\<lparr>mg_backend := bk\<rparr>" and "mg_backend m = None \<Longrightarrow> bk = None"
proof (cases "mg_backend m")
  case None
  then have "m' = m\<lparr>mg_backend := mg_backend m\<rparr>" using assms by (simp add: ask_backend_def)
  then have "m' = m\<lparr>mg_backend := None\<rparr>" by (simp only: None)
  then show thesis by (rule that) simp
next
  case (Some b)
  show thesis
  proof (cases "be_available B b")
    case True
    obtain y b' where "call b = (y, b')" by (cases "call b")
    then have "m' = m\<lparr>mg_backend := Some b'\<rparr>" using assms Some True by (cases y) (auto simp: ask_backend_def)
    then show thesis by (rule that) (simp add: Some)
  next
    case False
    then have "m' = m\<lparr>mg_backend := mg_backend m\<rparr>" using assms Some by (simp add: ask_backend_def)
    then have "m' = m\<lparr>mg_backend := Some b\<rparr>" by (simp only: Some)
    then show thesis by (rule that) (simp add: Some)
  qed
qed

lemma backend_frame [simp]:
  "manager_ok (m\<lparr>mg_backend := bk\<rparr>) = manager_ok m" "connections_of (m\<lparr>mg_backend := bk\<rparr>) u = connections_of m u"
  by (simp_all add: manager_ok_def connections_of_def)

lemma table_frame [simp]:
  "mg_frames (set_connections u ws m) = mg_frames m" "mg_net (set_connections u ws m) = mg_net m"
  "mg_backend (set_connections u ws m) = mg_backend m" "mg_tasks (set_connections u ws m) = mg_tasks m"
  "mg_frames (pop_connections u m) = mg_frames m" "mg_net (pop_connections u m) = mg_net m"
  "mg_backend (pop_connections u m) = mg_backend m" "mg_tasks (pop_connections u m) = mg_tasks m"
  by (simp_all add: set_connections_def pop_connections_def)

lemma ask_backend_none [simp]: "\<not> distributed B m \<Longrightarrow> ask_backend B call m = (None, m)"
  by (simp add: distributed_def ask_backend_def split: option.splits)

lemma distributed_frame [simp]:
  "distributed B (set_connections u ws m) = distributed B m" "distributed B (pop_connections u m) = distributed B m"
  by (simp_all add: distributed_def set_connections_def pop_connections_def)

lemma connect_result:
  assumes "connect B (Inr ()) u ws m = (r, m')"
  obtains bk where "m' = (set_connections u (List.insert ws (connections_of m u)) m)\<lparr>mg_backend := bk\<rparr>"
    and "mg_backend m = None \<Longrightarrow> bk = None"
proof (cases "connections_of m u = []")
  case True
  let ?m1 = "set_connections u (List.insert ws (connections_of m u)) m"
  obtain x m2 where ask: "ask_backend B (be_user_connected B u) ?m1 = (x, m2)"
    by (cases "ask_backend B (be_user_connected B u) ?m1")
  then have "m' = m2" using assms True by (cases x) (simp_all add: connect_def Let_def)
  with ask_backend_frame [OF ask] that show thesis by (metis table_frame(3))
next
  case False
  then have "m' = set_connections u (List.insert ws (connections_of m u)) m"
    using assms by (simp add: connect_def Let_def)
  then have "m' = (set_connections u (List.insert ws (connections_of m u)) m)\<lparr>mg_backend := mg_backend m\<rparr>"
    by (simp add: set_connections_def)
  then show thesis by (rule that)
qed

lemma disconnect_result:
  assumes "manager_ok m" and "disconnect B u ws m = (b, m')"
  obtains (offline) "connections_of m u = []" "b = False" "m' = m"
    | (remains) "removeAll ws (connections_of m u) \<noteq> []" "b = False" "m' = set_connections u (removeAll ws (connections_of m u)) m"
    | (last) bk where "connections_of m u \<noteq> []" "removeAll ws (connections_of m u) = []"
        "m' = (pop_connections u m)\<lparr>mg_backend := bk\<rparr>" "mg_backend m = None \<Longrightarrow> bk = None"
        "\<not> distributed B m \<Longrightarrow> b"
proof (cases "connections_of m u = [] \<or> removeAll ws (connections_of m u) \<noteq> []")
  case True
  with assms(2) manager_ok_connections(2) [OF assms(1), of u] offline remains show thesis
    by (auto simp: disconnect_def Let_def split: if_splits)
next
  case False
  obtain x m2 where ask: "ask_backend B (be_user_disconnected B u) (pop_connections u m) = (x, m2)"
    by (cases "ask_backend B (be_user_disconnected B u) (pop_connections u m)")
  have "m' = m2 \<and> (x = None \<longrightarrow> b)"
    using assms(2) False manager_ok_connections(2) [OF assms(1), of u] ask
    by (cases x) (simp_all add: disconnect_def Let_def)
  moreover have "\<not> distributed B m \<Longrightarrow> x = None" using ask by simp
  ultimately show thesis using ask_backend_frame [OF ask] last False by (metis table_frame(7))
qed

lemma connect_connections:
  assumes "manager_ok m" and "connect B (Inr ()) u ws m = (r, m')"
  shows "manager_ok m'" and "connections_of m' v = (if v = u then List.insert ws (connections_of m u) else connections_of m v)"
proof -
  have "manager_ok (set_connections u (List.insert ws (connections_of m u)) m)"
    using manager_ok_connections(1) [OF assms(1)]
    by (intro manager_ok_set assms(1)) (auto simp: List.insert_def)
  with connect_result [OF assms(2)] show "manager_ok m'"
    "connections_of m' v = (if v = u then List.insert ws (connections_of m u) else connections_of m v)"
    by (metis backend_frame(1), metis backend_frame(2) connections_of_set)
qed

lemma disconnect_connections:
  assumes "manager_ok m" and "disconnect B u ws m = (b, m')"
  shows "manager_ok m'" and "connections_of m' v = (if v = u then removeAll ws (connections_of m u) else connections_of m v)"
    and "mg_frames m' = mg_frames m" and "mg_net m' = mg_net m"
proof -
  have "distinct (removeAll ws (connections_of m u))"
    using manager_ok_connections(1) [OF assms(1)] by (simp add: removeAll_filter_not_eq)
  with assms(1) have "manager_ok m' \<and>
      connections_of m' v = (if v = u then removeAll ws (connections_of m u) else connections_of m v) \<and>
      mg_frames m' = mg_frames m \<and> mg_net m' = mg_net m"
    using assms(2) by (cases rule: disconnect_result [OF assms]) (auto intro: manager_ok_set manager_ok_pop)
  then show "manager_ok m'" "connections_of m' v = (if v = u then removeAll ws (connections_of m u) else connections_of m v)"
    "mg_frames m' = mg_frames m" "mg_net m' = mg_net m" by auto
qed

subsection \<open>Presence without a backend\<close>

datatype socket_event = Opened uuid websocket | Closed uuid websocket

fun socket_step :: "'b backend \<Rightarrow> socket_event \<Rightarrow> 'b manager \<Rightarrow> bool \<times> 'b manager" where
  "socket_step B (Opened u ws) m = (case connect B (Inr ()) u ws m of (Inr b, m') \<Rightarrow> (b, m') | (Inl e, m') \<Rightarrow> (False, m'))"
| "socket_step B (Closed u ws) m = disconnect B u ws m"

fun run_sockets :: "'b backend \<Rightarrow> socket_event list \<Rightarrow> 'b manager \<Rightarrow> bool list \<times> 'b manager" where
  "run_sockets B [] m = ([], m)"
| "run_sockets B (e # es) m =
     (let (b, m1) = socket_step B e m; (bs, m2) = run_sockets B es m1 in (b # bs, m2))"

text \<open>How often a user was reported to have come online, and to have gone offline.\<close>

definition came_online :: "uuid \<Rightarrow> socket_event list \<Rightarrow> bool list \<Rightarrow> nat" where
  "came_online u es bs = length (filter (\<lambda>(e, b). b \<and> (\<exists>ws. e = Opened u ws)) (zip es bs))"

definition went_offline :: "uuid \<Rightarrow> socket_event list \<Rightarrow> bool list \<Rightarrow> nat" where
  "went_offline u es bs = length (filter (\<lambda>(e, b). b \<and> (\<exists>ws. e = Closed u ws)) (zip es bs))"

lemma local_connect:
  assumes "manager_ok m" and "mg_backend m = None" and "connect B (Inr ()) u ws m = (r, m')"
  shows "r = Inr (connections_of m u = [])" and "mg_backend m' = None" and "manager_ok m'"
    and "connections_of m' v = (if v = u then List.insert ws (connections_of m u) else connections_of m v)"
proof -
  have "\<not> distributed B m" using assms(2) by (simp add: distributed_def)
  with assms show "r = Inr (connections_of m u = [])" "mg_backend m' = None"
    by (auto simp: connect_def Let_def split: if_splits)
qed (use connect_connections [OF assms(1,3)] in auto)

lemma local_disconnect:
  assumes "manager_ok m" and "mg_backend m = None" and "disconnect B u ws m = (b, m')"
  shows "b \<longleftrightarrow> connections_of m u \<noteq> [] \<and> removeAll ws (connections_of m u) = []" and "mg_backend m' = None"
    and "manager_ok m'"
    and "connections_of m' v = (if v = u then removeAll ws (connections_of m u) else connections_of m v)"
proof -
  have "\<not> distributed B m" using assms(2) by (simp add: distributed_def)
  with assms(2) have "(b \<longleftrightarrow> connections_of m u \<noteq> [] \<and> removeAll ws (connections_of m u) = []) \<and> mg_backend m' = None"
    by (cases rule: disconnect_result [OF assms(1,3)]) auto
  then show "b \<longleftrightarrow> connections_of m u \<noteq> [] \<and> removeAll ws (connections_of m u) = []" "mg_backend m' = None" by auto
qed (use disconnect_connections [OF assms(1,3)] in auto)

lemma run_sockets_edges:
  "manager_ok m \<Longrightarrow> mg_backend m = None \<Longrightarrow> run_sockets B es m = (bs, m') \<Longrightarrow>
    manager_ok m' \<and> (if connections_of m u \<noteq> [] then 1 else 0) + came_online u es bs =
      went_offline u es bs + (if connections_of m' u \<noteq> [] then 1 else 0)"
proof (induction es arbitrary: m bs)
  case Nil
  then show ?case by (simp add: came_online_def went_offline_def)
next
  case (Cons e es)
  obtain b m1 where step: "socket_step B e m = (b, m1)" by (cases "socket_step B e m")
  obtain bs1 where run: "run_sockets B es m1 = (bs1, m')" "bs = b # bs1"
    using Cons.prems(3) step by (auto simp: Let_def split: prod.splits)
  show ?case
  proof (cases e)
    case (Opened v ws)
    obtain r0 m2 where rm: "connect B (Inr ()) v ws m = (r0, m2)" by (cases "connect B (Inr ()) v ws m")
    with step Opened local_connect(1) [OF Cons.prems(1,2) rm]
    have r: "connect B (Inr ()) v ws m = (Inr b, m1)" by simp
    note c = local_connect [OF Cons.prems(1,2) r]
    have edge: "List.insert ws (connections_of m v) \<noteq> []" by (auto simp: List.insert_def)
    from Cons.IH [OF c(3,2) run(1)] c(1) c(4) [of u] edge Opened run(2) show ?thesis
      by (cases "v = u") (auto simp: came_online_def went_offline_def)
  next
    case (Closed v ws)
    then have d: "disconnect B v ws m = (b, m1)" using step by simp
    note c = local_disconnect [OF Cons.prems(1,2) d]
    from Cons.IH [OF c(3,2) run(1)] c(1) c(4) [of u] Closed run(2) show ?thesis
      by (cases "v = u") (auto simp: came_online_def went_offline_def)
  qed
qed

text \<open>A user comes online and goes offline in turn: through any sequence of sockets opening and closing
  on an instance without a backend, a user with no socket at first has been reported online exactly
  once more than offline if the user still has a socket, and equally often otherwise.\<close>

theorem presence_reports_alternate:
  assumes "manager_ok m" and "mg_backend m = None" and "connections_of m u = []"
    and "run_sockets B events m = (reports, m')"
  shows "came_online u events reports = went_offline u events reports + (if u \<in> set (local_user_ids m') then 1 else 0)"
  using run_sockets_edges [OF assms(1,2,4), of u] assms(3) local_user_ids_iff [of m' u] by auto

definition idle_backend :: "unit realtime backend" where
  "idle_backend = redis_backend
     \<lparr>rd_up = (\<lambda>_. False), rd_zadd = (\<lambda>_ _ _ r. r), rd_zrem = (\<lambda>_ _ r. (0, r)), rd_zremrangebyscore = (\<lambda>_ _ r. r),
      rd_zcard = (\<lambda>_ _. 0), rd_zlast = (\<lambda>_ _. None), rd_zrangebyscore = (\<lambda>_ _ _ _. []), rd_del = (\<lambda>_ r. r),
      rd_expire = (\<lambda>_ _ r. r), rd_incr = (\<lambda>_ r. (0, r)), rd_hset = (\<lambda>_ _ _ r. r), rd_hget = (\<lambda>_ _ _. None),
      rd_hdel = (\<lambda>_ _ r. r), rd_get = (\<lambda>_ _. None), rd_set_nx_ex = (\<lambda>_ _ _ r. (False, r)), rd_publish = (\<lambda>_ _ r. r)\<rparr>
     default_backend 0"

lemma new_manager_facts [simp]:
  "manager_ok (new_manager net)" "mg_backend (new_manager net) = None" "connections_of (new_manager net) u = []"
  "mg_net (new_manager net) = net" "mg_frames (new_manager net) = []"
  by (simp_all add: new_manager_def manager_ok_def connections_of_def)

theorem presence_reports_alternate_witness:
  "\<exists>reports m'. run_sockets idle_backend [Opened 1 7, Opened 1 8, Closed 1 7, Closed 1 8, Opened 1 9] (new_manager (\<lambda>_. None)) = (reports, m') \<and>
    came_online 1 [Opened 1 7, Opened 1 8, Closed 1 7, Closed 1 8, Opened 1 9] reports =
    went_offline 1 [Opened 1 7, Opened 1 8, Closed 1 7, Closed 1 8, Opened 1 9] reports + (if 1 \<in> set (local_user_ids m') then 1 else 0)"
proof -
  obtain reports m' where run: "run_sockets idle_backend [Opened 1 7, Opened 1 8, Closed 1 7, Closed 1 8, Opened 1 9]
      (new_manager (\<lambda>_. None)) = (reports, m')"
    by (cases "run_sockets idle_backend [Opened 1 7, Opened 1 8, Closed 1 7, Closed 1 8, Opened 1 9] (new_manager (\<lambda>_. None))")
  from presence_reports_alternate [OF new_manager_facts(1,2,3) run] run show ?thesis by blast
qed

subsection \<open>Delivery without a backend\<close>

text \<open>A socket either takes the frame or is closed, which sending reports as a \<open>RuntimeError\<close>.\<close>

definition open_socket :: "'b manager \<Rightarrow> websocket \<Rightarrow> bool" where
  "open_socket m ws \<longleftrightarrow> mg_net m ws = None"

definition closes_only :: "'b manager \<Rightarrow> bool" where
  "closes_only m \<longleftrightarrow> (\<forall>ws. mg_net m ws = None \<or> mg_net m ws = Some RuntimeError)"

lemma send_all_result:
  "closes_only m \<Longrightarrow> send_all event wss m =
     (Inr (filter (\<lambda>ws. \<not> open_socket m ws) wss),
      m\<lparr>mg_frames := mg_frames m @ map (\<lambda>ws. (ws, event)) (filter (open_socket m) wss)\<rparr>)"
proof (induction wss arbitrary: m)
  case Nil
  then show ?case by (simp add: oreturn_def)
next
  case (Cons ws wss)
  from Cons.prems have net: "mg_net m ws = None \<or> mg_net m ws = Some RuntimeError"
    unfolding closes_only_def by (rule spec)
  show ?case
  proof (cases "mg_net m ws = None")
    case True
    let ?m = "m\<lparr>mg_frames := mg_frames m @ [(ws, event)]\<rparr>"
    have "closes_only ?m" "open_socket ?m = open_socket m"
      using Cons.prems by (auto simp: closes_only_def open_socket_def fun_eq_iff)
    with Cons.IH [of ?m] True show ?thesis by (simp add: send_json_def open_socket_def)
  next
    case False
    with net Cons.IH [OF Cons.prems] show ?thesis
      by (simp add: send_json_def open_socket_def obind_def oreturn_def)
  qed
qed

lemma undistributed_disconnect:
  assumes "manager_ok m" and "\<not> distributed B m" and "disconnect B u ws m = (b, m')"
  shows "manager_ok m'" and "mg_backend m' = mg_backend m" and "mg_frames m' = mg_frames m" and "mg_net m' = mg_net m"
    and "connections_of m' v = (if v = u then removeAll ws (connections_of m u) else connections_of m v)"
proof -
  show "mg_backend m' = mg_backend m"
    using assms(2,3) by (auto simp: disconnect_def Let_def split: option.splits if_splits)
qed (use disconnect_connections [OF assms(1,3)] in auto)

lemma drop_stale_result:
  "manager_ok m \<Longrightarrow> \<not> distributed B m \<Longrightarrow> drop_stale B u stale m = m' \<Longrightarrow>
    manager_ok m' \<and> mg_backend m' = mg_backend m \<and> mg_frames m' = mg_frames m \<and> mg_net m' = mg_net m \<and>
    (\<forall>v. connections_of m' v = (if v = u then filter (\<lambda>ws. ws \<notin> set stale) (connections_of m u) else connections_of m v))"
proof (induction stale arbitrary: m)
  case Nil
  then show ?case by simp
next
  case (Cons ws stale)
  obtain b m1 where step: "disconnect B u ws m = (b, m1)" by (cases "disconnect B u ws m")
  note d = undistributed_disconnect [OF Cons.prems(1,2) step]
  have "\<not> distributed B m1" using Cons.prems(2) d(2) by (simp add: distributed_def)
  with Cons.IH [OF d(1)] Cons.prems(3) step d show ?case
    by (auto simp: removeAll_filter_not_eq intro!: filter_cong)
qed

text \<open>What a delivery on this instance leaves: nobody but the closed sockets is dropped.\<close>

definition delivered :: "uuid list \<Rightarrow> json \<Rightarrow> 'b manager \<Rightarrow> 'b manager \<Rightarrow> bool" where
  "delivered us event m m' \<longleftrightarrow>
     mg_frames m' = mg_frames m @ [(ws, event). u \<leftarrow> us, ws \<leftarrow> filter (open_socket m) (connections_of m u)] \<and>
     (\<forall>u. connections_of m' u = (if u \<in> set us then filter (open_socket m) (connections_of m u) else connections_of m u)) \<and>
     manager_ok m' \<and> mg_net m' = mg_net m \<and> mg_backend m' = mg_backend m"

lemma frames_frame [simp]:
  "manager_ok (m\<lparr>mg_frames := fs\<rparr>) = manager_ok m" "connections_of (m\<lparr>mg_frames := fs\<rparr>) u = connections_of m u"
  "distributed B (m\<lparr>mg_frames := fs\<rparr>) = distributed B m"
  by (simp_all add: manager_ok_def connections_of_def distributed_def)

lemma deliver_one:
  assumes "manager_ok m" and "\<not> distributed B m" and "closes_only m"
  shows "fst (deliver_to_user_local B event u m) = Inr ()"
    and "delivered [u] event m (snd (deliver_to_user_local B event u m))"
proof -
  let ?ws = "connections_of m u"
  let ?m1 = "m\<lparr>mg_frames := mg_frames m @ map (\<lambda>ws. (ws, event)) (filter (open_socket m) ?ws)\<rparr>"
  let ?m2 = "drop_stale B u (filter (\<lambda>ws. \<not> open_socket m ws) ?ws) ?m1"
  have run: "deliver_to_user_local B event u m = (Inr (), ?m2)"
    by (simp add: deliver_to_user_local_def obind_def send_all_result [OF assms(3)])
  then show "fst (deliver_to_user_local B event u m) = Inr ()" by simp
  have "manager_ok ?m2 \<and> mg_backend ?m2 = mg_backend ?m1 \<and> mg_frames ?m2 = mg_frames ?m1 \<and> mg_net ?m2 = mg_net ?m1 \<and>
    (\<forall>v. connections_of ?m2 v = (if v = u then filter (\<lambda>ws. ws \<notin> set (filter (\<lambda>ws. \<not> open_socket m ws) ?ws)) (connections_of ?m1 u) else connections_of ?m1 v))"
    by (rule drop_stale_result) (use assms in simp_all)
  then show "delivered [u] event m (snd (deliver_to_user_local B event u m))"
    unfolding run delivered_def by (auto simp: concat_map_singleton intro!: filter_cong)
qed

lemma filter_if_filter [simp]: "filter P (if c then filter P xs else xs) = filter P xs"
  by simp

lemma deliver_all:
  "manager_ok m \<Longrightarrow> \<not> distributed B m \<Longrightarrow> closes_only m \<Longrightarrow>
    fst (deliver_to_users_local B us event m) = Inr () \<and>
    delivered us event m (snd (deliver_to_users_local B us event m))"
proof (induction us arbitrary: m)
  case Nil
  then show ?case by (simp add: delivered_def)
next
  case (Cons u us)
  obtain r m1 where one: "deliver_to_user_local B event u m = (r, m1)" by (cases "deliver_to_user_local B event u m")
  with deliver_one [OF Cons.prems, where event = event and u = u] have r: "r = Inr ()" and d: "delivered [u] event m m1" by simp_all
  then have m1: "manager_ok m1" "\<not> distributed B m1" "closes_only m1" and opens: "open_socket m1 = open_socket m"
    using Cons.prems by (simp_all add: delivered_def distributed_def closes_only_def open_socket_def fun_eq_iff)
  have same: "filter (open_socket m) (connections_of m1 v) = filter (open_socket m) (connections_of m v)" for v
    using d by (simp add: delivered_def)
  from Cons.IH [OF m1] have "fst (deliver_to_users_local B us event m1) = Inr ()"
    and "delivered us event m1 (snd (deliver_to_users_local B us event m1))" by auto
  with one r d opens show ?case by (auto simp: delivered_def same)
qed

lemma first_occurrences [simp]: "set (first_occurrences xs) = set xs" "distinct (first_occurrences xs)"
  by (induction xs) auto


definition two_sockets :: "unit realtime manager" where
  "two_sockets = (new_manager (\<lambda>ws. if ws = 8 then Some RuntimeError else None))\<lparr>mg_connections := [(1, [7, 8]), (2, [9])]\<rparr>"

lemma two_sockets_facts:
  "manager_ok two_sockets" "\<not> distributed idle_backend two_sockets" "closes_only two_sockets"
  by (simp_all add: two_sockets_def new_manager_def manager_ok_def distributed_def closes_only_def)


text \<open>C38: A closed socket found while sending takes its user off the table without a report: the endpoint's own
  disconnect for that socket later answers that the user was already offline, so nobody is told.\<close>

theorem stale_socket_never_reported:
  assumes "manager_ok m" and "\<not> distributed B m" and "closes_only m"
    and "connections_of m u = [ws]" and "\<not> open_socket m ws"
    and "send_to_users B us event excluded m = (r, m1)" and "u \<in> set us" and "excluded \<noteq> Some u"
    and "disconnect B u ws m1 = (reported, m2)"
  shows "u \<in> set (local_user_ids m) \<and> u \<notin> set (local_user_ids m1) \<and> \<not> reported"
proof -
  let ?targets = "first_occurrences (filter (\<lambda>u. Some u \<noteq> excluded) us)"
  have "(r, m1) = deliver_to_users_local B ?targets event m"
    using assms(2,6) by (cases "?targets = []") (simp_all add: send_to_users_def Let_def)
  with deliver_all [OF assms(1-3), of ?targets event] have "delivered ?targets event m m1"
    by (metis snd_conv)
  moreover have "u \<in> set ?targets" using assms(7,8) by auto
  ultimately have "connections_of m1 u = []" and ok: "manager_ok m1"
    using assms(4,5) by (auto simp: delivered_def)
  then have "map_of (mg_connections m1) u = None" using manager_ok_connections(2) [OF ok, of u] by simp
  then have "\<not> reported" using assms(9) by (simp add: disconnect_def)
  with \<open>connections_of m1 u = []\<close> show ?thesis
    using assms(4) local_user_ids_iff [OF assms(1), of u] local_user_ids_iff [OF ok, of u] by simp
qed

theorem stale_socket_never_reported_witness:
  "\<exists>r m1 b m2. send_to_users idle_backend [5] JNull None (two_sockets\<lparr>mg_connections := [(5, [8])]\<rparr>) = (r, m1) \<and>
     disconnect idle_backend 5 8 m1 = (b, m2) \<and> \<not> b"
proof -
  let ?m = "two_sockets\<lparr>mg_connections := [(5, [8])]\<rparr>"
  have ok: "manager_ok ?m" "\<not> distributed idle_backend ?m" "closes_only ?m" "connections_of ?m 5 = [8]" "\<not> open_socket ?m 8"
    by (simp_all add: two_sockets_def new_manager_def manager_ok_def distributed_def closes_only_def connections_of_def open_socket_def)
  obtain r m1 where send: "send_to_users idle_backend [5] JNull None ?m = (r, m1)"
    by (cases "send_to_users idle_backend [5] JNull None ?m")
  obtain b m2 where d: "disconnect idle_backend 5 8 m1 = (b, m2)" by (cases "disconnect idle_backend 5 8 m1")
  from stale_socket_never_reported [OF ok send _ _ d] send d show ?thesis by auto
qed

end
