(* ===== verification/Users.thy ===== *)
theory Users
  imports Database
begin

section \<open>Users (repositories/user_repository.py, services/user_service.py, schemas/user.py)\<close>

text \<open>
  The user table's queries, the profile and search services, and the update of \<open>last_seen\<close>.  The
  login query looks a name up among usernames and emails at once; it can match at most one user
  as long as no username looks like an email, which is what registration keeps.
\<close>

subsection \<open>Queries\<close>

definition get_user_by_id :: "db \<Rightarrow> uuid \<Rightarrow> user option" where
  "get_user_by_id d uid = find (\<lambda>u. u_id u = uid) (users d)"

definition get_by_email_or_username :: "db \<Rightarrow> string \<Rightarrow> user option result" where
  "get_by_email_or_username d v =
     (let normalized = py_lower v in
      scalar_one_or_none
        (filter (\<lambda>u. u_email u = normalized \<or> u_username u = normalized) (users d)))"

definition email_or_username_exists :: "db \<Rightarrow> string \<Rightarrow> string \<Rightarrow> bool" where
  "email_or_username_exists d email username \<longleftrightarrow>
     (\<exists>u \<in> set (users d). u_email u = email \<or> u_username u = username)"

text \<open>\<open>contains(normalized, autoescape=True)\<close> is a substring test; the order is by username.\<close>

definition search_rows :: "db \<Rightarrow> string \<Rightarrow> uuid \<Rightarrow> nat \<Rightarrow> user list" where
  "search_rows d query exclude_user_id limit =
     (let normalized = py_lower (py_strip query);
          rows = filter (\<lambda>u. u_id u \<noteq> exclude_user_id) (users d);
          rows = (if normalized \<noteq> []
            then filter (\<lambda>u. py_contains normalized (u_username u) \<or>
                             py_contains normalized (u_email u)) rows
            else rows)
      in take limit (sort_key u_username rows))"

text \<open>Setting \<open>last_seen\<close> writes the row, so the column's \<open>onupdate\<close> sets \<open>updated_at\<close> too.\<close>

definition touch_last_seen :: "instant \<times> instant \<Rightarrow> user \<Rightarrow> user" where
  "touch_last_seen a u = u\<lparr>u_last_seen := Some (fst a), u_updated_at := snd a\<rparr>"

definition set_last_seen :: "uuid \<Rightarrow> instant \<Rightarrow> instant \<Rightarrow> db \<Rightarrow> db" where
  "set_last_seen uid last_seen now d =
     (case get_user_by_id d uid of
        None \<Rightarrow> d
      | Some _ \<Rightarrow> d\<lparr>users := update_where (\<lambda>u. u_id u = uid) (touch_last_seen (last_seen, now)) (users d)\<rparr>)"

interpretation user_row: keyed_update u_id touch_last_seen
  by unfold_locales (simp add: touch_last_seen_def)

interpretation user_name: keyed_update u_username touch_last_seen
  by unfold_locales (simp add: touch_last_seen_def)

interpretation user_email: keyed_update u_email touch_last_seen
  by unfold_locales (simp add: touch_last_seen_def)

subsection \<open>Profiles and search\<close>

record user_public_response =
  up_id :: uuid
  up_username :: string
  up_created_at :: instant
  up_last_seen :: "instant option"

record user_response =
  ur_id :: uuid
  ur_username :: string
  ur_email :: string
  ur_created_at :: instant
  ur_updated_at :: instant

definition public_user :: "user \<Rightarrow> user_public_response" where
  "public_user u = \<lparr>up_id = u_id u, up_username = u_username u, up_created_at = u_created_at u,
     up_last_seen = u_last_seen u\<rparr>"

definition own_user :: "user \<Rightarrow> user_response" where
  "own_user u = \<lparr>ur_id = u_id u, ur_username = u_username u, ur_email = u_email u,
     ur_created_at = u_created_at u, ur_updated_at = u_updated_at u\<rparr>"

definition search_users :: "db \<Rightarrow> string \<Rightarrow> uuid \<Rightarrow> nat \<Rightarrow> user_public_response list" where
  "search_users d query current_user_id limit =
     map public_user (search_rows d query current_user_id limit)"

definition get_user :: "db \<Rightarrow> uuid \<Rightarrow> user_public_response result" where
  "get_user d uid =
     (case get_user_by_id d uid of
        None \<Rightarrow> Inl (AppError 404 ''USER_NOT_FOUND'' ''User was not found'')
      | Some u \<Rightarrow> Inr (public_user u))"

subsection \<open>Facts\<close>

lemma get_user_by_id_SomeD:
  "get_user_by_id d uid = Some u \<Longrightarrow> u \<in> set (users d) \<and> u_id u = uid"
  unfolding get_user_by_id_def by (drule find_SomeD) simp

lemma get_user_by_id_None_iff: "get_user_by_id d uid = None \<longleftrightarrow> uid \<notin> user_ids d"
  by (auto simp: get_user_by_id_def find_None_iff)

lemma get_user_by_id_exists:
  "uid \<in> user_ids d \<Longrightarrow> \<exists>u. get_user_by_id d uid = Some u \<and> u_id u = uid \<and> u \<in> set (users d)"
  using get_user_by_id_None_iff [of d uid] get_user_by_id_SomeD by fastforce

lemma get_user_by_id_unique:
  "wf_users d \<Longrightarrow> u \<in> set (users d) \<Longrightarrow> get_user_by_id d (u_id u) = Some u"
  by (simp add: get_user_by_id_def wf_users_def find_key_distinct)

lemma set_last_seen_wf [wf_intros]: "wf_db d \<Longrightarrow> wf_db (set_last_seen uid t now d)"
  by (simp add: set_last_seen_def wf_defs user_row.keys_update user_name.keys_update
      user_email.keys_update user_row.key_set_update split: option.split)

lemma set_last_seen_frame [frame]:
  "refresh_tokens (set_last_seen uid t now d) = refresh_tokens d"
  "conversations (set_last_seen uid t now d) = conversations d"
  "members (set_last_seen uid t now d) = members d"
  "messages (set_last_seen uid t now d) = messages d"
  "receipts (set_last_seen uid t now d) = receipts d"
  "attachments (set_last_seen uid t now d) = attachments d"
  by (simp_all add: set_last_seen_def split: option.split)

lemma set_last_seen_lookup:
  "get_user_by_id (set_last_seen uid t now d) v =
    map_option (\<lambda>u. if v = uid then u\<lparr>u_last_seen := Some t, u_updated_at := now\<rparr> else u)
      (get_user_by_id d v)"
proof (cases "get_user_by_id d uid")
  case None
  then show ?thesis by (cases "get_user_by_id d v") (auto simp: set_last_seen_def)
next
  case (Some u)
  then have "get_user_by_id (set_last_seen uid t now d) v =
      map_option (\<lambda>u. if u_id u = uid then touch_last_seen (t, now) u else u) (get_user_by_id d v)"
    by (simp add: set_last_seen_def get_user_by_id_def user_row.find_update)
  then show ?thesis
    by (cases "get_user_by_id d v") (auto simp: touch_last_seen_def dest: get_user_by_id_SomeD)
qed

text \<open>No username contains the character every email contains.\<close>

definition login_names_ok :: "db \<Rightarrow> bool" where
  "login_names_ok d \<longleftrightarrow>
     (\<forall>u \<in> set (users d). CHR 0x40 \<notin> set (u_username u) \<and> CHR 0x40 \<in> set (u_email u))"

lemma login_matches_le_one:
  assumes "wf_users d" and "login_names_ok d"
  shows "length (filter (\<lambda>u. u_email u = v \<or> u_username u = v) (users d)) \<le> 1"
proof (cases "CHR 0x40 \<in> set v")
  case True
  then have "\<And>u. u \<in> set (users d) \<Longrightarrow> u_email u = v \<or> u_username u = v \<Longrightarrow> u_email u = v"
    using assms(2) by (auto simp: login_names_ok_def)
  then show ?thesis
    using assms(1) unfolding wf_users_def
    by (intro distinct_map_filter_le_one [where key = u_email and k = v]) auto
next
  case False
  then have "\<And>u. u \<in> set (users d) \<Longrightarrow> u_email u = v \<or> u_username u = v \<Longrightarrow> u_username u = v"
    using assms(2) by (auto simp: login_names_ok_def)
  then show ?thesis
    using assms(1) unfolding wf_users_def
    by (intro distinct_map_filter_le_one [where key = u_username and k = v]) auto
qed

lemma get_by_email_or_username_total:
  assumes "wf_users d" and "login_names_ok d"
  shows "get_by_email_or_username d v =
    Inr (find (\<lambda>u. u_email u = py_lower v \<or> u_username u = py_lower v) (users d))"
  using scalar_one_or_none_unique [OF login_matches_le_one [OF assms, of "py_lower v"]]
  by (simp add: get_by_email_or_username_def Let_def)

end
