(* ===== verification/Conversations.thy ===== *)
theory Conversations
  imports Users
begin

section \<open>Conversations (services/conversation_service.py and its repositories)\<close>

text \<open>
  The conversation repository, the message queries the conversation summary needs, and the
  service: creating a direct conversation, listing, and \<open>get_authorized\<close>, the gate every other
  service passes.  \<open>create_direct\<close> checks first and inserts later; \<open>env\<close> is what other sessions
  commit in between.  A related row reached through a loaded relationship (a member's or sender's
  user) that is missing would be None, and reading its attribute an \<open>AttributeError\<close>.
\<close>

subsection \<open>Message queries (repositories/message_repository.py)\<close>

definition message_pos :: "message \<Rightarrow> instant \<times> uuid" where
  "message_pos m = (m_created_at m, m_id m)"

definition get_message :: "db \<Rightarrow> uuid \<Rightarrow> message option" where
  "get_message d mid = find (\<lambda>m. m_id m = mid) (messages d)"

definition live_messages :: "db \<Rightarrow> uuid \<Rightarrow> message list" where
  "live_messages d cid =
     filter (\<lambda>m. m_conversation_id m = cid \<and> m_deleted_at m = None) (messages d)"

text \<open>Ascending and descending order by creation time, then identifier.\<close>

definition by_position :: "message list \<Rightarrow> message list" where
  "by_position ms = sort_key message_pos ms"

definition get_latest :: "db \<Rightarrow> uuid \<Rightarrow> message option" where
  "get_latest d cid =
     (case take 1 (rev (by_position (live_messages d cid))) of [] \<Rightarrow> None | m # _ \<Rightarrow> Some m)"

definition page_before :: "db \<Rightarrow> uuid \<Rightarrow> nat \<Rightarrow> (instant \<times> uuid) option \<Rightarrow> message list" where
  "page_before d cid limit before =
     (let rows = (case before of
            None \<Rightarrow> live_messages d cid
          | Some (t, i) \<Rightarrow> filter (\<lambda>m. m_created_at m < t \<or> (m_created_at m = t \<and> m_id m < i))
              (live_messages d cid))
      in take (limit + 1) (rev (by_position rows)))"

definition page_after :: "db \<Rightarrow> uuid \<Rightarrow> nat \<Rightarrow> instant \<Rightarrow> uuid \<Rightarrow> message list" where
  "page_after d cid limit after_created_at after_id =
     take (limit + 1) (by_position
       (filter (\<lambda>m. m_created_at m > after_created_at \<or> (m_created_at m = after_created_at \<and> m_id m > after_id))
         (live_messages d cid)))"

subsection \<open>The conversation repository\<close>

definition get_conversation :: "db \<Rightarrow> uuid \<Rightarrow> conversation option" where
  "get_conversation d cid = find (\<lambda>c. c_id c = cid) (conversations d)"

definition get_direct_by_key :: "db \<Rightarrow> string \<Rightarrow> conversation option result" where
  "get_direct_by_key d key =
     scalar_one_or_none (filter (\<lambda>c. c_direct_key c = Some key) (conversations d))"

definition is_member :: "db \<Rightarrow> uuid \<Rightarrow> uuid \<Rightarrow> bool" where
  "is_member d cid uid \<longleftrightarrow>
     (\<exists>m \<in> set (members d). cm_conversation_id m = cid \<and> cm_user_id m = uid)"

definition conversation_members :: "db \<Rightarrow> uuid \<Rightarrow> conversation_member list" where
  "conversation_members d cid = filter (\<lambda>m. cm_conversation_id m = cid) (members d)"

definition member_ids :: "db \<Rightarrow> uuid \<Rightarrow> uuid list" where
  "member_ids d cid = map cm_user_id (conversation_members d cid)"

text \<open>The join of the memberships with themselves, other users only, without repetitions.\<close>

definition peer_ids :: "db \<Rightarrow> uuid \<Rightarrow> uuid list" where
  "peer_ids d uid = remdups (concat (map (\<lambda>own.
     map cm_user_id (filter (\<lambda>peer. cm_conversation_id own = cm_conversation_id peer \<and> cm_user_id peer \<noteq> uid)
       (members d))) (filter (\<lambda>own. cm_user_id own = uid) (members d))))"

definition conversation_rank :: "conversation \<Rightarrow> instant \<times> uuid" where
  "conversation_rank c = (c_updated_at c, c_id c)"

definition list_for_user :: "db \<Rightarrow> uuid \<Rightarrow> conversation list" where
  "list_for_user d uid =
     rev (sort_key conversation_rank (filter (\<lambda>c. is_member d (c_id c) uid) (conversations d)))"

definition unread_count :: "db \<Rightarrow> uuid \<Rightarrow> uuid \<Rightarrow> nat" where
  "unread_count d cid uid = length (filter (\<lambda>r. r_user_id r = uid \<and> r_read_at r = None \<and>
     (\<exists>m \<in> set (messages d). m_id m = r_message_id r \<and> m_conversation_id m = cid)) (receipts d))"

subsection \<open>Responses (schemas/conversation.py)\<close>

record conversation_member_response =
  cmr_user_id :: uuid
  cmr_username :: string
  cmr_role :: string
  cmr_last_seen :: "instant option"

text \<open>The summary's text: the message's, or the fixed attachment label (it has an emoji).\<close>

datatype summary_text = Text string | AttachmentLabel

record message_summary =
  ms_id :: uuid
  ms_sender_id :: uuid
  ms_sender_username :: string
  ms_content :: summary_text
  ms_created_at :: instant

record conversation_response =
  cr_id :: uuid
  cr_type :: string
  cr_name :: "string option"
  cr_created_by :: uuid
  cr_created_at :: instant
  cr_updated_at :: instant
  cr_members :: "conversation_member_response list"
  cr_last_message :: "message_summary option"
  cr_unread_count :: nat

definition related_user :: "db \<Rightarrow> uuid \<Rightarrow> user result" where
  "related_user d uid = (case get_user_by_id d uid of None \<Rightarrow> Inl AttributeError | Some u \<Rightarrow> Inr u)"

definition message_attachments :: "db \<Rightarrow> uuid \<Rightarrow> attachment list" where
  "message_attachments d mid = filter (\<lambda>a. a_message_id a = Some mid) (attachments d)"

definition member_response :: "db \<Rightarrow> conversation_member \<Rightarrow> conversation_member_response result" where
  "member_response d m = ebind (related_user d (cm_user_id m)) (\<lambda>u.
     Inr \<lparr>cmr_user_id = cm_user_id m, cmr_username = u_username u, cmr_role = cm_role m,
          cmr_last_seen = u_last_seen u\<rparr>)"

definition summary_of :: "db \<Rightarrow> message \<Rightarrow> message_summary result" where
  "summary_of d latest = ebind (related_user d (m_sender_id latest)) (\<lambda>u.
     Inr \<lparr>ms_id = m_id latest, ms_sender_id = m_sender_id latest, ms_sender_username = u_username u,
          ms_content = (if m_content latest \<noteq> [] then Text (m_content latest)
            else if message_attachments d (m_id latest) \<noteq> [] then AttachmentLabel else Text []),
          ms_created_at = m_created_at latest\<rparr>)"

definition conversation_to_response :: "db \<Rightarrow> conversation \<Rightarrow> uuid \<Rightarrow> conversation_response result" where
  "conversation_to_response d c current_user_id =
     ebind (case get_latest d (c_id c) of
              None \<Rightarrow> Inr None
            | Some latest \<Rightarrow> ebind (summary_of d latest) (\<lambda>s. Inr (Some s))) (\<lambda>summary.
     ebind (traverse (member_response d) (conversation_members d (c_id c))) (\<lambda>ms.
       Inr \<lparr>cr_id = c_id c, cr_type = ''direct'', cr_name = c_name c, cr_created_by = c_created_by c,
            cr_created_at = c_created_at c, cr_updated_at = c_updated_at c, cr_members = ms,
            cr_last_message = summary, cr_unread_count = unread_count d (c_id c) current_user_id\<rparr>))"

subsection \<open>The service\<close>

definition direct_key :: "uuid \<Rightarrow> uuid \<Rightarrow> string" where
  "direct_key first_user_id second_user_id =
     py_join '':'' (sort [uuid_str first_user_id, uuid_str second_user_id])"

definition new_direct :: "uuid \<Rightarrow> instant \<Rightarrow> uuid \<Rightarrow> uuid \<Rightarrow> conversation" where
  "new_direct cid now current_user_id participant_id =
     \<lparr>c_id = cid, c_type = ''direct'', c_name = None,
      c_direct_key = Some (direct_key current_user_id participant_id),
      c_created_by = current_user_id, c_created_at = now, c_updated_at = now\<rparr>"

definition new_member :: "uuid \<Rightarrow> instant \<Rightarrow> uuid \<Rightarrow> conversation_member" where
  "new_member cid now uid =
     \<lparr>cm_conversation_id = cid, cm_user_id = uid, cm_role = ''member'', cm_joined_at = now\<rparr>"

definition create_direct ::
  "(db \<Rightarrow> db) \<Rightarrow> uuid \<Rightarrow> instant \<Rightarrow> uuid \<Rightarrow> uuid \<Rightarrow> db \<Rightarrow> (conversation_response \<times> db) result" where
  "create_direct env cid now current_user_id participant_id d =
     (if current_user_id = participant_id
      then Inl (AppError 422 ''INVALID_PARTICIPANT'' ''You cannot message yourself'')
      else if get_user_by_id d participant_id = None
      then Inl (AppError 404 ''USER_NOT_FOUND'' ''User was not found'')
      else
        let key = direct_key current_user_id participant_id in
        ebind (get_direct_by_key d key) (\<lambda>existing.
        case existing of
          Some c \<Rightarrow> ebind (conversation_to_response d c current_user_id) (\<lambda>r. Inr (r, d))
        | None \<Rightarrow>
            (case ebind (insert_conversation (new_direct cid now current_user_id participant_id) (env d))
                    (insert_all insert_member
                      [new_member cid now current_user_id, new_member cid now participant_id]) of
               Inl IntegrityError \<Rightarrow>
                 ebind (get_direct_by_key (env d) key) (\<lambda>existing.
                 case existing of
                   None \<Rightarrow> Inl IntegrityError
                 | Some c \<Rightarrow> ebind (conversation_to_response (env d) c current_user_id) (\<lambda>r. Inr (r, env d)))
             | Inl e \<Rightarrow> Inl e
             | Inr d' \<Rightarrow>
                 (case get_conversation d' cid of
                    None \<Rightarrow> Inl (AppError 500 ''CONVERSATION_CREATE_FAILED''
                               ''Conversation could not be created'')
                  | Some created \<Rightarrow>
                      ebind (conversation_to_response d' created current_user_id) (\<lambda>r. Inr (r, d'))))))"

definition list_conversations :: "db \<Rightarrow> uuid \<Rightarrow> conversation_response list result" where
  "list_conversations d current_user_id =
     traverse (\<lambda>c. conversation_to_response d c current_user_id) (list_for_user d current_user_id)"

definition conversation_not_found :: exc where
  "conversation_not_found = AppError 404 ''CONVERSATION_NOT_FOUND'' ''Conversation was not found''"

definition access_denied :: exc where
  "access_denied = AppError 403 ''CONVERSATION_ACCESS_DENIED'' ''You are not a conversation member''"

definition get_authorized :: "db \<Rightarrow> uuid \<Rightarrow> uuid \<Rightarrow> conversation result" where
  "get_authorized d cid current_user_id =
     (case get_conversation d cid of
        None \<Rightarrow> Inl conversation_not_found
      | Some c \<Rightarrow> if \<not> is_member d cid current_user_id then Inl access_denied else Inr c)"

definition show_conversation :: "db \<Rightarrow> uuid \<Rightarrow> uuid \<Rightarrow> conversation_response result" where
  "show_conversation d cid current_user_id =
     ebind (get_authorized d cid current_user_id) (\<lambda>c. conversation_to_response d c current_user_id)"

definition set_updated_at :: "instant \<Rightarrow> conversation \<Rightarrow> conversation" where
  "set_updated_at now c = c\<lparr>c_updated_at := now\<rparr>"

definition touch_conversation :: "instant \<Rightarrow> uuid \<Rightarrow> db \<Rightarrow> db" where
  "touch_conversation now cid d =
     d\<lparr>conversations := update_where (\<lambda>c. c_id c = cid) (set_updated_at now) (conversations d)\<rparr>"

interpretation conversation_row: keyed_update c_id set_updated_at
  by unfold_locales (simp add: set_updated_at_def)

subsection \<open>The gate\<close>

text \<open>
  What the other services rely on in \<open>get_authorized\<close>: it lets through exactly the members of an
  existing conversation and reads only the conversations and memberships.  An operation that
  passes the gate first is refused to everybody else.
\<close>

locale access_gate =
  fixes check :: "db \<Rightarrow> uuid \<Rightarrow> uuid \<Rightarrow> conversation result"
  assumes check_Inr: "check d cid uid = Inr c \<longleftrightarrow> get_conversation d cid = Some c \<and> is_member d cid uid"
    and check_reads: "conversations d = conversations d' \<Longrightarrow> members d = members d' \<Longrightarrow>
      check d cid uid = check d' cid uid"
begin

lemma passed_member:
  "ebind (check d cid uid) f = Inr r \<Longrightarrow> is_member d cid uid \<and> (\<exists>c. get_conversation d cid = Some c \<and> f c = Inr r)"
  by (auto simp: ebind_Inr_iff check_Inr)

lemma refused:
  assumes "\<not> (is_member d cid uid \<and> get_conversation d cid \<noteq> None)"
  obtains e where "check d cid uid = Inl e" and "ebind (check d cid uid) f = Inl e"
  using assms by (cases "check d cid uid") (auto simp: check_Inr)

lemma passes:
  "get_conversation d cid = Some c \<Longrightarrow> is_member d cid uid \<Longrightarrow> ebind (check d cid uid) f = f c"
  by (metis check_Inr ebind.simps(2))

end

interpretation gate: access_gate get_authorized
  by unfold_locales
    (auto simp: get_authorized_def get_conversation_def is_member_def split: option.splits)

lemma is_member_iff: "is_member d cid uid \<longleftrightarrow> (cid, uid) \<in> member_key ` set (members d)"
  by (auto simp: is_member_def image_iff)

lemma is_member_member_ids: "is_member d cid uid \<longleftrightarrow> uid \<in> set (member_ids d cid)"
  by (auto simp: is_member_def member_ids_def conversation_members_def)

lemma get_conversation_SomeD:
  "get_conversation d cid = Some c \<Longrightarrow> c \<in> set (conversations d) \<and> c_id c = cid"
  unfolding get_conversation_def by (drule find_SomeD) simp

lemma get_conversation_None_iff: "get_conversation d cid = None \<longleftrightarrow> cid \<notin> conversation_ids d"
  by (auto simp: get_conversation_def find_None_iff)

lemma get_conversation_unique:
  "wf_conversations d \<Longrightarrow> c \<in> set (conversations d) \<Longrightarrow> get_conversation d (c_id c) = Some c"
  by (simp add: get_conversation_def wf_conversations_def find_key_distinct)

lemma is_member_wf:
  assumes "wf_members d" and "is_member d cid uid"
  shows "cid \<in> conversation_ids d" and "uid \<in> user_ids d"
  using assms by (auto simp: wf_members_def is_member_def)

lemma touch_conversation_wf [wf_intros]: "wf_db d \<Longrightarrow> wf_db (touch_conversation now cid d)"
proof -
  have "map c_direct_key (update_where P (set_updated_at now) cs) = map c_direct_key cs"
    "c_type ` set (update_where P (set_updated_at now) cs) = c_type ` set cs"
    "c_created_by ` set (update_where P (set_updated_at now) cs) = c_created_by ` set cs" for P cs
    by (simp_all add: set_updated_at_def)
  then show "wf_db d \<Longrightarrow> wf_db (touch_conversation now cid d)"
    by (simp add: touch_conversation_def wf_defs conversation_row.keys_update
        conversation_row.key_set_update)
qed

lemma touch_conversation_frame [frame, simp]:
  "users (touch_conversation now cid d) = users d"
  "refresh_tokens (touch_conversation now cid d) = refresh_tokens d"
  "members (touch_conversation now cid d) = members d"
  "messages (touch_conversation now cid d) = messages d"
  "receipts (touch_conversation now cid d) = receipts d"
  "attachments (touch_conversation now cid d) = attachments d"
  by (simp_all add: touch_conversation_def)

subsection \<open>Responses exist\<close>

lemma related_user_exists: "uid \<in> user_ids d \<Longrightarrow> \<exists>u. related_user d uid = Inr u \<and> u_id u = uid"
  using get_user_by_id_exists [of uid d] by (auto simp: related_user_def)

lemma live_messages_set:
  "m \<in> set (live_messages d cid) \<longleftrightarrow> m \<in> set (messages d) \<and> m_conversation_id m = cid \<and> m_deleted_at m = None"
  by (simp add: live_messages_def)

lemma set_by_position [simp]: "set (by_position ms) = set ms"
  by (simp add: by_position_def)

lemma get_latest_SomeD: "get_latest d cid = Some m \<Longrightarrow> m \<in> set (live_messages d cid)"
proof -
  assume "get_latest d cid = Some m"
  then have "m \<in> set (take 1 (rev (by_position (live_messages d cid))))"
    by (auto simp: get_latest_def split: list.splits)
  from in_set_takeD [OF this] show ?thesis by simp
qed

lemma traverse_exists:
  "(\<And>x. x \<in> set xs \<Longrightarrow> \<exists>y. f x = Inr y) \<Longrightarrow> \<exists>ys. traverse f xs = Inr ys"
  by (induction xs) fastforce+

lemma conversation_to_response_exists:
  assumes "wf_db d"
  shows "\<exists>r. conversation_to_response d c uid = Inr r \<and> cr_id r = c_id c \<and>
    cr_unread_count r = unread_count d (c_id c) uid \<and>
    map cmr_user_id (cr_members r) = member_ids d (c_id c) \<and>
    map_option ms_id (cr_last_message r) = map_option m_id (get_latest d (c_id c))"
proof -
  have "\<exists>r. member_response d m = Inr r \<and> cmr_user_id r = cm_user_id m"
    if "m \<in> set (conversation_members d (c_id c))" for m
  proof -
    from that assms have "cm_user_id m \<in> user_ids d"
      by (auto simp: conversation_members_def wf_db_def wf_members_def)
    from related_user_exists [OF this] show ?thesis by (auto simp: member_response_def)
  qed
  then obtain g where "\<And>m. m \<in> set (conversation_members d (c_id c)) \<Longrightarrow>
      member_response d m = Inr (g m) \<and> cmr_user_id (g m) = cm_user_id m" by metis
  then have ms: "traverse (member_response d) (conversation_members d (c_id c)) =
      Inr (map g (conversation_members d (c_id c)))"
    and ids: "map cmr_user_id (map g (conversation_members d (c_id c))) = member_ids d (c_id c)"
    by (auto intro!: traverse_total simp: member_ids_def)
  show ?thesis
  proof (cases "get_latest d (c_id c)")
    case None
    then show ?thesis using ms ids by (simp add: conversation_to_response_def)
  next
    case (Some m)
    from get_latest_SomeD [OF this] assms have "m_sender_id m \<in> user_ids d"
      by (auto simp: live_messages_set wf_db_def wf_messages_def)
    from related_user_exists [OF this] Some ms ids show ?thesis
      by (auto simp: conversation_to_response_def summary_of_def)
  qed
qed

subsection \<open>Direct keys\<close>

lemma sort_pair: "sort [a, b] = [min a b, max a b]"
  for a b :: "'a :: linorder"
  by (simp add: insort_key.simps min_def max_def)

lemma direct_key_eq:
  "direct_key a b = min (uuid_str a) (uuid_str b) @ '':'' @ max (uuid_str a) (uuid_str b)"
  by (simp add: direct_key_def sort_pair)

lemma direct_key_injective:
  "direct_key a b = direct_key c d \<longleftrightarrow> {a, b} = {c, d}"
proof
  assume "direct_key a b = direct_key c d"
  moreover have "length (min (uuid_str a) (uuid_str b)) = 36" "length (min (uuid_str c) (uuid_str d)) = 36"
    by (simp_all add: min_def)
  ultimately have "min (uuid_str a) (uuid_str b) = min (uuid_str c) (uuid_str d)"
    and "max (uuid_str a) (uuid_str b) = max (uuid_str c) (uuid_str d)"
    by (simp_all add: direct_key_eq)
  then show "{a, b} = {c, d}"
    by (auto simp: min_def max_def split: if_splits)
next
  assume "{a, b} = {c, d}"
  then show "direct_key a b = direct_key c d"
    by (auto simp: doubleton_eq_iff direct_key_eq min.commute max.commute)
qed

lemma direct_key_commute: "direct_key a b = direct_key b a"
  by (simp add: direct_key_injective insert_commute)

subsection \<open>Creating direct conversations\<close>

lemma direct_matches_le_one:
  "distinct (filter (\<lambda>k. k \<noteq> None) (map f xs)) \<Longrightarrow> length (filter (\<lambda>c. f c = Some key) xs) \<le> 1"
proof (induction xs)
  case (Cons x xs)
  show ?case
  proof (cases "f x = Some key")
    case True
    with Cons.prems have "\<forall>c \<in> set xs. f c \<noteq> Some key" by force
    then have "filter (\<lambda>c. f c = Some key) xs = []" by (simp add: filter_empty_conv)
    with True show ?thesis by simp
  next
    case False
    with Cons show ?thesis by (auto split: if_splits)
  qed
qed simp

lemma get_direct_by_key_total:
  "wf_conversations d \<Longrightarrow>
    get_direct_by_key d key = Inr (find (\<lambda>c. c_direct_key c = Some key) (conversations d))"
  unfolding get_direct_by_key_def wf_conversations_def
  by (intro scalar_one_or_none_unique direct_matches_le_one) blast

lemma direct_conversation_unique:
  assumes "wf_conversations d" and "c \<in> set (conversations d)" and "c_direct_key c = Some key"
  shows "filter (\<lambda>c. c_direct_key c = Some key) (conversations d) = [c]"
  using assms direct_matches_le_one [of c_direct_key "conversations d" key]
  by (intro singleton_if_member) (auto simp: wf_conversations_def)

text \<open>The rows a successful creation adds.\<close>

definition with_direct :: "uuid \<Rightarrow> instant \<Rightarrow> uuid \<Rightarrow> uuid \<Rightarrow> db \<Rightarrow> db" where
  "with_direct cid now a b d = d\<lparr>conversations := conversations d @ [new_direct cid now a b],
     members := members d @ [new_member cid now a, new_member cid now b]\<rparr>"

lemma insert_direct_eq:
  assumes "wf_db d" and "a \<noteq> b" and "a \<in> user_ids d" and "b \<in> user_ids d"
    and "cid \<notin> conversation_ids d"
  shows "ebind (insert_conversation (new_direct cid now a b) d)
      (insert_all insert_member [new_member cid now a, new_member cid now b]) =
    (if Some (direct_key a b) \<in> c_direct_key ` set (conversations d) then Inl IntegrityError
     else Inr (with_direct cid now a b d))"
proof -
  have "cid \<notin> cm_conversation_id ` set (members d)"
    using assms(1,5) by (auto simp: wf_db_def wf_members_def)
  then have "(cid, u) \<notin> member_key ` set (members d)" for u by force
  then show ?thesis
    using assms
    by (simp add: insert_conversation_def insert_member_def new_direct_def new_member_def
        with_direct_def)
qed

lemma insert_direct_wf:
  assumes "ebind (insert_conversation c d) (insert_all insert_member ms) = Inr d'" and "wf_db d"
  shows "wf_db d'"
  using assms insert_all_wf [of insert_member ms _ d'] insert_member_wf
  by (auto simp: ebind_Inr_iff dest!: insert_conversation_wf)

text \<open>What \<open>create_direct\<close> answers once the early refusals are passed.\<close>

lemma create_direct_cases:
  assumes wf: "wf_db d" "wf_db (env d)" and users: "a \<noteq> b" "b \<in> user_ids d" "a \<in> user_ids (env d)"
    "b \<in> user_ids (env d)" and fresh: "cid \<notin> conversation_ids (env d)"
  obtains
    (existing) c where "c \<in> set (conversations d)" and "c_direct_key c = Some (direct_key a b)"
      and "create_direct env cid now a b d = ebind (conversation_to_response d c a) (\<lambda>r. Inr (r, d))"
  | (taken) c where "c \<in> set (conversations (env d))" and "c_direct_key c = Some (direct_key a b)"
      and "create_direct env cid now a b d =
        ebind (conversation_to_response (env d) c a) (\<lambda>r. Inr (r, env d))"
  | (created) "Some (direct_key a b) \<notin> c_direct_key ` set (conversations (env d))"
      and "wf_db (with_direct cid now a b (env d))"
      and "create_direct env cid now a b d =
        ebind (conversation_to_response (with_direct cid now a b (env d)) (new_direct cid now a b) a)
          (\<lambda>r. Inr (r, with_direct cid now a b (env d)))"
proof -
  obtain u where u: "get_user_by_id d b = Some u"
    using get_user_by_id_exists [OF users(2)] by blast
  note start = create_direct_def [of env cid now a b d, unfolded Let_def insert_direct_eq [OF wf(2) users(1,3,4) fresh]
      get_direct_by_key_total [OF wf_dbD(3) [OF wf(1)]] get_direct_by_key_total [OF wf_dbD(3) [OF wf(2)]]]
  show thesis
  proof (cases "find (\<lambda>c. c_direct_key c = Some (direct_key a b)) (conversations d)")
    case (Some c)
    show thesis
      by (rule existing [of c])
        (use find_SomeD [OF Some] Some users u in \<open>simp_all add: start\<close>)
  next
    case none: None
    show thesis
    proof (cases "find (\<lambda>c. c_direct_key c = Some (direct_key a b)) (conversations (env d))")
      case (Some c)
      then have "Some (direct_key a b) \<in> c_direct_key ` set (conversations (env d))"
        using find_SomeD [OF Some] by (metis image_eqI)
      then show thesis
        by (intro taken [of c])
          (use find_SomeD [OF Some] Some none users u in \<open>simp_all add: start\<close>)
    next
      case None
      let ?d' = "with_direct cid now a b (env d)"
      from None have no_key: "Some (direct_key a b) \<notin> c_direct_key ` set (conversations (env d))"
        by (auto simp: find_None_iff)
      then have ins: "ebind (insert_conversation (new_direct cid now a b) (env d))
          (insert_all insert_member [new_member cid now a, new_member cid now b]) = Inr ?d'"
        by (simp add: insert_direct_eq [OF wf(2) users(1,3,4) fresh])
      have wf': "wf_db ?d'" by (rule insert_direct_wf [OF ins wf(2)])
      have "get_conversation ?d' (c_id (new_direct cid now a b)) = Some (new_direct cid now a b)"
        by (rule get_conversation_unique [OF wf_dbD(3) [OF wf']]) (simp add: with_direct_def)
      then have "get_conversation ?d' cid = Some (new_direct cid now a b)"
        by (simp add: new_direct_def)
      then show thesis
        by (intro created)
          (use no_key wf' None none users u in \<open>simp_all add: start\<close>)
    qed
  qed
qed

lemma with_direct_conversation:
  "new_direct cid now a b \<in> set (conversations (with_direct cid now a b d))"
  "c_direct_key (new_direct cid now a b) = Some (direct_key a b)"
  "c_id (new_direct cid now a b) = cid"
  by (simp_all add: with_direct_def new_direct_def)

text \<open>Every conversation belongs to the two users of its key.\<close>

definition direct_ok :: "db \<Rightarrow> bool" where
  "direct_ok d \<longleftrightarrow> (\<forall>c \<in> set (conversations d). \<exists>a b. a \<noteq> b \<and>
     c_direct_key c = Some (direct_key a b) \<and> set (member_ids d (c_id c)) = {a, b})"

lemma member_ids_with_direct:
  "member_ids (with_direct cid now a b d) c = member_ids d c @ (if c = cid then [a, b] else [])"
  by (simp add: member_ids_def conversation_members_def with_direct_def new_member_def)

lemma member_ids_no_conversation:
  "wf_members d \<Longrightarrow> cid \<notin> conversation_ids d \<Longrightarrow> member_ids d cid = []"
  by (auto simp: member_ids_def conversation_members_def wf_members_def filter_empty_conv)

lemma with_direct_ok:
  assumes "wf_db d" and "direct_ok d" and "a \<noteq> b" and "cid \<notin> conversation_ids d"
  shows "direct_ok (with_direct cid now a b d)"
  unfolding direct_ok_def
proof
  fix c assume "c \<in> set (conversations (with_direct cid now a b d))"
  then consider "c = new_direct cid now a b" | "c \<in> set (conversations d)"
    by (auto simp: with_direct_def)
  then show "\<exists>a' b'. a' \<noteq> b' \<and> c_direct_key c = Some (direct_key a' b') \<and>
      set (member_ids (with_direct cid now a b d) (c_id c)) = {a', b'}"
  proof cases
    case 1
    then show ?thesis
      using member_ids_no_conversation [OF wf_dbD(4) [OF assms(1)] assms(4)] assms(3)
      by (auto simp: member_ids_with_direct new_direct_def)
  next
    case 2
    then have "c_id c \<noteq> cid" using assms(4) by auto
    with 2 assms(2) show ?thesis by (simp add: member_ids_with_direct direct_ok_def)
  qed
qed

lemma direct_ok_members:
  assumes "direct_ok d" and "c \<in> set (conversations d)" and "c_direct_key c = Some (direct_key a b)"
  shows "set (member_ids d (c_id c)) = {a, b}"
  using assms direct_key_injective by (fastforce simp: direct_ok_def)

subsection \<open>Properties\<close>


definition duo_user :: "uuid \<Rightarrow> string \<Rightarrow> user" where
  "duo_user i name = \<lparr>u_id = i, u_username = name, u_email = name @ ''@x'', u_password_hash = ''h'',
     u_created_at = 0, u_updated_at = 0, u_last_seen = None\<rparr>"

definition duo_db :: db where
  "duo_db = empty_db\<lparr>users := [duo_user 1 ''alice'', duo_user 2 ''bob'', duo_user 3 ''carol'']\<rparr>"

lemma duo_facts:
  "wf_db duo_db" "user_ids duo_db = {1, 2, 3}" "conversations duo_db = []"
  by (simp_all add: wf_defs duo_db_def empty_db_def duo_user_def)

lemma duo_with_direct:
  "wf_db (with_direct 9 5 2 1 duo_db)" "user_ids (with_direct 9 5 2 1 duo_db) = {1, 2, 3}"
  "conversation_ids (with_direct 9 5 2 1 duo_db) = {9}"
  by (simp_all add: wf_defs with_direct_def new_direct_def new_member_def duo_db_def empty_db_def
      duo_user_def)


text \<open>C15: A direct conversation is private to its two participants: in a database where every
  conversation has exactly the two members its key names, a successful create_direct keeps that
  so, and the gate get_authorized then lets a user into the answered conversation exactly when
  the user is one of the two.\<close>

theorem direct_conversation_private:
  assumes "wf_db d" and "wf_db (env d)" and "a \<noteq> b" and "b \<in> user_ids d" and "a \<in> user_ids (env d)"
    and "b \<in> user_ids (env d)" and "cid \<notin> conversation_ids (env d)"
    and "direct_ok d" and "direct_ok (env d)" and "create_direct env cid now a b d = Inr (r, d')"
  shows "direct_ok d' \<and> (\<forall>u. (\<exists>c. get_authorized d' (cr_id r) u = Inr c) = (u \<in> {a, b}))"
proof -
  have main: "direct_ok e \<and> (\<forall>u. (\<exists>c. get_authorized e (cr_id r) u = Inr c) = (u \<in> {a, b}))"
    if ok: "direct_ok e" "wf_db e" and c: "c \<in> set (conversations e)"
      "c_direct_key c = Some (direct_key a b)" and r: "conversation_to_response e c a = Inr r" for e c
  proof -
    have "cr_id r = c_id c"
      using conversation_to_response_exists [OF ok(2), of c a] r by auto
    moreover have "get_conversation e (c_id c) = Some c"
      by (rule get_conversation_unique [OF wf_dbD(3) [OF ok(2)] c(1)])
    ultimately show ?thesis
      using direct_ok_members [OF ok(1) c] ok(1)
      by (simp add: gate.check_Inr is_member_member_ids)
  qed
  from assms(1-7) show ?thesis
  proof (cases rule: create_direct_cases [of d env a b cid now])
    case (existing c)
    with main [OF assms(8,1) existing(1,2)] assms(10) show ?thesis by (auto simp: ebind_Inr_iff)
  next
    case (taken c)
    with main [OF assms(9,2) taken(1,2)] assms(10) show ?thesis by (auto simp: ebind_Inr_iff)
  next
    case created
    with main [OF with_direct_ok [OF assms(2,9,3,7)] created(2) with_direct_conversation(1,2)] assms(10)
    show ?thesis by (auto simp: ebind_Inr_iff)
  qed
qed

lemma duo_create:
  "create_direct id 9 5 1 2 duo_db = Inr (
    \<lparr>cr_id = 9, cr_type = ''direct'', cr_name = None, cr_created_by = 1, cr_created_at = 5,
     cr_updated_at = 5, cr_members =
       [\<lparr>cmr_user_id = 1, cmr_username = ''alice'', cmr_role = ''member'', cmr_last_seen = None\<rparr>,
        \<lparr>cmr_user_id = 2, cmr_username = ''bob'', cmr_role = ''member'', cmr_last_seen = None\<rparr>],
     cr_last_message = None, cr_unread_count = 0\<rparr>, with_direct 9 5 1 2 duo_db)"
  by code_simp

theorem direct_conversation_private_witness:
  "\<exists>r d'. create_direct id 9 5 1 2 duo_db = Inr (r, d') \<and> (\<exists>c. get_authorized d' (cr_id r) 2 = Inr c) \<and>
    \<not> (\<exists>c. get_authorized d' (cr_id r) 3 = Inr c)"
proof -
  have "direct_ok duo_db" by (simp add: direct_ok_def duo_facts)
  with direct_conversation_private [of duo_db id 1 2 9 5, OF _ _ _ _ _ _ _ _ _ duo_create]
  have gate: "(\<exists>c. get_authorized (with_direct 9 5 1 2 duo_db) 9 u = Inr c) = (u \<in> {1, 2})" for u
    by (auto simp: duo_facts)
  show ?thesis unfolding duo_create using gate [of 2] gate [of 3] by simp
qed

text \<open>C32: list answers every conversation the user is a member of, once each, and no other, from
  the most recently updated to the least, with the user's unread count for each.\<close>

theorem list_conversations_complete:
  assumes "wf_db d"
  shows "\<exists>rs. list_conversations d uid = Inr rs \<and>
    set (map cr_id rs) = {c_id c |c. c \<in> set (conversations d) \<and> is_member d (c_id c) uid} \<and>
    distinct (map cr_id rs) \<and> sorted_wrt (\<lambda>x y. conversation_rank y \<le> conversation_rank x) (list_for_user d uid) \<and>
    map cr_id rs = map c_id (list_for_user d uid) \<and>
    (\<forall>r \<in> set rs. cr_unread_count r = unread_count d (cr_id r) uid)"
proof -
  define f where "f c = projr (conversation_to_response d c uid)" for c
  have f: "conversation_to_response d c uid = Inr (f c) \<and> cr_id (f c) = c_id c \<and>
      cr_unread_count (f c) = unread_count d (c_id c) uid" for c
    using conversation_to_response_exists [OF assms, of c uid] by (auto simp: f_def)
  then have list: "list_conversations d uid = Inr (map f (list_for_user d uid))"
    by (auto simp: list_conversations_def intro!: traverse_total)
  have "sorted_wrt (\<lambda>x y. conversation_rank x \<le> conversation_rank y)
      (sort_key conversation_rank (filter (\<lambda>c. is_member d (c_id c) uid) (conversations d)))"
    using sorted_sort_key [of conversation_rank] by (simp add: sorted_map)
  then have "sorted_wrt (\<lambda>x y. conversation_rank y \<le> conversation_rank x) (list_for_user d uid)"
    by (simp add: list_for_user_def sorted_wrt_rev)
  moreover have "distinct (map c_id (list_for_user d uid))"
  proof -
    have "distinct (map c_id (filter (\<lambda>c. is_member d (c_id c) uid) (conversations d)))"
      using assms by (simp add: wf_defs distinct_map_filter)
    then show ?thesis by (simp add: list_for_user_def distinct_map rev_map [symmetric])
  qed
  moreover have "set (map c_id (list_for_user d uid)) =
      {c_id c |c. c \<in> set (conversations d) \<and> is_member d (c_id c) uid}"
    by (auto simp: list_for_user_def)
  moreover have ids: "map cr_id (map f (list_for_user d uid)) = map c_id (list_for_user d uid)"
    using f by simp
  moreover have "\<forall>r \<in> set (map f (list_for_user d uid)). cr_unread_count r = unread_count d (cr_id r) uid"
    using f by auto
  ultimately show ?thesis
    by (intro exI [of _ "map f (list_for_user d uid)"] conjI) (simp_all only: list ids)
qed

theorem list_conversations_complete_witness:
  "\<exists>rs. list_conversations (with_direct 9 5 2 1 duo_db) 1 = Inr rs \<and> map cr_id rs = [9]"
proof -
  have "map c_id (list_for_user (with_direct 9 5 2 1 duo_db) 1) = [9]" by code_simp
  with list_conversations_complete [OF duo_with_direct(1), of 1] show ?thesis by auto
qed

end
