(* ===== verification/AttachmentStore.thy ===== *)
theory AttachmentStore
  imports Database
begin

section \<open>Attachment rows and schemas (repositories/attachment_repository.py, schemas/attachment.py)\<close>

text \<open>
  The queries on the attachment table, the request validation that normalises file names, and the
  public form of an attachment.  \<open>list_abandoned\<close> skips the rows other transactions hold locked;
  the locked identifiers are an argument.
\<close>

subsection \<open>Queries\<close>

definition get_attachment :: "db \<Rightarrow> uuid \<Rightarrow> attachment option" where
  "get_attachment d aid = find (\<lambda>a. a_id a = aid) (attachments d)"

definition get_attachment_for_update :: "db \<Rightarrow> uuid \<Rightarrow> attachment option result" where
  "get_attachment_for_update d aid = scalar_one_or_none (filter (\<lambda>a. a_id a = aid) (attachments d))"

definition lock_for_message :: "db \<Rightarrow> uuid list \<Rightarrow> attachment list" where
  "lock_for_message d attachment_ids =
     (if attachment_ids = [] then []
      else filter (\<lambda>a. a_id a \<in> set attachment_ids) (attachments d))"

definition list_abandoned :: "db \<Rightarrow> uuid set \<Rightarrow> instant \<Rightarrow> nat \<Rightarrow> attachment list" where
  "list_abandoned d locked cutoff limit =
     take limit (sort_key a_created_at
       (filter (\<lambda>a. a_message_id a = None \<and> a_created_at a < cutoff \<and> a_id a \<notin> locked) (attachments d)))"

definition delete_attachment :: "uuid \<Rightarrow> db \<Rightarrow> db" where
  "delete_attachment aid d = d\<lparr>attachments := filter (\<lambda>a. a_id a \<noteq> aid) (attachments d)\<rparr>"

definition bind_to_message :: "uuid \<Rightarrow> attachment \<Rightarrow> attachment" where
  "bind_to_message mid a = a\<lparr>a_message_id := Some mid\<rparr>"

definition finalize_row :: "string \<times> instant \<Rightarrow> attachment \<Rightarrow> attachment" where
  "finalize_row f a = a\<lparr>a_storage_key := fst f, a_uploaded_at := Some (snd f)\<rparr>"

interpretation bound_row: keyed_update a_id bind_to_message
  by unfold_locales (simp add: bind_to_message_def)

interpretation finalized_row: keyed_update a_id finalize_row
  by unfold_locales (simp add: finalize_row_def)

lemma get_attachment_SomeD:
  "get_attachment d aid = Some a \<Longrightarrow> a \<in> set (attachments d) \<and> a_id a = aid"
  unfolding get_attachment_def by (drule find_SomeD) simp

lemma get_attachment_unique:
  "wf_attachments d \<Longrightarrow> a \<in> set (attachments d) \<Longrightarrow> get_attachment d (a_id a) = Some a"
  by (simp add: get_attachment_def wf_attachments_def find_key_distinct)

lemma get_attachment_for_update_total:
  "wf_attachments d \<Longrightarrow> get_attachment_for_update d aid = Inr (get_attachment d aid)"
  unfolding get_attachment_for_update_def get_attachment_def wf_attachments_def
  by (intro scalar_one_or_none_unique distinct_map_filter_le_one [where key = a_id and k = aid]) auto

lemma delete_attachment_wf [wf_intros]: "wf_db d \<Longrightarrow> wf_db (delete_attachment aid d)"
  by (auto simp: delete_attachment_def wf_defs distinct_map_filter)

subsection \<open>Requests and responses\<close>

record attachment_reserve_request =
  arq_filename :: string
  arq_mime_type :: string
  arq_file_size :: int

record attachment_response =
  ar_id :: uuid
  ar_filename :: string
  ar_mime_type :: string
  ar_file_size :: int
  ar_uploaded_at :: "instant option"
  ar_download_url :: string

definition normalize_filename :: "string \<Rightarrow> string option" where
  "normalize_filename v =
     (let normalized = last (py_split CHR ''/'' (py_replace [CHR 0x5C] ''/'' (py_strip v)))
      in if normalized = [] \<or> normalized \<in> {''.'', ''..''} then None else Some normalized)"

definition normalize_mime_type :: "string \<Rightarrow> string" where
  "normalize_mime_type v = py_lower (py_strip v)"

definition parse_reserve_request :: "string \<Rightarrow> string \<Rightarrow> int \<Rightarrow> attachment_reserve_request option" where
  "parse_reserve_request filename mime_type file_size =
     (if \<not> (1 \<le> length filename \<and> length filename \<le> 255 \<and> 1 \<le> length mime_type \<and>
            length mime_type \<le> 120 \<and> 0 < file_size) then None
      else map_option (\<lambda>name. \<lparr>arq_filename = name, arq_mime_type = normalize_mime_type mime_type,
             arq_file_size = file_size\<rparr>) (normalize_filename filename))"

definition attachment_to_response :: "attachment \<Rightarrow> attachment_response" where
  "attachment_to_response a =
     \<lparr>ar_id = a_id a, ar_filename = a_filename a, ar_mime_type = a_mime_type a,
      ar_file_size = a_file_size a, ar_uploaded_at = a_uploaded_at a,
      ar_download_url = ''/attachments/'' @ uuid_str (a_id a) @ ''/download''\<rparr>"

lemma py_replace_char_absent: "n \<noteq> c \<Longrightarrow> c \<notin> set (py_replace [c] [n] s)"
  by (induction s) auto

text \<open>An accepted file name is never empty and names one plain path segment: it has no slash and
  no backslash and is neither one dot nor two dots, whatever path the client sent.\<close>

theorem accepted_filename_is_one_segment:
  assumes "parse_reserve_request filename mime_type file_size = Some request"
  shows "arq_filename request \<noteq> [] \<and> CHR ''/'' \<notin> set (arq_filename request) \<and>
    CHR 0x5C \<notin> set (arq_filename request) \<and> arq_filename request \<notin> {''.'', ''..''}"
proof -
  let ?s = "py_replace [CHR 0x5C] ''/'' (py_strip filename)"
  let ?name = "last (py_split CHR ''/'' ?s)"
  from assms have name: "arq_filename request = ?name" and ok: "?name \<noteq> []" "?name \<notin> {''.'', ''..''}"
    by (auto simp: parse_reserve_request_def normalize_filename_def Let_def split: if_splits)
  have part: "?name \<in> set (py_split CHR ''/'' ?s)" by simp
  have "set ?name \<subseteq> set ?s"
    using py_split_parts_subset [OF part] .
  moreover have "CHR 0x5C \<notin> set ?s" by (rule py_replace_char_absent) simp
  ultimately show ?thesis
    using name ok py_split_parts [OF part] by auto
qed

theorem accepted_filename_is_one_segment_witness:
  "parse_reserve_request (''..'' @ [CHR 0x5C] @ ''etc/passwd.TXT'') '' Text/Plain'' 5 =
      Some \<lparr>arq_filename = ''passwd.TXT'', arq_mime_type = ''text/plain'', arq_file_size = 5\<rparr> \<and>
    CHR ''/'' \<notin> set ''passwd.TXT''"
proof -
  have *: "parse_reserve_request (''..'' @ [CHR 0x5C] @ ''etc/passwd.TXT'') '' Text/Plain'' 5 =
      Some \<lparr>arq_filename = ''passwd.TXT'', arq_mime_type = ''text/plain'', arq_file_size = 5\<rparr>"
    by code_simp
  with accepted_filename_is_one_segment [OF *] show ?thesis by simp
qed

end
