(* ===== verification/Messages.thy ===== *)
theory Messages
  imports Conversations Cursor AttachmentStore Settings
begin

section \<open>Messages (services/message_service.py, schemas/message.py)\<close>

text \<open>
  Sending a message and reading pages of a conversation's history.  \<open>create_message\<close> reads the
  database it starts from and writes at its commit; \<open>env\<close> is what other sessions commit in
  between (they cannot touch the attachment rows it has locked).  A page is asked for with a
  cursor before or after which it lies; \<open>walk_before\<close> and \<open>walk_after\<close> follow the cursors the way
  the browser does.
\<close>

subsection \<open>Schemas\<close>

record message_create_request =
  mc_content :: string
  mc_attachment_ids :: "uuid list"

definition parse_message_create :: "string \<Rightarrow> uuid list \<Rightarrow> message_create_request option" where
  "parse_message_create content attachment_ids =
     (if 4000 < length content \<or> 10 < length attachment_ids then None
      else
        let content = py_strip content in
        if content = [] \<and> attachment_ids = [] then None
        else if \<not> distinct attachment_ids then None
        else Some \<lparr>mc_content = content, mc_attachment_ids = attachment_ids\<rparr>)"

record receipt_response =
  rr_user_id :: uuid
  rr_delivered_at :: "instant option"
  rr_read_at :: "instant option"

record message_response =
  mr_id :: uuid
  mr_conversation_id :: uuid
  mr_sender_id :: uuid
  mr_sender_username :: string
  mr_content :: string
  mr_created_at :: instant
  mr_edited_at :: "instant option"
  mr_cursor :: string
  mr_receipts :: "receipt_response list"
  mr_attachments :: "attachment_response list"

record message_page =
  mp_items :: "message_response list"
  mp_next_cursor :: "string option"

definition receipt_response :: "message_receipt \<Rightarrow> receipt_response" where
  "receipt_response r = \<lparr>rr_user_id = r_user_id r, rr_delivered_at = r_delivered_at r,
     rr_read_at = r_read_at r\<rparr>"

definition message_to_response ::
  "db \<Rightarrow> message \<Rightarrow> message_receipt list \<Rightarrow> attachment list \<Rightarrow> message_response result" where
  "message_to_response d m rs as = ebind (related_user d (m_sender_id m)) (\<lambda>sender.
     Inr \<lparr>mr_id = m_id m, mr_conversation_id = m_conversation_id m, mr_sender_id = m_sender_id m,
          mr_sender_username = u_username sender, mr_content = m_content m,
          mr_created_at = m_created_at m, mr_edited_at = m_edited_at m, mr_cursor = encode_cursor m,
          mr_receipts = map receipt_response rs, mr_attachments = map attachment_to_response as\<rparr>)"

definition message_receipts :: "db \<Rightarrow> uuid \<Rightarrow> message_receipt list" where
  "message_receipts d mid = filter (\<lambda>r. r_message_id r = mid) (receipts d)"

definition stored_response :: "db \<Rightarrow> message \<Rightarrow> message_response result" where
  "stored_response d m =
     message_to_response d m (message_receipts d (m_id m)) (message_attachments d (m_id m))"

subsection \<open>Sending\<close>

record message_fresh =
  mf_message_id :: uuid
  mf_receipt_id :: "nat \<Rightarrow> uuid"

definition empty_message :: exc where
  "empty_message = AppError 422 ''EMPTY_MESSAGE'' ''Message must contain text or an attachment''"

definition too_many_attachments :: exc where
  "too_many_attachments = AppError 422 ''TOO_MANY_ATTACHMENTS'' ''Message has too many attachments''"

definition duplicate_attachments :: exc where
  "duplicate_attachments = AppError 422 ''DUPLICATE_ATTACHMENTS'' ''Attachment IDs must be unique''"

definition invalid_attachments :: exc where
  "invalid_attachments =
     AppError 422 ''INVALID_ATTACHMENTS'' ''One or more attachments are invalid''"

definition new_message :: "uuid \<Rightarrow> instant \<Rightarrow> uuid \<Rightarrow> uuid \<Rightarrow> string \<Rightarrow> message" where
  "new_message mid now cid sender_id content =
     \<lparr>m_id = mid, m_conversation_id = cid, m_sender_id = sender_id, m_content = py_strip content,
      m_created_at = now, m_edited_at = None, m_deleted_at = None\<rparr>"

definition new_receipts :: "message_fresh \<Rightarrow> uuid list \<Rightarrow> message_receipt list" where
  "new_receipts fr recipients = map (\<lambda>(i, uid).
     \<lparr>r_id = mf_receipt_id fr i, r_message_id = mf_message_id fr, r_user_id = uid,
      r_delivered_at = None, r_read_at = None\<rparr>) (enumerate 0 recipients)"

text \<open>What the handler checks of the locked attachments, in the order requested.\<close>

definition attachment_usable :: "uuid \<Rightarrow> uuid \<Rightarrow> attachment \<Rightarrow> bool" where
  "attachment_usable cid sender_id a \<longleftrightarrow>
     \<not> (a_conversation_id a \<noteq> cid \<or> a_uploader_id a \<noteq> sender_id \<or> a_uploaded_at a = None \<or>
        a_message_id a \<noteq> None)"

definition bind_attachments :: "uuid \<Rightarrow> uuid list \<Rightarrow> db \<Rightarrow> db" where
  "bind_attachments mid ids d =
     d\<lparr>attachments := update_where (\<lambda>a. a_id a \<in> set ids) (bind_to_message mid) (attachments d)\<rparr>"

definition create_message ::
  "settings \<Rightarrow> (db \<Rightarrow> db) \<Rightarrow> message_fresh \<Rightarrow> instant \<Rightarrow> uuid \<Rightarrow> uuid \<Rightarrow> string \<Rightarrow> uuid list \<Rightarrow> db \<Rightarrow>
     (message_response \<times> db) result" where
  "create_message S env fr now cid sender_id content attachment_ids d =
     ebind (get_authorized d cid sender_id) (\<lambda>c.
     if py_strip content = [] \<and> attachment_ids = [] then Inl empty_message
     else if attachment_max_per_message S < int (length attachment_ids) then Inl too_many_attachments
     else if card (set attachment_ids) \<noteq> length attachment_ids then Inl duplicate_attachments
     else
       let locked = lock_for_message d attachment_ids;
           by_id = map_of (map (\<lambda>a. (a_id a, a)) locked)
       in if length (remdups (map a_id locked)) \<noteq> length attachment_ids then Inl invalid_attachments
          else
            let ordered = map (\<lambda>i. the (by_id i)) attachment_ids in
            if \<exists>a \<in> set ordered. \<not> attachment_usable cid sender_id a then Inl invalid_attachments
            else
              let m = new_message (mf_message_id fr) now cid sender_id content;
                  rs = new_receipts fr (filter (\<lambda>u. u \<noteq> sender_id) (member_ids d (c_id c)))
              in ebind (insert_message m (env d)) (\<lambda>d1.
                 ebind (insert_all insert_receipt rs d1) (\<lambda>d2.
                   let d3 = touch_conversation now (c_id c) (bind_attachments (m_id m) attachment_ids d2)
                   in ebind (message_to_response d3 m rs (map (bind_to_message (m_id m)) ordered))
                        (\<lambda>r. Inr (r, d3)))))"

subsection \<open>Reading pages\<close>

definition present :: "string option \<Rightarrow> bool" where
  "present s \<longleftrightarrow> s \<noteq> None \<and> s \<noteq> Some []"

definition both_cursors :: exc where
  "both_cursors = AppError 422 ''INVALID_CURSOR'' ''Use either before or after, not both''"

definition list_messages ::
  "int \<Rightarrow> db \<Rightarrow> uuid \<Rightarrow> uuid \<Rightarrow> nat \<Rightarrow> string option \<Rightarrow> string option \<Rightarrow> message_page result" where
  "list_messages server_offset d cid current_user_id limit before after =
     ebind (get_authorized d cid current_user_id) (\<lambda>_.
     if present before \<and> present after then Inl both_cursors
     else if present after then
       ebind (decode_cursor (the after)) (\<lambda>(after_created_at, after_id).
         let records = page_after d cid limit (instant_of server_offset after_created_at) after_id;
             has_more = (limit < length records);
             records = take limit records;
             next = (if has_more \<and> records \<noteq> [] then Some (encode_cursor (last records)) else None)
         in ebind (traverse (stored_response d) records) (\<lambda>items.
              Inr \<lparr>mp_items = items, mp_next_cursor = next\<rparr>))
     else
       ebind (if present before
              then ebind (decode_cursor (the before)) (\<lambda>(t, i). Inr (Some (instant_of server_offset t, i)))
              else Inr None) (\<lambda>position.
         let records = page_before d cid limit position;
             has_more = (limit < length records);
             records = take limit records;
             next = (if has_more \<and> records \<noteq> [] then Some (encode_cursor (last records)) else None)
         in ebind (traverse (stored_response d) (rev records)) (\<lambda>items.
              Inr \<lparr>mp_items = items, mp_next_cursor = next\<rparr>)))"

text \<open>
  A client that scrolls back: it asks for a page, puts it in front of what it has, and goes on
  with the cursor it got until there is none.
\<close>

fun walk_before ::
  "nat \<Rightarrow> int \<Rightarrow> db \<Rightarrow> uuid \<Rightarrow> uuid \<Rightarrow> nat \<Rightarrow> string option \<Rightarrow> message_response list option" where
  "walk_before 0 off d cid uid limit before = None"
| "walk_before (Suc n) off d cid uid limit before =
     (case list_messages off d cid uid limit before None of
        Inl e \<Rightarrow> None
      | Inr page \<Rightarrow>
          (case mp_next_cursor page of
             None \<Rightarrow> Some (mp_items page)
           | Some c \<Rightarrow> map_option (\<lambda>older. older @ mp_items page)
               (walk_before n off d cid uid limit (Some c))))"

text \<open>A client that reconnects: the pages after its last cursor, in order.\<close>

fun walk_after ::
  "nat \<Rightarrow> int \<Rightarrow> db \<Rightarrow> uuid \<Rightarrow> uuid \<Rightarrow> nat \<Rightarrow> string \<Rightarrow> message_response list option" where
  "walk_after 0 off d cid uid limit after = None"
| "walk_after (Suc n) off d cid uid limit after =
     (case list_messages off d cid uid limit None (Some after) of
        Inl e \<Rightarrow> None
      | Inr page \<Rightarrow>
          (case mp_next_cursor page of
             None \<Rightarrow> Some (mp_items page)
           | Some c \<Rightarrow> map_option (\<lambda>newer. mp_items page @ newer)
               (walk_after n off d cid uid limit c)))"

subsection \<open>History and positions\<close>

definition history :: "db \<Rightarrow> uuid \<Rightarrow> message list" where
  "history d cid = by_position (live_messages d cid)"

lemma set_history: "set (history d cid) = set (live_messages d cid)"
  by (simp add: history_def)

lemma length_history: "length (history d cid) = length (live_messages d cid)"
  by (simp add: history_def by_position_def)

lemma history_sorted:
  assumes "wf_messages d"
  shows "sorted (map message_pos (history d cid))" and "distinct (map message_pos (history d cid))"
proof -
  show "sorted (map message_pos (history d cid))"
    by (simp add: history_def by_position_def)
  have "distinct (map m_id (live_messages d cid))"
    using assms by (simp add: wf_messages_def live_messages_def distinct_map_filter)
  then have "distinct (map m_id (history d cid))"
    by (simp add: history_def by_position_def distinct_map)
  moreover have "map m_id (history d cid) = map snd (map message_pos (history d cid))"
    by (simp add: message_pos_def)
  ultimately show "distinct (map message_pos (history d cid))"
    by (metis distinct_map)
qed

lemma position_less:
  "m_created_at m < t \<or> (m_created_at m = t \<and> m_id m < i) \<longleftrightarrow> message_pos m < (t, i)"
  "m_created_at m > t \<or> (m_created_at m = t \<and> m_id m > i) \<longleftrightarrow> (t, i) < message_pos m"
  by (auto simp: message_pos_def less_prod_def)

lemma by_position_filter: "by_position (filter P ms) = filter P (by_position ms)"
  by (simp add: by_position_def filter_sort)

lemma page_before_None: "page_before d cid limit None = take (limit + 1) (rev (history d cid))"
  by (simp add: page_before_def history_def)

lemma page_before_nth:
  assumes "wf_messages d" and "k < length (history d cid)"
  shows "page_before d cid limit (Some (message_pos (history d cid ! k))) =
    take (limit + 1) (rev (take k (history d cid)))"
proof -
  have "page_before d cid limit (Some p) =
      take (limit + 1) (rev (filter (\<lambda>m. message_pos m < p) (history d cid)))" for p
    by (cases p) (simp only: page_before_def Let_def option.case prod.case position_less
        by_position_filter history_def)
  then show ?thesis
    by (simp add: filter_less_nth(1) [OF history_sorted [OF assms(1)] assms(2)])
qed

lemma page_after_nth:
  assumes "wf_messages d" and "k < length (history d cid)"
  shows "page_after d cid limit (m_created_at (history d cid ! k)) (m_id (history d cid ! k)) =
    take (limit + 1) (drop (Suc k) (history d cid))"
proof -
  have "page_after d cid limit t i =
      take (limit + 1) (filter (\<lambda>m. (t, i) < message_pos m) (history d cid))" for t i
    by (simp only: page_after_def position_less by_position_filter history_def)
  then show ?thesis
    by (simp add: message_pos_def [symmetric]
        filter_less_nth(2) [OF history_sorted [OF assms(1)] assms(2)])
qed

lemma encode_cursor_nonempty: "representable (m_created_at m) \<Longrightarrow> encode_cursor m \<noteq> []"
proof
  have empty: "decode_cursor [] = Inl invalid_cursor" by code_simp
  assume "representable (m_created_at m)" "encode_cursor m = []"
  with decode_encode_cursor show False using empty by (metis sum.distinct(1))
qed

lemma stored_response_exists:
  assumes "wf_db d" and "m \<in> set (messages d)"
  shows "\<exists>r. stored_response d m = Inr r \<and> mr_id r = m_id m \<and> mr_cursor r = encode_cursor m"
proof -
  from assms have "m_sender_id m \<in> user_ids d" by (auto simp: wf_db_def wf_messages_def)
  from related_user_exists [OF this] show ?thesis
    by (auto simp: stored_response_def message_to_response_def)
qed

subsection \<open>Following the cursors\<close>

text \<open>The page asked for with the cursor of a message, or with none.\<close>

definition cursor_at :: "message list \<Rightarrow> nat \<Rightarrow> string option" where
  "cursor_at H k = (if k < length H then Some (encode_cursor (H ! k)) else None)"

lemma list_before_page:
  assumes wf: "wf_db d" and gate: "get_authorized d cid uid = Inr c" and limit: "0 < limit"
    and rep: "\<forall>m \<in> set (live_messages d cid). representable (m_created_at m)"
    and f: "\<And>m. m \<in> set (history d cid) \<Longrightarrow> stored_response d m = Inr (f m)"
    and k: "k \<le> length (history d cid)"
  shows "list_messages off d cid uid limit (cursor_at (history d cid) k) None =
    Inr \<lparr>mp_items = map f (drop (k - limit) (take k (history d cid))),
         mp_next_cursor = (if limit < k then Some (encode_cursor (history d cid ! (k - limit))) else None)\<rparr>"
proof -
  let ?H = "history d cid"
  let ?pos = "if k < length ?H then Some (message_pos (?H ! k)) else None"
  have position: "(if present (cursor_at ?H k)
      then ebind (decode_cursor (the (cursor_at ?H k))) (\<lambda>(t, i). Inr (Some (instant_of off t, i)))
      else Inr None) = Inr ?pos"
  proof (cases "k < length ?H")
    case True
    then have "representable (m_created_at (?H ! k))"
      using rep set_history [of d cid] nth_mem by blast
    with True encode_cursor_nonempty [OF this] show ?thesis
      by (simp add: cursor_at_def present_def decode_encode_cursor instant_of_def message_pos_def)
  qed (simp add: cursor_at_def present_def)
  define R where "R = take (limit + 1) (rev (take k ?H))"
  have page: "page_before d cid limit ?pos = R"
    using page_before_nth [OF wf_dbD(5) [OF wf], of k cid limit] page_before_None [of d cid limit] k
    by (auto simp: R_def)
  have more: "limit < length R \<longleftrightarrow> limit < k" using k by (auto simp: R_def)
  have "take limit R = take limit (rev (take k ?H))" by (simp add: R_def min_def)
  then have records: "take limit R = rev (drop (k - limit) (take k ?H))"
    using k by (simp add: take_rev)
  have items: "traverse (stored_response d) (drop (k - limit) (take k ?H)) =
      Inr (map f (drop (k - limit) (take k ?H)))"
    by (rule traverse_total) (use f in \<open>blast dest: in_set_dropD in_set_takeD\<close>)
  have last: "last (rev (drop (k - limit) (take k ?H))) = ?H ! (k - limit)" if "limit < k"
    using that k limit by (simp add: last_rev hd_drop_conv_nth)
  have no_after: "\<not> present None" by (simp add: present_def)
  show ?thesis
    unfolding list_messages_def gate Let_def
    by (simp add: no_after position page more records items last) (use limit more k in auto)
qed

lemma walk_before_from:
  assumes wf: "wf_db d" and gate: "get_authorized d cid uid = Inr c" and limit: "0 < limit"
    and rep: "\<forall>m \<in> set (live_messages d cid). representable (m_created_at m)"
    and f: "\<And>m. m \<in> set (history d cid) \<Longrightarrow> stored_response d m = Inr (f m)"
  shows "k \<le> length (history d cid) \<Longrightarrow> k < n \<Longrightarrow>
    walk_before n off d cid uid limit (cursor_at (history d cid) k) = Some (map f (take k (history d cid)))"
proof (induction n arbitrary: k)
  case (Suc n)
  let ?H = "history d cid"
  note page = list_before_page [OF assms Suc.prems(1), of off]
  show ?case
  proof (cases "limit < k")
    case True
    have "walk_before n off d cid uid limit (cursor_at ?H (k - limit)) = Some (map f (take (k - limit) ?H))"
      by (rule Suc.IH) (use Suc.prems limit True in simp_all)
    moreover have "cursor_at ?H (k - limit) = Some (encode_cursor (?H ! (k - limit)))"
      using Suc.prems limit True by (simp add: cursor_at_def)
    moreover have "take (k - limit) ?H @ drop (k - limit) (take k ?H) = take k ?H"
      by (metis append_take_drop_id diff_le_self min.absorb1 take_take)
    ultimately show ?thesis
      using page True by (simp add: map_append [symmetric] del: map_append)
  qed (use page in simp)
qed simp

lemma list_after_page:
  assumes wf: "wf_db d" and gate: "get_authorized d cid uid = Inr c" and limit: "0 < limit"
    and rep: "\<forall>m \<in> set (live_messages d cid). representable (m_created_at m)"
    and f: "\<And>m. m \<in> set (history d cid) \<Longrightarrow> stored_response d m = Inr (f m)"
    and k: "k < length (history d cid)"
  shows "list_messages off d cid uid limit None (Some (encode_cursor (history d cid ! k))) =
    Inr \<lparr>mp_items = map f (take limit (drop (Suc k) (history d cid))),
         mp_next_cursor = (if k + limit + 1 < length (history d cid)
           then Some (encode_cursor (history d cid ! (k + limit))) else None)\<rparr>"
proof -
  let ?H = "history d cid" and ?c = "encode_cursor (history d cid ! k)"
  have r: "representable (m_created_at (?H ! k))"
    using rep set_history [of d cid] nth_mem [OF k] by blast
  note decode = decode_encode_cursor [OF r]
  have after: "present (Some ?c)" "\<not> present None"
    using encode_cursor_nonempty [OF r] by (simp_all add: present_def)
  define R where "R = take (limit + 1) (drop (Suc k) ?H)"
  have page: "page_after d cid limit (m_created_at (?H ! k)) (m_id (?H ! k)) = R"
    using page_after_nth [OF wf_dbD(5) [OF wf] k] by (simp add: R_def)
  have utc: "instant_of off \<lparr>local_micros = t, utc_offset = Some 0\<rparr> = t" for t
    by (simp add: instant_of_def)
  have more: "limit < length R \<longleftrightarrow> k + limit + 1 < length ?H"
    by (auto simp: R_def)
  have records: "take limit R = take limit (drop (Suc k) ?H)"
    by (simp add: R_def min_def)
  have items: "traverse (stored_response d) (take limit (drop (Suc k) ?H)) =
      Inr (map f (take limit (drop (Suc k) ?H)))"
    by (rule traverse_total) (use f in \<open>blast dest: in_set_dropD in_set_takeD\<close>)
  have last: "last (take limit (drop (Suc k) ?H)) = ?H ! (k + limit)" "take limit (drop (Suc k) ?H) \<noteq> []"
    if "k + limit + 1 < length ?H"
    using that limit by (simp_all add: last_conv_nth nth_take)
  show ?thesis
    unfolding list_messages_def gate Let_def
    by (simp add: after decode utc page more records items last) (use limit more in auto)
qed

lemma walk_after_from:
  assumes wf: "wf_db d" and gate: "get_authorized d cid uid = Inr c" and limit: "0 < limit"
    and rep: "\<forall>m \<in> set (live_messages d cid). representable (m_created_at m)"
    and f: "\<And>m. m \<in> set (history d cid) \<Longrightarrow> stored_response d m = Inr (f m)"
  shows "k < length (history d cid) \<Longrightarrow> length (history d cid) - k \<le> n \<Longrightarrow>
    walk_after n off d cid uid limit (encode_cursor (history d cid ! k)) =
      Some (map f (drop (Suc k) (history d cid)))"
proof (induction n arbitrary: k)
  case (Suc n)
  let ?H = "history d cid"
  note page = list_after_page [OF assms Suc.prems(1), of off]
  show ?case
  proof (cases "k + limit + 1 < length ?H")
    case True
    have "walk_after n off d cid uid limit (encode_cursor (?H ! (k + limit))) =
        Some (map f (drop (Suc (k + limit)) ?H))"
      by (rule Suc.IH) (use Suc.prems limit True in simp_all)
    moreover have "take limit (drop (Suc k) ?H) @ drop (Suc (k + limit)) ?H = drop (Suc k) ?H"
      by (metis add.commute add_Suc_right append_take_drop_id drop_drop)
    ultimately show ?thesis
      using page True by (simp add: map_append [symmetric] del: map_append)
  next
    case False
    then have "take limit (drop (Suc k) ?H) = drop (Suc k) ?H" by simp
    with page False show ?thesis by simp
  qed
qed simp

subsection \<open>What sending does\<close>

lemma insert_all_receipts_Inr:
  "insert_all insert_receipt rs d = Inr d' \<Longrightarrow> d' = d\<lparr>receipts := receipts d @ rs\<rparr>"
proof (induction rs arbitrary: d)
  case (Cons r rs)
  then obtain d1 where d1: "insert_receipt r d = Inr d1" and "insert_all insert_receipt rs d1 = Inr d'"
    by (auto simp: ebind_Inr_iff)
  with Cons.IH have "d' = d1\<lparr>receipts := receipts d1 @ rs\<rparr>" by blast
  moreover have "d1 = d\<lparr>receipts := receipts d @ [r]\<rparr>" using d1 by (simp add: insert_receipt_Inr_iff)
  ultimately show ?case by simp
qed simp

lemma insert_all_receipts_fresh:
  assumes "distinct (map r_id rs)" and "\<forall>r \<in> set rs. r_id r \<notin> r_id ` set (receipts d)"
    and "distinct (map receipt_key rs)" and "\<forall>r \<in> set rs. receipt_key r \<notin> receipt_key ` set (receipts d)"
    and "\<forall>r \<in> set rs. r_message_id r \<in> message_ids d \<and> r_user_id r \<in> user_ids d"
  shows "insert_all insert_receipt rs d = Inr (d\<lparr>receipts := receipts d @ rs\<rparr>)"
  using assms
proof (induction rs arbitrary: d)
  case (Cons r rs)
  have "insert_receipt r d = Inr (d\<lparr>receipts := receipts d @ [r]\<rparr>)"
    using Cons.prems by (simp add: insert_receipt_Inr_iff)
  moreover have "insert_all insert_receipt rs (d\<lparr>receipts := receipts d @ [r]\<rparr>) =
      Inr (d\<lparr>receipts := receipts d @ [r]\<rparr>\<lparr>receipts := receipts (d\<lparr>receipts := receipts d @ [r]\<rparr>) @ rs\<rparr>)"
    using Cons.prems by (intro Cons.IH) (force simp: image_iff)+
  ultimately show ?case by simp
qed simp

text \<open>The database a sent message leaves.\<close>

definition with_message ::
  "message_fresh \<Rightarrow> instant \<Rightarrow> uuid \<Rightarrow> uuid \<Rightarrow> string \<Rightarrow> uuid list \<Rightarrow> uuid list \<Rightarrow> db \<Rightarrow> db" where
  "with_message fr now cid sender_id content ids recipients d =
     touch_conversation now cid (bind_attachments (mf_message_id fr) ids
       (d\<lparr>messages := messages d @ [new_message (mf_message_id fr) now cid sender_id content],
          receipts := receipts d @ new_receipts fr recipients\<rparr>))"

lemma with_message_fields [simp]:
  "users (with_message fr now cid s content ids us d) = users d"
  "members (with_message fr now cid s content ids us d) = members d"
  "messages (with_message fr now cid s content ids us d) =
    messages d @ [new_message (mf_message_id fr) now cid s content]"
  "receipts (with_message fr now cid s content ids us d) = receipts d @ new_receipts fr us"
  "attachments (with_message fr now cid s content ids us d) =
    update_where (\<lambda>a. a_id a \<in> set ids) (bind_to_message (mf_message_id fr)) (attachments d)"
  by (simp_all add: with_message_def bind_attachments_def)

abbreviation recipients_of :: "db \<Rightarrow> uuid \<Rightarrow> uuid \<Rightarrow> uuid list" where
  "recipients_of d cid sender_id \<equiv> filter (\<lambda>u. u \<noteq> sender_id) (member_ids d cid)"

lemma locked_lookup:
  assumes "wf_attachments d"
  shows "map_of (map (\<lambda>a. (a_id a, a)) (lock_for_message d ids)) i =
    (if i \<in> set ids then get_attachment d i else None)"
proof (cases "ids = []")
  case False
  have "map_of (map (\<lambda>a. (a_id a, a)) (filter (\<lambda>a. a_id a \<in> set ids) as)) i =
      (if i \<in> set ids then find (\<lambda>a. a_id a = i) as else None)" for as :: "attachment list"
    by (induction as) auto
  with False show ?thesis by (simp add: lock_for_message_def get_attachment_def)
qed (simp add: lock_for_message_def)

lemma locked_count:
  assumes "wf_attachments d" and "distinct ids"
  shows "length (remdups (map a_id (lock_for_message d ids))) = length ids \<longleftrightarrow>
    (\<forall>i \<in> set ids. get_attachment d i \<noteq> None)"
proof -
  have ids: "set (map a_id (lock_for_message d ids)) = {i \<in> set ids. get_attachment d i \<noteq> None}"
    by (auto simp: lock_for_message_def get_attachment_def find_None_iff)
  have "length (remdups (map a_id (lock_for_message d ids))) = card {i \<in> set ids. get_attachment d i \<noteq> None}"
    using ids by (simp add: length_remdups_card_conv)
  moreover have "length ids = card (set ids)" using assms(2) by (simp add: distinct_card)
  ultimately have "length (remdups (map a_id (lock_for_message d ids))) = length ids \<longleftrightarrow>
      card {i \<in> set ids. get_attachment d i \<noteq> None} = card (set ids)" by simp
  also have "\<dots> \<longleftrightarrow> {i \<in> set ids. get_attachment d i \<noteq> None} = set ids"
    using card_subset_eq [of "set ids" "{i \<in> set ids. get_attachment d i \<noteq> None}"] by auto
  also have "\<dots> \<longleftrightarrow> (\<forall>i \<in> set ids. get_attachment d i \<noteq> None)" by auto
  finally show ?thesis .
qed

text \<open>The conditions a message must meet, and the commit that follows when it does.\<close>

definition sendable :: "uuid \<Rightarrow> uuid \<Rightarrow> attachment \<Rightarrow> bool" where
  "sendable cid sender_id a \<longleftrightarrow>
     a_conversation_id a = cid \<and> a_uploader_id a = sender_id \<and> a_uploaded_at a \<noteq> None \<and> a_message_id a = None"

lemma attachment_usable_iff: "attachment_usable cid sender_id a \<longleftrightarrow> sendable cid sender_id a"
  by (auto simp: attachment_usable_def sendable_def)

definition message_acceptable :: "settings \<Rightarrow> db \<Rightarrow> uuid \<Rightarrow> uuid \<Rightarrow> string \<Rightarrow> uuid list \<Rightarrow> bool" where
  "message_acceptable S d cid sender_id content ids \<longleftrightarrow>
     (py_strip content \<noteq> [] \<or> ids \<noteq> []) \<and> int (length ids) \<le> attachment_max_per_message S \<and>
     distinct ids \<and> (\<forall>i \<in> set ids. \<exists>a. get_attachment d i = Some a \<and> sendable cid sender_id a)"

definition commit_message ::
  "(db \<Rightarrow> db) \<Rightarrow> message_fresh \<Rightarrow> instant \<Rightarrow> uuid \<Rightarrow> uuid \<Rightarrow> string \<Rightarrow> uuid list \<Rightarrow> db \<Rightarrow>
     (message_response \<times> db) result" where
  "commit_message env fr now cid sender_id content ids d =
     (let m = new_message (mf_message_id fr) now cid sender_id content;
          us = recipients_of d cid sender_id
      in ebind (insert_message m (env d)) (\<lambda>d1.
         ebind (insert_all insert_receipt (new_receipts fr us) d1) (\<lambda>_.
           let d3 = with_message fr now cid sender_id content ids us (env d)
           in ebind (message_to_response d3 m (new_receipts fr us)
                (map (\<lambda>i. bind_to_message (m_id m) (the (get_attachment d i))) ids)) (\<lambda>r. Inr (r, d3)))))"

text \<open>The writing part of the service, on the attachments as they were read.\<close>

lemma commit_message_steps:
  fixes env fr now cid s content ids d
  defines "m \<equiv> new_message (mf_message_id fr) now cid s content" and "rs \<equiv> new_receipts fr (recipients_of d cid s)"
  shows "ebind (insert_message m (env d)) (\<lambda>d1. ebind (insert_all insert_receipt rs d1) (\<lambda>d2.
        ebind (message_to_response (touch_conversation now cid (bind_attachments (m_id m) ids d2)) m rs
          (map (bind_to_message (m_id m)) (map (\<lambda>i. the (get_attachment d i)) ids)))
        (\<lambda>r. Inr (r, touch_conversation now cid (bind_attachments (m_id m) ids d2))))) =
      commit_message env fr now cid s content ids d"
  unfolding commit_message_def Let_def m_def [symmetric] rs_def [symmetric]
proof (rule ebind_cong [OF refl], rule ebind_cong [OF refl])
  fix d1 d2 assume "insert_message m (env d) = Inr d1" "insert_all insert_receipt rs d1 = Inr d2"
  then have "d2 = env d\<lparr>messages := messages (env d) @ [m], receipts := receipts (env d) @ rs\<rparr>"
    by (auto simp: insert_message_Inr_iff dest!: insert_all_receipts_Inr)
  moreover have "m_id m = mf_message_id fr" by (simp add: m_def new_message_def)
  ultimately show "ebind (message_to_response (touch_conversation now cid (bind_attachments (m_id m) ids d2)) m rs
        (map (bind_to_message (m_id m)) (map (\<lambda>i. the (get_attachment d i)) ids)))
      (\<lambda>r. Inr (r, touch_conversation now cid (bind_attachments (m_id m) ids d2))) =
    ebind (message_to_response (with_message fr now cid s content ids (recipients_of d cid s) (env d)) m rs
        (map (\<lambda>i. bind_to_message (m_id m) (the (get_attachment d i))) ids))
      (\<lambda>r. Inr (r, with_message fr now cid s content ids (recipients_of d cid s) (env d)))"
    by (simp add: with_message_def comp_def m_def rs_def)
qed

lemma create_message_eq:
  assumes "wf_attachments d" and "get_authorized d cid s = Inr c"
  shows "create_message S env fr now cid s content ids d =
    (if message_acceptable S d cid s content ids then commit_message env fr now cid s content ids d
     else if py_strip content = [] \<and> ids = [] then Inl empty_message
     else if attachment_max_per_message S < int (length ids) then Inl too_many_attachments
     else if \<not> distinct ids then Inl duplicate_attachments
     else Inl invalid_attachments)"
proof -
  have cid: "c_id c = cid"
    using assms(2) get_conversation_SomeD by (auto simp: gate.check_Inr)
  have card: "card (set ids) = length ids \<longleftrightarrow> distinct ids"
    using card_distinct distinct_card by metis
  let ?by_id = "map_of (map (\<lambda>a. (a_id a, a)) (lock_for_message d ids))"
  have ordered: "map (\<lambda>i. the (?by_id i)) ids = map (\<lambda>i. the (get_attachment d i)) ids"
    by (simp add: locked_lookup [OF assms(1)])
  note commit = commit_message_steps [where env = env and d = d and fr = fr and now = now and cid = cid and s = s and content = content and ids = ids]
  show ?thesis
  proof (cases "distinct ids \<and> (\<forall>i \<in> set ids. get_attachment d i \<noteq> None)")
    case True
    then have usable: "(\<exists>a \<in> set (map (\<lambda>i. the (get_attachment d i)) ids). \<not> sendable cid s a) \<longleftrightarrow>
        \<not> (\<forall>i \<in> set ids. \<exists>a. get_attachment d i = Some a \<and> sendable cid s a)"
      by fastforce
    from True have count: "length (remdups (map a_id (lock_for_message d ids))) = length ids"
      using locked_count [OF assms(1)] by blast
    show ?thesis
      unfolding create_message_def assms(2) ebind.simps Let_def ordered card cid commit attachment_usable_iff usable count
      using True by (auto simp: message_acceptable_def)
  next
    case False
    then have "distinct ids \<Longrightarrow> length (remdups (map a_id (lock_for_message d ids))) \<noteq> length ids"
      using locked_count [OF assms(1)] by blast
    moreover have "\<not> message_acceptable S d cid s content ids"
      using False unfolding message_acceptable_def by fastforce
    ultimately show ?thesis
      unfolding create_message_def assms(2) ebind.simps Let_def card by simp
  qed
qed

lemma commit_message_InrD:
  assumes "commit_message env fr now cid s content ids d = Inr (r, d')"
  shows "d' = with_message fr now cid s content ids (recipients_of d cid s) (env d)"
    and "mr_id r = mf_message_id fr" and "mr_content r = py_strip content"
    and "map ar_id (mr_attachments r) = map (\<lambda>i. a_id (the (get_attachment d i))) ids"
    and "mf_message_id fr \<notin> message_ids (env d)" and "cid \<in> conversation_ids (env d)" and "s \<in> user_ids (env d)"
  using assms
  by (auto simp: commit_message_def message_to_response_def ebind_Inr_iff Let_def new_message_def
      insert_message_Inr_iff attachment_to_response_def bind_to_message_def comp_def)

lemma create_message_InrD:
  assumes "wf_attachments d" and "create_message S env fr now cid s content ids d = Inr (r, d')"
  shows "is_member d cid s" and "message_acceptable S d cid s content ids"
    and "commit_message env fr now cid s content ids d = Inr (r, d')"
proof -
  obtain c where c: "get_authorized d cid s = Inr c"
    using assms(2) by (auto simp: create_message_def ebind_Inr_iff)
  then show "is_member d cid s" by (simp add: gate.check_Inr)
  from assms(2) show "message_acceptable S d cid s content ids"
    "commit_message env fr now cid s content ids d = Inr (r, d')"
    unfolding create_message_eq [OF assms(1) c] by (auto split: if_splits)
qed

lemma r_user_id_new_receipts: "map r_user_id (new_receipts fr us) = us"
  by (simp add: new_receipts_def comp_def case_prod_beta)

lemma new_receipts_set:
  "r \<in> set (new_receipts fr us) \<Longrightarrow> r_message_id r = mf_message_id fr \<and> r_user_id r \<in> set us \<and>
    r_delivered_at r = None \<and> r_read_at r = None \<and> (\<exists>i < length us. r_id r = mf_receipt_id fr i)"
proof -
  assume "r \<in> set (new_receipts fr us)"
  then obtain i u where iu: "(i, u) \<in> set (zip [0..<length us] us)"
    and r: "r = \<lparr>r_id = mf_receipt_id fr i, r_message_id = mf_message_id fr, r_user_id = u,
      r_delivered_at = None, r_read_at = None\<rparr>"
    by (auto simp: new_receipts_def enumerate_eq_zip)
  from set_zip_leftD [OF iu] have "i < length us" by simp
  with r set_zip_rightD [OF iu] show ?thesis by auto
qed

lemma distinct_new_receipts:
  "inj_on (mf_receipt_id fr) {..<length us} \<Longrightarrow> distinct (map r_id (new_receipts fr us))"
  "distinct us \<Longrightarrow> distinct (map receipt_key (new_receipts fr us))"
proof -
  have "map r_id (new_receipts fr us) = map (mf_receipt_id fr) (map fst (enumerate 0 us))"
    by (simp only: new_receipts_def map_map comp_def case_prod_beta message_receipt.simps)
  then show "inj_on (mf_receipt_id fr) {..<length us} \<Longrightarrow> distinct (map r_id (new_receipts fr us))"
    by (simp add: distinct_map lessThan_atLeast0)
  have "map receipt_key (new_receipts fr us) = map (Pair (mf_message_id fr)) us"
    using r_user_id_new_receipts [of fr us] new_receipts_set [of _ fr us]
    by (metis (no_types, lifting) list.map_comp map_cong comp_apply)
  then show "distinct us \<Longrightarrow> distinct (map receipt_key (new_receipts fr us))"
    by (simp add: distinct_map inj_on_def)
qed

lemma distinct_member_ids: "wf_members d \<Longrightarrow> distinct (member_ids d cid)"
proof -
  assume "wf_members d"
  then have "distinct (map member_key (conversation_members d cid))"
    by (simp add: wf_members_def conversation_members_def distinct_map_filter)
  moreover have "map member_key (conversation_members d cid) = map (Pair cid) (member_ids d cid)"
    by (simp add: conversation_members_def member_ids_def)
  ultimately show ?thesis by (simp add: distinct_map)
qed

lemma member_ids_users: "wf_members d \<Longrightarrow> set (member_ids d cid) \<subseteq> user_ids d"
  by (auto simp: wf_members_def member_ids_def conversation_members_def)

lemma new_receipts_inserted:
  fixes d d1 fr cid s
  defines "us \<equiv> recipients_of d cid s"
  assumes wf: "wf_db d" and fresh: "mf_message_id fr \<in> message_ids d1"
    "\<And>r. r \<in> set (receipts d1) \<Longrightarrow> r_message_id r \<noteq> mf_message_id fr" "inj_on (mf_receipt_id fr) {..<length (members d)}"
    "mf_receipt_id fr ` {..<length (members d)} \<inter> r_id ` set (receipts d1) = {}" and users: "user_ids d \<subseteq> user_ids d1"
  shows "insert_all insert_receipt (new_receipts fr us) d1 = Inr (d1\<lparr>receipts := receipts d1 @ new_receipts fr us\<rparr>)"
proof (rule insert_all_receipts_fresh)
  have few: "length us \<le> length (members d)"
    unfolding us_def by (rule order_trans [OF length_filter_le]) (simp add: member_ids_def conversation_members_def)
  then show "distinct (map r_id (new_receipts fr us))"
    by (intro distinct_new_receipts(1) inj_on_subset [OF fresh(3)]) auto
  show "distinct (map receipt_key (new_receipts fr us))"
    using distinct_member_ids [OF wf_dbD(4) [OF wf]] by (intro distinct_new_receipts(2)) (simp add: us_def)
  show "\<forall>r \<in> set (new_receipts fr us). r_id r \<notin> r_id ` set (receipts d1)"
  proof
    fix r assume "r \<in> set (new_receipts fr us)"
    then obtain i where "i < length us" "r_id r = mf_receipt_id fr i" using new_receipts_set by metis
    then have "r_id r \<in> mf_receipt_id fr ` {..<length (members d)}" using few by auto
    then show "r_id r \<notin> r_id ` set (receipts d1)" using fresh(4) by auto
  qed
  have new: "r_message_id r = mf_message_id fr" "r_user_id r \<in> set us" if "r \<in> set (new_receipts fr us)" for r
    using that new_receipts_set by metis+
  show "\<forall>r \<in> set (new_receipts fr us). receipt_key r \<notin> receipt_key ` set (receipts d1)"
    using fresh(2) new(1) by fastforce
  show "\<forall>r \<in> set (new_receipts fr us). r_message_id r \<in> message_ids d1 \<and> r_user_id r \<in> user_ids d1"
    using new fresh(1) subsetD [OF users subsetD [OF member_ids_users [OF wf_dbD(4) [OF wf], of cid]]]
    by (auto simp: us_def)
qed

lemma commit_message_exists:
  assumes wf: "wf_db d" "wf_db (env d)" and keep: "user_ids d \<subseteq> user_ids (env d)"
    "conversation_ids d \<subseteq> conversation_ids (env d)" and fresh: "mf_message_id fr \<notin> message_ids (env d)"
    "inj_on (mf_receipt_id fr) {..<length (members d)}"
    "mf_receipt_id fr ` {..<length (members d)} \<inter> r_id ` set (receipts (env d)) = {}"
    and member: "is_member d cid s"
  shows "\<exists>r. commit_message env fr now cid s content ids d =
    Inr (r, with_message fr now cid s content ids (recipients_of d cid s) (env d))"
proof -
  let ?m = "new_message (mf_message_id fr) now cid s content"
  let ?us = "recipients_of d cid s"
  let ?d1 = "env d\<lparr>messages := messages (env d) @ [?m]\<rparr>"
  have s: "s \<in> user_ids (env d)" and cid: "cid \<in> conversation_ids (env d)"
    using is_member_wf [OF wf_dbD(4) [OF wf(1)] member] keep by blast+
  then have "insert_message ?m (env d) = Inr ?d1"
    using fresh(1) by (simp add: insert_message_Inr_iff new_message_def)
  moreover have "insert_all insert_receipt (new_receipts fr ?us) ?d1 =
      Inr (?d1\<lparr>receipts := receipts ?d1 @ new_receipts fr ?us\<rparr>)"
  proof (rule new_receipts_inserted)
    show "r_message_id r \<noteq> mf_message_id fr" if "r \<in> set (receipts ?d1)" for r
    proof -
      have "r_message_id r \<in> message_ids (env d)" using that wf_dbD(6) [OF wf(2)] by (auto simp: wf_receipts_def)
      with fresh(1) show ?thesis by metis
    qed
  qed (use fresh keep(1) wf(1) in \<open>simp_all add: new_message_def\<close>)
  moreover have "\<exists>r. message_to_response (with_message fr now cid s content ids ?us (env d)) ?m rs as = Inr r"
    for rs as
    using related_user_exists [of s "with_message fr now cid s content ids ?us (env d)"] s
    by (auto simp: message_to_response_def new_message_def)
  ultimately show ?thesis
    by (simp add: commit_message_def Let_def) (metis ebind.simps(2))
qed

lemma bind_to_message_frame:
  "map a_storage_key (update_where P (bind_to_message mid) as) = map a_storage_key as"
  "a_storage_key ` set (update_where P (bind_to_message mid) as) = a_storage_key ` set as"
  "a_conversation_id ` set (update_where P (bind_to_message mid) as) = a_conversation_id ` set as"
  "a_uploader_id ` set (update_where P (bind_to_message mid) as) = a_uploader_id ` set as"
  by (simp_all add: bind_to_message_def)

lemma bind_attachments_wf:
  assumes "wf_db d" and "mid \<in> message_ids d"
  shows "wf_db (bind_attachments mid ids d)"
proof -
  have sub: "a_message_id ` set (update_where P (bind_to_message mid) as) \<subseteq> insert (Some mid) (a_message_id ` set as)"
    for P as
    by (auto simp: update_where_def bind_to_message_def)
  have "a_message_id ` set (attachments d) \<subseteq> insert None (Some ` message_ids d)"
    using assms(1) by (simp add: wf_db_def wf_attachments_def)
  moreover have "Some mid \<in> insert None (Some ` message_ids d)"
    by (rule insertI2, rule imageI, rule assms(2))
  ultimately have "insert (Some mid) (a_message_id ` set (attachments d)) \<subseteq> insert None (Some ` message_ids d)"
    by (rule insert_subsetI [rotated])
  note refs = order_trans [OF sub this]
  have "wf_attachments (bind_attachments mid ids d)"
    using assms(1)
    by (simp add: wf_db_def wf_attachments_def bind_attachments_def bind_to_message_frame
        bound_row.keys_update refs del: image_update_where)
  moreover have "wf_users (bind_attachments mid ids d) = wf_users d"
    "wf_refresh_tokens (bind_attachments mid ids d) = wf_refresh_tokens d"
    "wf_conversations (bind_attachments mid ids d) = wf_conversations d"
    "wf_members (bind_attachments mid ids d) = wf_members d"
    "wf_messages (bind_attachments mid ids d) = wf_messages d"
    "wf_receipts (bind_attachments mid ids d) = wf_receipts d"
    by (simp_all add: bind_attachments_def wf_users_def wf_refresh_tokens_def wf_conversations_def
        wf_members_def wf_messages_def wf_receipts_def)
  ultimately show ?thesis using assms(1) by (simp add: wf_db_def)
qed

lemma commit_message_wf:
  assumes "commit_message env fr now cid s content ids d = Inr (r, d')" and "wf_db (env d)"
  shows "wf_db d'"
proof -
  let ?m = "new_message (mf_message_id fr) now cid s content"
  let ?us = "recipients_of d cid s"
  obtain d1 d2 where d1: "insert_message ?m (env d) = Inr d1"
    and d2: "insert_all insert_receipt (new_receipts fr ?us) d1 = Inr d2"
    using assms(1) by (auto simp: commit_message_def ebind_Inr_iff Let_def)
  then have "d2 = env d\<lparr>messages := messages (env d) @ [?m], receipts := receipts (env d) @ new_receipts fr ?us\<rparr>"
    by (auto simp: insert_message_Inr_iff dest!: insert_all_receipts_Inr)
  moreover have "wf_db d2"
    using insert_all_wf [OF d2] insert_message_wf [OF d1 assms(2)] insert_receipt_wf by blast
  moreover have "mf_message_id fr \<in> message_ids d2"
    using calculation(1) by (simp add: new_message_def)
  ultimately show ?thesis
    using commit_message_InrD(1) [OF assms(1)]
    by (simp add: with_message_def touch_conversation_wf bind_attachments_wf)
qed

subsection \<open>Properties\<close>

text \<open>C6: When exactly a message is accepted, and what a refused sender is told: with fresh
  identifiers and rows that other sessions did not delete, create_message succeeds iff the sender is
  a member, there is text or an attachment, the attachments are not too many, are all different, and
  each was uploaded by the sender to this conversation and belongs to no message; otherwise the
  error is that of the first condition that fails, the gate's 404 or 403 or one of the four 422s.\<close>

theorem create_message_accepts_iff:
  assumes "wf_db d" and "wf_db (env d)" and "user_ids d \<subseteq> user_ids (env d)"
    and "conversation_ids d \<subseteq> conversation_ids (env d)" and "mf_message_id fr \<notin> message_ids (env d)"
    and "inj_on (mf_receipt_id fr) {..<length (members d)}"
    and "mf_receipt_id fr ` {..<length (members d)} \<inter> r_id ` set (receipts (env d)) = {}"
  shows "case create_message S env fr now cid s content ids d of
      Inr _ \<Rightarrow> is_member d cid s \<and> (py_strip content \<noteq> [] \<or> ids \<noteq> []) \<and>
        int (length ids) \<le> attachment_max_per_message S \<and> distinct ids \<and>
        (\<forall>i \<in> set ids. \<exists>a. get_attachment d i = Some a \<and> sendable cid s a)
    | Inl e \<Rightarrow>
        if get_conversation d cid = None then e = conversation_not_found
        else if \<not> is_member d cid s then e = access_denied
        else if py_strip content = [] \<and> ids = [] then e = empty_message
        else if attachment_max_per_message S < int (length ids) then e = too_many_attachments
        else if \<not> distinct ids then e = duplicate_attachments
        else e = invalid_attachments \<and> (\<exists>i \<in> set ids. \<forall>a. get_attachment d i = Some a \<longrightarrow> \<not> sendable cid s a)"
proof (cases "is_member d cid s")
  case True
  then obtain c where "get_conversation d cid = Some c"
    using is_member_wf(1) [OF wf_dbD(4) [OF assms(1)] True] get_conversation_None_iff by blast
  then have c: "get_authorized d cid s = Inr c" using True by (simp add: gate.check_Inr)
  from commit_message_exists [of d env fr cid s now content ids, OF assms True] obtain r where
    "commit_message env fr now cid s content ids d =
      Inr (r, with_message fr now cid s content ids (recipients_of d cid s) (env d))" by blast
  then show ?thesis
    using True \<open>get_conversation d cid = Some c\<close>
    by (auto simp: create_message_eq [OF wf_dbD(7) [OF assms(1)] c] message_acceptable_def)
next
  case False
  then show ?thesis
    by (cases "get_conversation d cid") (simp_all add: create_message_def get_authorized_def)
qed

definition chat_db :: db where
  "chat_db = (with_direct 9 5 1 2 duo_db)
     \<lparr>messages := [\<lparr>m_id = 51, m_conversation_id = 9, m_sender_id = 1, m_content = ''one'',
         m_created_at = 100, m_edited_at = None, m_deleted_at = None\<rparr>],
      receipts := [\<lparr>r_id = 61, r_message_id = 51, r_user_id = 2, r_delivered_at = None, r_read_at = None\<rparr>],
      attachments := [\<lparr>a_id = 71, a_conversation_id = 9, a_uploader_id = 1, a_message_id = None,
         a_filename = ''a.png'', a_mime_type = ''image/png'', a_file_size = 3,
         a_storage_key = ''objects/a'', a_created_at = 90, a_uploaded_at = Some 95\<rparr>]\<rparr>"

definition chat_fresh :: message_fresh where
  "chat_fresh = \<lparr>mf_message_id = 52, mf_receipt_id = (\<lambda>i. 1000 + word_of_nat i)\<rparr>"

definition chat_fresh_1 :: message_fresh where
  "chat_fresh_1 = \<lparr>mf_message_id = 52, mf_receipt_id = (\<lambda>_. 1000)\<rparr>"

lemma chat_facts:
  "wf_db chat_db" "user_ids chat_db = {1, 2, 3}" "conversation_ids chat_db = {9}"
  "message_ids chat_db = {51}" "r_id ` set (receipts chat_db) = {61}"
  "members chat_db = [new_member 9 5 1, new_member 9 5 2]"
  by (simp_all add: chat_db_def wf_defs with_direct_def new_direct_def new_member_def duo_db_def
      empty_db_def duo_user_def)


lemma chat_send: "\<exists>r d'. create_message default_settings id chat_fresh_1 200 9 1 ''  two '' [71] chat_db = Inr (r, d')"
proof -
  have "case create_message default_settings id chat_fresh_1 200 9 1 ''  two '' [71] chat_db of Inl _ \<Rightarrow> False | Inr _ \<Rightarrow> True"
    by code_simp
  then show ?thesis by (auto split: sum.splits)
qed


theorem create_message_accepts_iff_witness:
  "create_message default_settings id chat_fresh 200 9 3 ''hi'' [] chat_db = Inl access_denied"
proof -
  have "\<not> is_member chat_db 9 3" by (simp add: is_member_def chat_facts(6) new_member_def)
  moreover have "get_conversation chat_db 9 \<noteq> None"
    using is_member_wf(1) [OF wf_dbD(4) [OF chat_facts(1)], of 9 1]
    by (auto simp: get_conversation_None_iff is_member_def chat_facts(6) new_member_def)
  moreover have "inj_on (mf_receipt_id chat_fresh) {..<length (members chat_db)}"
    "mf_receipt_id chat_fresh ` {..<length (members chat_db)} \<inter> r_id ` set (receipts chat_db) = {}"
    by (simp_all add: chat_facts(5,6) chat_fresh_def inj_on_def less_2_cases_iff lessThan_nat_numeral lessThan_Suc)
  ultimately show ?thesis
    using create_message_accepts_iff [where d = chat_db and env = id and fr = chat_fresh and cid = 9
        and S = default_settings and now = 200 and s = 3 and content = "''hi''" and ids = "[]"]
      chat_facts(1-4) by (auto simp: chat_fresh_def split: sum.splits)
qed

text \<open>C12: Scrolling back by cursors shows the whole history: for any page size, a member who follows
  next_cursor from the newest page gets every undeleted message of the conversation exactly once,
  in order of creation time and identifier, and the walk ends after at most as many requests as
  there are messages and one.\<close>

theorem history_walk_complete:
  assumes "wf_db d" and "get_authorized d cid uid = Inr c" and "0 < limit"
    and "\<forall>m \<in> set (live_messages d cid). representable (m_created_at m)"
    and "length (live_messages d cid) < n"
  shows "\<exists>ms. walk_before n off d cid uid limit None = Some ms \<and>
    map mr_id ms = map m_id (by_position (live_messages d cid))"
proof -
  define f where "f m = projr (stored_response d m)" for m
  have f: "stored_response d m = Inr (f m) \<and> mr_id (f m) = m_id m" if "m \<in> set (history d cid)" for m
    using stored_response_exists [OF assms(1), of m] that
    by (auto simp: f_def set_history live_messages_set)
  have "walk_before n off d cid uid limit (cursor_at (history d cid) (length (history d cid))) =
      Some (map f (take (length (history d cid)) (history d cid)))"
    by (rule walk_before_from [OF assms(1-4)]) (use f assms(5) in \<open>simp_all add: length_history\<close>)
  then have "walk_before n off d cid uid limit None = Some (map f (history d cid))"
    by (simp add: cursor_at_def)
  moreover have "map mr_id (map f (history d cid)) = map m_id (history d cid)"
    using f by simp
  ultimately show ?thesis by (simp add: history_def)
qed

text \<open>C22: Reconnecting loses nothing that was committed: a member who follows after cursors from a
  message gets, exactly once and in order, every undeleted message of the conversation that is
  later in time and identifier, whatever the page size.\<close>

theorem recovery_after_cursor_complete:
  assumes "wf_db d" and "get_authorized d cid uid = Inr c" and "0 < limit"
    and "\<forall>m \<in> set (live_messages d cid). representable (m_created_at m)"
    and "m \<in> set (live_messages d cid)" and "length (live_messages d cid) \<le> n"
  shows "\<exists>ms. walk_after n off d cid uid limit (encode_cursor m) = Some ms \<and>
    map mr_id ms = map m_id (filter (\<lambda>x. message_pos m < message_pos x) (by_position (live_messages d cid)))"
proof -
  define f where "f m = projr (stored_response d m)" for m
  have f: "stored_response d m = Inr (f m) \<and> mr_id (f m) = m_id m" if "m \<in> set (history d cid)" for m
    using stored_response_exists [OF assms(1), of m] that
    by (auto simp: f_def set_history live_messages_set)
  obtain k where k: "k < length (history d cid)" "history d cid ! k = m"
    using assms(5) by (metis in_set_conv_nth set_history)
  have "walk_after n off d cid uid limit (encode_cursor (history d cid ! k)) =
      Some (map f (drop (Suc k) (history d cid)))"
    by (rule walk_after_from [OF assms(1-4)]) (use f k assms(6) in \<open>simp_all add: length_history\<close>)
  moreover have "drop (Suc k) (history d cid) =
      filter (\<lambda>x. message_pos m < message_pos x) (history d cid)"
    using filter_less_nth(2) [OF history_sorted [OF wf_dbD(5) [OF assms(1)]] k(1)] k(2) by simp
  moreover have "map mr_id (map f (drop (Suc k) (history d cid))) = map m_id (drop (Suc k) (history d cid))"
    using f by (auto dest: in_set_dropD)
  ultimately show ?thesis using k(2) by (simp add: history_def)
qed

definition two_messages_db :: db where
  "two_messages_db = chat_db\<lparr>messages := messages chat_db @
     [\<lparr>m_id = 50, m_conversation_id = 9, m_sender_id = 2, m_content = ''zero'', m_created_at = 90,
       m_edited_at = None, m_deleted_at = None\<rparr>]\<rparr>"

lemma two_messages_facts:
  "wf_db two_messages_db" "\<exists>c. get_authorized two_messages_db 9 2 = Inr c"
  "\<forall>m \<in> set (live_messages two_messages_db 9). representable (m_created_at m)"
  "map m_id (by_position (live_messages two_messages_db 9)) = [50, 51]"
proof -
  show "wf_db two_messages_db"
    by (simp add: two_messages_db_def chat_db_def wf_defs with_direct_def new_direct_def new_member_def
        duo_db_def empty_db_def duo_user_def)
  have "case get_authorized two_messages_db 9 2 of Inl _ \<Rightarrow> False | Inr _ \<Rightarrow> True" by code_simp
  then show "\<exists>c. get_authorized two_messages_db 9 2 = Inr c" by (auto split: sum.splits)
  show "\<forall>m \<in> set (live_messages two_messages_db 9). representable (m_created_at m)" by code_simp
  show "map m_id (by_position (live_messages two_messages_db 9)) = [50, 51]" by code_simp
qed

lemma two_messages_length: "length (live_messages two_messages_db 9) = 2"
  by code_simp

theorem history_walk_complete_witness:
  "\<exists>ms. walk_before 3 0 two_messages_db 9 2 1 None = Some ms \<and> map mr_id ms = [50, 51]"
proof -
  obtain c where "get_authorized two_messages_db 9 2 = Inr c" using two_messages_facts(2) by blast
  from history_walk_complete [OF two_messages_facts(1) this _ two_messages_facts(3), of 1 3 0]
  show ?thesis by (simp add: two_messages_length two_messages_facts(4))
qed

theorem recovery_after_cursor_complete_witness:
  "\<exists>m ms. m \<in> set (live_messages two_messages_db 9) \<and> m_id m = 50 \<and>
    walk_after 2 0 two_messages_db 9 1 1 (encode_cursor m) = Some ms \<and> map mr_id ms = [51]"
proof -
  let ?m = "hd (by_position (live_messages two_messages_db 9))"
  have "case get_authorized two_messages_db 9 1 of Inl _ \<Rightarrow> False | Inr _ \<Rightarrow> True" by code_simp
  then obtain c where c: "get_authorized two_messages_db 9 1 = Inr c" by (auto split: sum.splits)
  have m: "?m \<in> set (live_messages two_messages_db 9)" "m_id ?m = 50"
    "map m_id (filter (\<lambda>x. message_pos ?m < message_pos x) (by_position (live_messages two_messages_db 9))) = [51]"
    by code_simp+
  from recovery_after_cursor_complete [OF two_messages_facts(1) c _ two_messages_facts(3) m(1), of 1 2 0]
  show ?thesis using m by (auto simp: two_messages_length)
qed

text \<open>Recovery by cursor can miss a message: the creation time is taken before the commit, so when
  a message is committed after one with a later time that a client already has, the page after
  that client's cursor is the same as without the message, although the message is now part of the
  conversation.\<close>

theorem late_commit_not_recovered:
  assumes "wf_db d" and "wf_db (env d)" and "create_message S env fr now cid s content ids d = Inr (r, d')"
    and "seen \<in> set (live_messages (env d) cid)" and "now < m_created_at seen"
  shows "mr_id r \<in> set (map m_id (live_messages d' cid)) \<and>
    (\<forall>limit. page_after d' cid limit (m_created_at seen) (m_id seen) =
      page_after (env d) cid limit (m_created_at seen) (m_id seen))"
proof -
  let ?m = "new_message (mf_message_id fr) now cid s content"
  note ok = create_message_InrD [OF wf_dbD(7) [OF assms(1)] assms(3)]
  have "live_messages d' cid = live_messages (env d) cid @ [?m]"
    using commit_message_InrD(1) [OF ok(3)] by (simp add: live_messages_def new_message_def)
  then show ?thesis
    using commit_message_InrD(2) [OF ok(3)] assms(5)
    by (simp add: page_after_def new_message_def)
qed

text \<open>Bob's message of time 300 commits while Alice's, of time 200, is being sent.\<close>

definition overtake :: "db \<Rightarrow> db" where
  "overtake d = d\<lparr>messages := messages d @ [\<lparr>m_id = 53, m_conversation_id = 9, m_sender_id = 2,
     m_content = ''three'', m_created_at = 300, m_edited_at = None, m_deleted_at = None\<rparr>]\<rparr>"

theorem late_commit_not_recovered_witness:
  "\<exists>r d'. create_message default_settings overtake chat_fresh_1 200 9 1 ''late'' [] chat_db = Inr (r, d') \<and>
    mr_id r \<in> set (map m_id (live_messages d' 9)) \<and> page_after d' 9 100 300 53 = []"
proof -
  have "case create_message default_settings overtake chat_fresh_1 200 9 1 ''late'' [] chat_db of Inl _ \<Rightarrow> False
    | Inr _ \<Rightarrow> True" by code_simp
  then obtain r d' where run:
    "create_message default_settings overtake chat_fresh_1 200 9 1 ''late'' [] chat_db = Inr (r, d')"
    by (auto split: sum.splits)
  have "wf_db (overtake chat_db)"
    by (simp add: overtake_def chat_db_def wf_defs with_direct_def new_direct_def new_member_def
        duo_db_def empty_db_def duo_user_def)
  moreover have "last (messages (overtake chat_db)) \<in> set (live_messages (overtake chat_db) 9)"
    "m_created_at (last (messages (overtake chat_db))) = 300" "m_id (last (messages (overtake chat_db))) = 53"
    "page_after (overtake chat_db) 9 100 300 53 = []"
    by code_simp+
  ultimately show ?thesis
    using late_commit_not_recovered [OF chat_facts(1) _ run, of "last (messages (overtake chat_db))"] run
    by auto
qed

end
