(* ===== verification/Receipts.thy ===== *)
theory Receipts
  imports Messages
begin

section \<open>Delivery and read receipts (services/receipt_service.py, repositories/receipt_repository.py)\<close>

text \<open>
  Marking receipts delivered and read.  Each operation selects the rows that are not marked yet,
  marks them with one reading of the clock, commits, and reports one event per marked row.  The
  lemmas say what a marking that no marked row is selected for does when it is repeated; the
  properties, that times once set never change, that what is read was delivered, and that reading
  through the newest message leaves nothing unread.
\<close>

subsection \<open>The operations\<close>

record receipt_event =
  re_message_id :: uuid
  re_conversation_id :: uuid
  re_user_id :: uuid
  re_delivered_at :: "instant option"
  re_read_at :: "instant option"

definition set_delivered :: "instant \<Rightarrow> message_receipt \<Rightarrow> message_receipt" where
  "set_delivered now r = r\<lparr>r_delivered_at := Some now\<rparr>"

definition set_read :: "instant \<Rightarrow> message_receipt \<Rightarrow> message_receipt" where
  "set_read now r = r\<lparr>r_delivered_at := (case r_delivered_at r of None \<Rightarrow> Some now | Some t \<Rightarrow> Some t),
     r_read_at := Some now\<rparr>"

definition undelivered_to :: "uuid \<Rightarrow> uuid list \<Rightarrow> message_receipt \<Rightarrow> bool" where
  "undelivered_to mid uids r \<longleftrightarrow>
     r_message_id r = mid \<and> r_user_id r \<in> set uids \<and> r_delivered_at r = None"

definition pending_for :: "uuid \<Rightarrow> message_receipt \<Rightarrow> bool" where
  "pending_for uid r \<longleftrightarrow> r_user_id r = uid \<and> r_delivered_at r = None"

definition unread_through :: "db \<Rightarrow> uuid \<Rightarrow> uuid \<Rightarrow> instant \<Rightarrow> uuid \<Rightarrow> message_receipt \<Rightarrow> bool" where
  "unread_through d cid uid t i r \<longleftrightarrow> r_user_id r = uid \<and> r_read_at r = None \<and>
     (\<exists>m \<in> set (messages d). m_id m = r_message_id r \<and> m_conversation_id m = cid \<and>
        (m_created_at m < t \<or> (m_created_at m = t \<and> m_id m \<le> i)))"

text \<open>The rows changed, after the change, and the table with them.\<close>

definition mark_rows ::
  "(message_receipt \<Rightarrow> bool) \<Rightarrow> (message_receipt \<Rightarrow> message_receipt) \<Rightarrow> db \<Rightarrow> message_receipt list \<times> db" where
  "mark_rows sel upd d =
     (map upd (filter sel (receipts d)), d\<lparr>receipts := update_where sel upd (receipts d)\<rparr>)"

definition mark_delivered_rows :: "uuid \<Rightarrow> uuid list \<Rightarrow> instant \<Rightarrow> db \<Rightarrow> message_receipt list \<times> db" where
  "mark_delivered_rows mid uids now d =
     (if uids = [] then ([], d) else mark_rows (undelivered_to mid uids) (set_delivered now) d)"

definition mark_pending_rows :: "uuid \<Rightarrow> instant \<Rightarrow> db \<Rightarrow> message_receipt list \<times> db" where
  "mark_pending_rows uid now d = mark_rows (pending_for uid) (set_delivered now) d"

definition mark_read_rows ::
  "uuid \<Rightarrow> uuid \<Rightarrow> instant \<Rightarrow> uuid \<Rightarrow> instant \<Rightarrow> db \<Rightarrow> message_receipt list \<times> db" where
  "mark_read_rows cid uid target_created_at target_id now d =
     mark_rows (unread_through d cid uid target_created_at target_id) (set_read now) d"

definition receipt_to_event :: "db \<Rightarrow> message_receipt \<Rightarrow> receipt_event result" where
  "receipt_to_event d r =
     (case get_message d (r_message_id r) of
        None \<Rightarrow> Inl AttributeError
      | Some m \<Rightarrow> Inr \<lparr>re_message_id = r_message_id r, re_conversation_id = m_conversation_id m,
          re_user_id = r_user_id r, re_delivered_at = r_delivered_at r, re_read_at = r_read_at r\<rparr>)"

definition report :: "message_receipt list \<times> db \<Rightarrow> (receipt_event list \<times> db) result" where
  "report changed = ebind (traverse (receipt_to_event (snd changed)) (fst changed)) (\<lambda>events.
     Inr (events, snd changed))"

definition mark_delivered :: "instant \<Rightarrow> uuid \<Rightarrow> uuid list \<Rightarrow> db \<Rightarrow> (receipt_event list \<times> db) result" where
  "mark_delivered now mid uids d = report (mark_delivered_rows mid uids now d)"

definition mark_pending_delivered :: "instant \<Rightarrow> uuid \<Rightarrow> db \<Rightarrow> (receipt_event list \<times> db) result" where
  "mark_pending_delivered now uid d = report (mark_pending_rows uid now d)"

definition message_not_found :: exc where
  "message_not_found = AppError 404 ''MESSAGE_NOT_FOUND'' ''Message was not found''"

definition receipt_rank :: "db \<Rightarrow> message_receipt \<Rightarrow> instant \<times> uuid" where
  "receipt_rank d r = (case get_message d (r_message_id r) of
     None \<Rightarrow> (0, r_message_id r) | Some m \<Rightarrow> (m_created_at m, r_message_id r))"

definition mark_read ::
  "instant \<Rightarrow> uuid \<Rightarrow> uuid \<Rightarrow> uuid \<Rightarrow> db \<Rightarrow> (receipt_event list \<times> db) result" where
  "mark_read now cid mid uid d =
     ebind (get_authorized d cid uid) (\<lambda>_.
     case get_message d mid of
       None \<Rightarrow> Inl message_not_found
     | Some target \<Rightarrow>
         if m_conversation_id target \<noteq> cid then Inl message_not_found
         else
           let (changed, d') = mark_read_rows cid uid (m_created_at target) (m_id target) now d
           in report (sort_key (receipt_rank d') changed, d'))"

subsection \<open>Marking rows once\<close>

text \<open>A marking after which a row is no longer selected: repeating it finds nothing to do.\<close>

locale marking =
  fixes sel :: "'p \<Rightarrow> 'r \<Rightarrow> bool" and upd :: "'t \<Rightarrow> 'r \<Rightarrow> 'r"
  assumes done_once: "sel p r \<Longrightarrow> \<not> sel p (upd t r)"
begin

lemma none_left: "filter (sel p) (update_where (sel p) (upd t) rows) = []"
  by (induction rows) (auto simp: done_once)

lemma mark_twice:
  "update_where (sel p) (upd t') (update_where (sel p) (upd t) rows) = update_where (sel p) (upd t) rows"
  by (induction rows) (auto simp: done_once)

end

interpretation delivery: marking "\<lambda>(mid, us). undelivered_to mid us" set_delivered
  by unfold_locales (auto simp: undelivered_to_def set_delivered_def)

interpretation pending: marking pending_for set_delivered
  by unfold_locales (auto simp: pending_for_def set_delivered_def)

interpretation reading: marking "\<lambda>(d, cid, uid, t, i). unread_through d cid uid t i" set_read
  by unfold_locales (auto simp: unread_through_def set_read_def)

interpretation delivered_row: keyed_update receipt_key set_delivered
  by unfold_locales (simp add: set_delivered_def)

interpretation read_row: keyed_update receipt_key set_read
  by unfold_locales (simp add: set_read_def)

text \<open>How a receipt may change: its identity stays, its times are set once.\<close>

definition advances :: "message_receipt \<Rightarrow> message_receipt \<Rightarrow> bool" where
  "advances r r' \<longleftrightarrow> r_id r' = r_id r \<and> receipt_key r' = receipt_key r \<and>
     (r_delivered_at r \<noteq> None \<longrightarrow> r_delivered_at r' = r_delivered_at r) \<and>
     (r_read_at r \<noteq> None \<longrightarrow> r_read_at r' = r_read_at r) \<and>
     (r_read_at r = None \<and> r_read_at r' \<noteq> None \<longrightarrow> r_delivered_at r' \<noteq> None)"

lemma advances_refl [simp]: "advances r r"
  by (auto simp: advances_def)

lemma advances_set_delivered: "r_delivered_at r = None \<Longrightarrow> advances r (set_delivered t r)"
  by (simp add: advances_def set_delivered_def)

lemma advances_set_read: "r_read_at r = None \<Longrightarrow> advances r (set_read t r)"
  by (auto simp: advances_def set_read_def split: option.split)

lemma update_where_advances:
  assumes "\<And>r. sel r \<Longrightarrow> advances r (upd r)"
  shows "list_all2 advances rows (update_where sel upd rows)"
  by (induction rows) (auto simp: assms)

definition receipts_ok :: "db \<Rightarrow> bool" where
  "receipts_ok d \<longleftrightarrow> (\<forall>r \<in> set (receipts d). r_read_at r \<noteq> None \<longrightarrow> r_delivered_at r \<noteq> None)"

lemma advances_receipts_ok:
  assumes "list_all2 advances (receipts d) (receipts d')" and "receipts_ok d"
  shows "receipts_ok d'"
  unfolding receipts_ok_def
proof
  fix r' assume "r' \<in> set (receipts d')"
  then obtain r where "r \<in> set (receipts d)" "advances r r'"
    using assms(1) by (metis list_all2_conv_all_nth in_set_conv_nth)
  with assms(2) show "r_read_at r' \<noteq> None \<longrightarrow> r_delivered_at r' \<noteq> None"
    unfolding receipts_ok_def advances_def by metis
qed

lemma list_all2_advances_keys:
  assumes "list_all2 advances rs rs'"
  shows "map r_id rs' = map r_id rs" and "map receipt_key rs' = map receipt_key rs"
  using assms by (induction rule: list_all2_induct) (auto simp: advances_def)

lemma r_keys: "map r_message_id xs = map fst (map receipt_key xs)"
  "map r_user_id xs = map snd (map receipt_key xs)"
  by simp_all

lemma receipts_refs:
  assumes "map receipt_key rs = map receipt_key rs'"
  shows "r_message_id ` set rs = r_message_id ` set rs'" and "r_user_id ` set rs = r_user_id ` set rs'"
proof -
  have "map r_message_id rs = map r_message_id rs'" "map r_user_id rs = map r_user_id rs'"
    using assms unfolding r_keys by (simp_all only:)
  then show "r_message_id ` set rs = r_message_id ` set rs'" "r_user_id ` set rs = r_user_id ` set rs'"
    unfolding set_map [symmetric] by (simp_all only:)
qed

lemma advance_wf:
  assumes "wf_db d" and "list_all2 advances (receipts d) rs"
  shows "wf_db (d\<lparr>receipts := rs\<rparr>)"
proof -
  note keys = list_all2_advances_keys [OF assms(2)]
  have "wf_receipts (d\<lparr>receipts := rs\<rparr>)"
    using assms(1) keys receipts_refs [OF keys(2)] by (simp add: wf_db_def wf_receipts_def)
  with assms(1) show ?thesis
    by (simp add: wf_db_def wf_users_def wf_refresh_tokens_def wf_conversations_def wf_members_def
        wf_messages_def wf_attachments_def)
qed

lemma report_exists:
  assumes "wf_db d" and "\<And>r. r \<in> set changed \<Longrightarrow> r_message_id r \<in> message_ids d"
  shows "\<exists>es. report (changed, d) = Inr (es, d) \<and>
    map (\<lambda>e. (re_message_id e, re_user_id e, re_delivered_at e, re_read_at e)) es =
    map (\<lambda>r. (r_message_id r, r_user_id r, r_delivered_at r, r_read_at r)) changed"
proof -
  have "\<exists>e. receipt_to_event d r = Inr e \<and> (re_message_id e, re_user_id e, re_delivered_at e, re_read_at e) =
      (r_message_id r, r_user_id r, r_delivered_at r, r_read_at r)" if "r \<in> set changed" for r
    using assms(2) [OF that]
    by (cases "get_message d (r_message_id r)") (auto simp: receipt_to_event_def get_message_def find_None_iff)
  then obtain g where g: "\<And>r. r \<in> set changed \<Longrightarrow> receipt_to_event d r = Inr (g r) \<and>
      (re_message_id (g r), re_user_id (g r), re_delivered_at (g r), re_read_at (g r)) =
      (r_message_id r, r_user_id r, r_delivered_at r, r_read_at r)" by metis
  then have "traverse (receipt_to_event d) changed = Inr (map g changed)"
    by (intro traverse_total) blast
  then show ?thesis using g by (auto simp: report_def)
qed

subsection \<open>What the operations do\<close>

lemma update_where_no_users: "update_where (undelivered_to mid []) upd rows = rows"
  by (rule update_where_none) (simp add: undelivered_to_def)

lemma mark_rows_exists:
  assumes wf: "wf_db d" and adv: "\<And>r. sel r \<Longrightarrow> advances r (upd r)"
    and changed: "set changed = set (map upd (filter sel (receipts d)))"
  defines "d' \<equiv> d\<lparr>receipts := update_where sel upd (receipts d)\<rparr>"
  shows "wf_db d'" and "list_all2 advances (receipts d) (receipts d')"
    and "\<exists>es. report (changed, d') = Inr (es, d') \<and>
      map (\<lambda>e. (re_message_id e, re_user_id e, re_delivered_at e, re_read_at e)) es =
      map (\<lambda>r. (r_message_id r, r_user_id r, r_delivered_at r, r_read_at r)) changed"
proof -
  note all = update_where_advances [of sel upd "receipts d", OF adv]
  show wf': "wf_db d'" unfolding d'_def by (rule advance_wf [OF wf all])
  show "list_all2 advances (receipts d) (receipts d')" using all by (simp add: d'_def)
  have "r_message_id (upd r) \<in> message_ids d'" if "r \<in> set (receipts d)" "sel r" for r
  proof -
    have "r_message_id (upd r) = r_message_id r" using adv [OF that(2)] by (simp add: advances_def)
    moreover have "r_message_id r \<in> message_ids d"
      using wf that(1) by (auto simp: wf_db_def wf_receipts_def)
    ultimately show ?thesis by (simp add: d'_def)
  qed
  with changed show "\<exists>es. report (changed, d') = Inr (es, d') \<and>
      map (\<lambda>e. (re_message_id e, re_user_id e, re_delivered_at e, re_read_at e)) es =
      map (\<lambda>r. (r_message_id r, r_user_id r, r_delivered_at r, r_read_at r)) changed"
    by (intro report_exists [OF wf']) auto
qed

lemma undelivered_advances: "undelivered_to mid us r \<Longrightarrow> advances r (set_delivered now r)"
  by (rule advances_set_delivered) (simp add: undelivered_to_def)

lemma pending_advances: "pending_for uid r \<Longrightarrow> advances r (set_delivered now r)"
  by (rule advances_set_delivered) (simp add: pending_for_def)

lemma unread_advances: "unread_through d cid uid t i r \<Longrightarrow> advances r (set_read now r)"
  by (rule advances_set_read) (simp add: unread_through_def)

lemma report_Inr: "report c = Inr (es, d') \<Longrightarrow> d' = snd c"
  by (auto simp: report_def ebind_Inr_iff)

lemma mark_delivered_eq:
  "mark_delivered now mid us d =
    report (mark_rows (undelivered_to mid us) (set_delivered now) d)"
  by (simp add: mark_delivered_def mark_delivered_rows_def mark_rows_def update_where_no_users
      undelivered_to_def)

lemma mark_delivered_exists:
  assumes "wf_db d"
  shows "\<exists>es. mark_delivered now mid us d =
    Inr (es, d\<lparr>receipts := update_where (undelivered_to mid us) (set_delivered now) (receipts d)\<rparr>)"
  using mark_rows_exists(3) [where sel = "undelivered_to mid us" and upd = "set_delivered now", OF assms undelivered_advances [of mid us] refl]
  by (auto simp: mark_delivered_eq mark_rows_def)

lemma mark_pending_exists:
  assumes "wf_db d"
  shows "\<exists>es. mark_pending_delivered now uid d =
    Inr (es, d\<lparr>receipts := update_where (pending_for uid) (set_delivered now) (receipts d)\<rparr>)"
  using mark_rows_exists(3) [where sel = "pending_for uid" and upd = "set_delivered now", OF assms pending_advances [of uid] refl]
  by (auto simp: mark_pending_delivered_def mark_pending_rows_def mark_rows_def)

lemma mark_read_exists:
  assumes "wf_db d" and "is_member d cid uid" and "get_message d mid = Some target"
    and "m_conversation_id target = cid"
  shows "\<exists>es. mark_read now cid mid uid d = Inr (es,
    d\<lparr>receipts := update_where (unread_through d cid uid (m_created_at target) (m_id target)) (set_read now)
      (receipts d)\<rparr>)"
proof -
  obtain c where "get_conversation d cid = Some c"
    using is_member_wf(1) [OF wf_dbD(4) [OF assms(1)] assms(2)] get_conversation_None_iff by blast
  then have "get_authorized d cid uid = Inr c" using assms(2) by (simp add: gate.check_Inr)
  note gate = this
  let ?sel = "unread_through d cid uid (m_created_at target) (m_id target)"
  let ?d' = "d\<lparr>receipts := update_where ?sel (set_read now) (receipts d)\<rparr>"
  have "\<exists>es. report (sort_key (receipt_rank ?d') (map (set_read now) (filter ?sel (receipts d))), ?d') = Inr (es, ?d')"
    using mark_rows_exists(3) [where sel = ?sel and upd = "set_read now" and
        changed = "sort_key (receipt_rank ?d') (map (set_read now) (filter ?sel (receipts d)))",
        OF assms(1) unread_advances [of d cid uid "m_created_at target" "m_id target"]] by auto
  then show ?thesis
    using assms(3,4) gate by (auto simp: mark_read_def mark_read_rows_def mark_rows_def)
qed

lemma mark_read_InrD:
  assumes "mark_read now cid mid uid d = Inr (es, d')"
  obtains target where "get_message d mid = Some target" and "m_conversation_id target = cid"
    and "is_member d cid uid"
    and "d' = d\<lparr>receipts := update_where (unread_through d cid uid (m_created_at target) (m_id target)) (set_read now)
      (receipts d)\<rparr>"
proof -
  obtain c where "get_authorized d cid uid = Inr c" using assms by (auto simp: mark_read_def ebind_Inr_iff)
  then have "is_member d cid uid" by (simp add: gate.check_Inr)
  with assms show thesis
    by (auto simp: mark_read_def mark_read_rows_def mark_rows_def ebind_Inr_iff split: option.splits if_splits
        dest!: report_Inr intro!: that)
qed

lemma unread_through_cong:
  "messages d = messages d' \<Longrightarrow> unread_through d = unread_through d'"
  by (simp add: unread_through_def fun_eq_iff)

subsection \<open>Histories of receipts\<close>

inductive receipt_step :: "settings \<Rightarrow> db \<Rightarrow> db \<Rightarrow> bool" for S where
  delivered: "mark_delivered now mid us d = Inr (es, d') \<Longrightarrow> receipt_step S d d'"
| pending: "mark_pending_delivered now uid d = Inr (es, d') \<Longrightarrow> receipt_step S d d'"
| read: "mark_read now cid mid uid d = Inr (es, d') \<Longrightarrow> receipt_step S d d'"
| sent: "create_message S id fr now cid s content ids d = Inr (r, d') \<Longrightarrow> receipt_step S d d'"

text \<open>The old receipts, advanced, and new ones that are unmarked.\<close>

definition receipts_grow :: "db \<Rightarrow> db \<Rightarrow> bool" where
  "receipts_grow d d' \<longleftrightarrow> (\<exists>old new. receipts d' = old @ new \<and> list_all2 advances (receipts d) old \<and>
     (\<forall>r \<in> set new. r_read_at r \<noteq> None \<longrightarrow> r_delivered_at r \<noteq> None))"

lemma advances_trans: "advances r s \<Longrightarrow> advances s t \<Longrightarrow> advances r t"
  unfolding advances_def by metis

lemma advances_keeps_ok:
  "advances r s \<Longrightarrow> (r_read_at r \<noteq> None \<longrightarrow> r_delivered_at r \<noteq> None) \<Longrightarrow>
    (r_read_at s \<noteq> None \<longrightarrow> r_delivered_at s \<noteq> None)"
  unfolding advances_def by metis

lemma receipts_grow_refl: "receipts_grow d d"
  unfolding receipts_grow_def
  by (intro exI [of _ "receipts d"] exI [of _ "[]"]) (simp add: list_all2_refl)

lemma receipts_grow_trans:
  assumes "receipts_grow a b" and "receipts_grow b c"
  shows "receipts_grow a c"
proof -
  obtain old new where b: "receipts b = old @ new" "list_all2 advances (receipts a) old"
    "\<forall>r \<in> set new. r_read_at r \<noteq> None \<longrightarrow> r_delivered_at r \<noteq> None"
    using assms(1) by (auto simp: receipts_grow_def)
  obtain old' new' where c: "receipts c = old' @ new'" "list_all2 advances (old @ new) old'"
    "\<forall>r \<in> set new'. r_read_at r \<noteq> None \<longrightarrow> r_delivered_at r \<noteq> None"
    using assms(2) b(1) by (auto simp: receipts_grow_def)
  from c(2) obtain o1 o2 where parts: "old' = o1 @ o2" "list_all2 advances old o1" "list_all2 advances new o2"
    by (auto simp: list_all2_append1)
  have "list_all2 advances (receipts a) o1"
    by (rule list_all2_trans [OF advances_trans b(2) parts(2)])
  moreover have "\<forall>r \<in> set o2. r_read_at r \<noteq> None \<longrightarrow> r_delivered_at r \<noteq> None"
    using parts(3) b(3) advances_keeps_ok by (fastforce simp: list_all2_conv_all_nth in_set_conv_nth)
  ultimately show ?thesis
    unfolding receipts_grow_def using c(1,3) parts(1)
    by (intro exI [of _ o1] exI [of _ "o2 @ new'"]) auto
qed

lemma receipts_grow_update:
  "list_all2 advances (receipts d) (receipts d') \<Longrightarrow> receipts_grow d d'"
  unfolding receipts_grow_def by (intro exI [of _ "receipts d'"] exI [of _ "[]"]) simp

lemma receipt_step_grows:
  assumes "receipt_step S d d'" and "wf_db d"
  shows "wf_db d' \<and> receipts_grow d d'"
  using assms(1)
proof cases
  case (delivered now mid us es)
  then have "d' = d\<lparr>receipts := update_where (undelivered_to mid us) (set_delivered now) (receipts d)\<rparr>"
    by (simp add: mark_delivered_eq mark_rows_def report_Inr [of "(_, _)", simplified])
  then show ?thesis
    using mark_rows_exists(1,2) [where sel = "undelivered_to mid us" and upd = "set_delivered now", OF assms(2) undelivered_advances [of mid us] refl] receipts_grow_update by simp
next
  case (pending now uid es)
  then have "d' = d\<lparr>receipts := update_where (pending_for uid) (set_delivered now) (receipts d)\<rparr>"
    by (simp add: mark_pending_delivered_def mark_pending_rows_def mark_rows_def report_Inr [of "(_, _)", simplified])
  then show ?thesis
    using mark_rows_exists(1,2) [where sel = "pending_for uid" and upd = "set_delivered now", OF assms(2) pending_advances [of uid] refl] receipts_grow_update by simp
next
  case (read now cid mid uid es)
  from read obtain target :: message where "d' = d\<lparr>receipts := update_where
      (unread_through d cid uid (m_created_at target) (m_id target)) (set_read now) (receipts d)\<rparr>"
    by (elim mark_read_InrD)
  then show ?thesis
    using mark_rows_exists(1,2) [where sel = "unread_through d cid uid (m_created_at target) (m_id target)" and upd = "set_read now",
      OF assms(2) unread_advances [of d cid uid "m_created_at target" "m_id target"] refl]
      receipts_grow_update by simp
next
  case (sent fr now cid s content ids r)
  note ok = create_message_InrD [OF wf_dbD(7) [OF assms(2)] sent]
  have "receipts d' = receipts d @ new_receipts fr (recipients_of d cid s)"
    using commit_message_InrD(1) [OF ok(3)] by simp
  then have "receipts_grow d d'"
    unfolding receipts_grow_def
    by (intro exI [of _ "receipts d"] exI [of _ "new_receipts fr (recipients_of d cid s)"])
      (auto simp: list_all2_refl dest: new_receipts_set)
  then show ?thesis using commit_message_wf [OF ok(3)] assms(2) by simp
qed

lemma receipts_grow_ok:
  assumes "receipts_grow d d'" and "receipts_ok d"
  shows "receipts_ok d'"
proof -
  obtain old new where parts: "receipts d' = old @ new" "list_all2 advances (receipts d) old"
    "\<forall>r \<in> set new. r_read_at r \<noteq> None \<longrightarrow> r_delivered_at r \<noteq> None"
    using assms(1) by (auto simp: receipts_grow_def)
  have "receipts_ok (d\<lparr>receipts := old\<rparr>)"
    by (rule advances_receipts_ok [of d]) (use parts(2) assms(2) in simp_all)
  with parts(1,3) show ?thesis by (auto simp: receipts_ok_def)
qed

lemma receipt_steps_grow:
  "(receipt_step S)\<^sup>*\<^sup>* d d' \<Longrightarrow> wf_db d \<Longrightarrow> wf_db d' \<and> receipts_grow d d'"
proof (induction rule: rtranclp_induct)
  case base
  then show ?case by (simp add: receipts_grow_refl)
next
  case (step y z)
  then show ?case using receipt_step_grows receipts_grow_trans by blast
qed

subsection \<open>Properties\<close>

text \<open>C13: The receipt table only moves forward: through any sequence of messages sent and receipts marked
  delivered, pending ones delivered, or read, the database stays well formed, every receipt keeps
  its identity, message and user, a delivery or read time once set is never changed, and if every
  read receipt was delivered before, every read receipt is delivered afterwards.\<close>

theorem receipt_times_set_once:
  assumes "(receipt_step S)\<^sup>*\<^sup>* d d'" and "wf_db d"
  shows "wf_db d' \<and> (receipts_ok d \<longrightarrow> receipts_ok d') \<and>
    (\<forall>r \<in> set (receipts d). \<exists>r' \<in> set (receipts d'). r_id r' = r_id r \<and>
      r_message_id r' = r_message_id r \<and> r_user_id r' = r_user_id r \<and>
      (r_delivered_at r \<noteq> None \<longrightarrow> r_delivered_at r' = r_delivered_at r) \<and>
      (r_read_at r \<noteq> None \<longrightarrow> r_read_at r' = r_read_at r))"
proof -
  from receipt_steps_grow [OF assms] obtain old new where wf: "wf_db d'"
    and parts: "receipts d' = old @ new" "list_all2 advances (receipts d) old"
    "\<forall>r \<in> set new. r_read_at r \<noteq> None \<longrightarrow> r_delivered_at r \<noteq> None"
    by (auto simp: receipts_grow_def)
  have "receipts_ok d'" if "receipts_ok d"
    using receipts_grow_ok receipt_steps_grow [OF assms] that by blast
  moreover have "\<exists>r' \<in> set (receipts d'). advances r r'" if "r \<in> set (receipts d)" for r
    using parts that by (force simp: list_all2_conv_all_nth in_set_conv_nth)
  ultimately show ?thesis
    using wf unfolding advances_def by (metis prod.inject)
qed

text \<open>Bob's client connects, then Bob reads Alice's message.\<close>

theorem receipt_times_set_once_witness:
  "\<exists>d'. (receipt_step default_settings)\<^sup>*\<^sup>* chat_db d' \<and>
    (\<exists>r \<in> set (receipts d'). r_user_id r = 2 \<and> r_delivered_at r = Some 150 \<and> r_read_at r = Some 160) \<and>
    wf_db d' \<and> receipts_ok d'"
proof -
  define d1 where "d1 = chat_db\<lparr>receipts := update_where (pending_for 2) (set_delivered 150) (receipts chat_db)\<rparr>"
  define d2 where "d2 = d1\<lparr>receipts := update_where (unread_through d1 9 2 100 51) (set_read 160) (receipts d1)\<rparr>"
  have one: "receipt_step default_settings chat_db d1"
    using mark_pending_exists [OF chat_facts(1), of 150 2] receipt_step.pending unfolding d1_def by metis
  obtain m where m: "get_message d1 51 = Some m" "m_conversation_id m = 9" "m_created_at m = 100" "m_id m = 51"
    by (simp add: d1_def chat_db_def get_message_def)
  have "is_member d1 9 2" by (simp add: d1_def is_member_def chat_facts(6) new_member_def)
  with mark_read_exists [OF receipt_step_grows [OF one chat_facts(1), THEN conjunct1] _ m(1,2), of 2 160]
  have "receipt_step default_settings d1 d2"
    unfolding d2_def m(3,4) using receipt_step.read by metis
  with one have steps: "(receipt_step default_settings)\<^sup>*\<^sup>* chat_db d2"
    by (meson converse_rtranclp_into_rtranclp r_into_rtranclp)
  moreover have "\<exists>r \<in> set (receipts d2). r_user_id r = 2 \<and> r_delivered_at r = Some 150 \<and> r_read_at r = Some 160"
    unfolding d2_def d1_def by code_simp
  moreover have "receipts_ok chat_db" by (simp add: receipts_ok_def chat_db_def)
  ultimately show ?thesis using receipt_times_set_once [OF steps chat_facts(1)] by blast
qed

lemma get_message_unique: "wf_messages d \<Longrightarrow> m \<in> set (messages d) \<Longrightarrow> get_message d (m_id m) = Some m"
  by (simp add: get_message_def wf_messages_def find_key_distinct)

lemma get_latest_max:
  assumes "get_latest d cid = Some m" and "x \<in> set (live_messages d cid)"
  shows "message_pos x \<le> message_pos m"
proof -
  let ?H = "history d cid"
  have "?H \<noteq> []" using assms(2) set_history [of d cid] by auto
  with assms(1) have m: "m = ?H ! (length ?H - 1)"
    by (simp add: get_latest_def history_def [symmetric] rev_nth hd_rev last_conv_nth take_Suc
        split: list.splits)
  from assms(2) obtain i where i: "i < length ?H" "x = ?H ! i"
    by (metis in_set_conv_nth set_history)
  have "sorted (map message_pos ?H)" by (simp add: history_def by_position_def)
  then have "map message_pos ?H ! i \<le> map message_pos ?H ! (length ?H - 1)"
    using i by (intro sorted_nth_mono) auto
  with i m show ?thesis by simp
qed

lemma unread_count_update:
  assumes "\<And>r. r_message_id (upd r) = r_message_id r" and "\<And>r. r_user_id (upd r) = r_user_id r"
    and "\<And>r. sel r \<Longrightarrow> r_user_id r \<noteq> v"
  shows "unread_count (d\<lparr>receipts := update_where sel upd (receipts d)\<rparr>) cid v = unread_count d cid v"
proof -
  have "length (filter P (update_where sel upd rows)) = length (filter P rows)"
    if "\<And>r. sel r \<Longrightarrow> P (upd r) = P r" for P and rows :: "message_receipt list"
    using that by (induction rows) auto
  then show ?thesis
    unfolding unread_count_def using assms by (fastforce simp: assms(1,2))
qed

text \<open>C31: Reading the newest message leaves nothing unread: in a conversation without deleted messages, a
  member's mark_read of the latest message succeeds, afterwards that member's unread count there is
  zero, and every other user's unread count, in every conversation, is what it was.\<close>

theorem reading_latest_clears_unread:
  assumes "wf_db d" and "is_member d cid uid" and "get_latest d cid = Some m"
    and "\<forall>x \<in> set (messages d). m_deleted_at x = None"
  shows "\<exists>es d'. mark_read now cid (m_id m) uid d = Inr (es, d') \<and> unread_count d' cid uid = 0 \<and>
    (\<forall>v other. v \<noteq> uid \<longrightarrow> unread_count d' other v = unread_count d other v)"
proof -
  have live: "m \<in> set (messages d)" "m_conversation_id m = cid"
    using get_latest_SomeD [OF assms(3)] by (simp_all add: live_messages_set)
  let ?sel = "unread_through d cid uid (m_created_at m) (m_id m)"
  let ?d' = "d\<lparr>receipts := update_where ?sel (set_read now) (receipts d)\<rparr>"
  obtain es where es: "mark_read now cid (m_id m) uid d = Inr (es, ?d')"
    using mark_read_exists [OF assms(1,2) get_message_unique [OF wf_dbD(5) [OF assms(1)] live(1)] live(2)] by blast
  have "m_created_at x < m_created_at m \<or> (m_created_at x = m_created_at m \<and> m_id x \<le> m_id m)"
    if "x \<in> set (messages d)" "m_conversation_id x = cid" for x
  proof -
    have "x \<in> set (live_messages d cid)" using that assms(4) by (simp add: live_messages_set)
    from get_latest_max [OF assms(3) this] show ?thesis by (auto simp: message_pos_def less_eq_prod_def)
  qed
  then have "?sel r" if "r_user_id r = uid" "r_read_at r = None" "y \<in> set (messages d)"
    "m_id y = r_message_id r" "m_conversation_id y = cid" for r y
    using that unfolding unread_through_def by blast
  then have "filter (\<lambda>r. r_user_id r = uid \<and> r_read_at r = None \<and>
      (\<exists>y \<in> set (messages d). m_id y = r_message_id r \<and> m_conversation_id y = cid))
      (update_where ?sel (set_read now) (receipts d)) = []"
    by (auto simp: filter_empty_conv set_update_where set_read_def)
  then have "unread_count ?d' cid uid = 0" by (simp add: unread_count_def)
  moreover have "unread_count ?d' other v = unread_count d other v" if "v \<noteq> uid" for v other
    by (rule unread_count_update) (use that in \<open>auto simp: set_read_def unread_through_def\<close>)
  ultimately show ?thesis using es by blast
qed

theorem reading_latest_clears_unread_witness:
  "\<exists>es d'. mark_read 160 9 51 2 chat_db = Inr (es, d') \<and> unread_count chat_db 9 2 = 1 \<and> unread_count d' 9 2 = 0"
proof -
  have latest: "map_option m_id (get_latest chat_db 9) = Some 51" by code_simp
  then obtain m where m: "get_latest chat_db 9 = Some m" "m_id m = 51" by auto
  have "is_member chat_db 9 2" by (simp add: is_member_def chat_facts(6) new_member_def)
  moreover have "\<forall>x \<in> set (messages chat_db). m_deleted_at x = None" "unread_count chat_db 9 2 = 1"
    by code_simp+
  ultimately show ?thesis
    using reading_latest_clears_unread [OF chat_facts(1) _ m(1), of 2 160] m(2) by auto
qed

text \<open>Marking is idempotent: delivering a message to the same users, delivering a user's pending
  messages, or reading through the same message a second time, at any later time, changes no row
  and reports no event.\<close>

theorem marking_idempotent:
  assumes "wf_db d"
  shows "(mark_delivered now mid us d = Inr (es, d') \<longrightarrow> mark_delivered now' mid us d' = Inr ([], d')) \<and>
    (mark_pending_delivered now uid d = Inr (es, d') \<longrightarrow> mark_pending_delivered now' uid d' = Inr ([], d')) \<and>
    (mark_read now cid mid uid d = Inr (es, d') \<longrightarrow> mark_read now' cid mid uid d' = Inr ([], d'))"
proof (intro conjI impI)
  assume "mark_delivered now mid us d = Inr (es, d')"
  then have "d' = d\<lparr>receipts := update_where (undelivered_to mid us) (set_delivered now) (receipts d)\<rparr>"
    using mark_delivered_exists [OF assms, of now mid us] by auto
  then show "mark_delivered now' mid us d' = Inr ([], d')"
    using delivery.none_left [of "(mid, us)" now] delivery.mark_twice [of "(mid, us)" now']
    by (simp add: mark_delivered_eq mark_rows_def report_def)
next
  assume "mark_pending_delivered now uid d = Inr (es, d')"
  then have "d' = d\<lparr>receipts := update_where (pending_for uid) (set_delivered now) (receipts d)\<rparr>"
    using mark_pending_exists [OF assms, of now uid] by auto
  then show "mark_pending_delivered now' uid d' = Inr ([], d')"
    using pending.none_left [of uid now] pending.mark_twice [of uid now']
    by (simp add: mark_pending_delivered_def mark_pending_rows_def mark_rows_def report_def)
next
  assume "mark_read now cid mid uid d = Inr (es, d')"
  then obtain target :: message where t: "get_message d mid = Some target" "m_conversation_id target = cid"
    "is_member d cid uid"
    and d': "d' = d\<lparr>receipts := update_where (unread_through d cid uid (m_created_at target) (m_id target))
      (set_read now) (receipts d)\<rparr>"
    by (rule mark_read_InrD)
  obtain c where "get_conversation d cid = Some c"
    using is_member_wf(1) [OF wf_dbD(4) [OF assms] t(3)] get_conversation_None_iff by blast
  then have "get_authorized d' cid uid = Inr c"
    using t(3) d' gate.check_reads [of d' d cid uid] by (simp add: gate.check_Inr)
  moreover have "get_message d' mid = Some target" using t(1) d' by (simp add: get_message_def)
  moreover have "unread_through d' = unread_through d" by (rule unread_through_cong) (simp add: d')
  ultimately show "mark_read now' cid mid uid d' = Inr ([], d')"
    using t(2) d' reading.none_left [of "(d, cid, uid, m_created_at target, m_id target)" now]
      reading.mark_twice [of "(d, cid, uid, m_created_at target, m_id target)" now']
    by (simp add: mark_read_def mark_read_rows_def mark_rows_def report_def)
qed

theorem marking_idempotent_witness:
  "\<exists>es d'. mark_pending_delivered 150 2 chat_db = Inr (es, d') \<and> length (receipts d') = 1 \<and>
    mark_pending_delivered 170 2 d' = Inr ([], d')"
proof -
  from mark_pending_exists [OF chat_facts(1), of 150 2] obtain es d' where
    run: "mark_pending_delivered 150 2 chat_db = Inr (es, d')" and "length (receipts d') = length (receipts chat_db)"
    by auto
  moreover have "length (receipts chat_db) = 1" by code_simp
  moreover have "mark_pending_delivered 170 2 d' = Inr ([], d')"
    using marking_idempotent [OF chat_facts(1)] run by blast
  ultimately show ?thesis by auto
qed

end
