(* ===== verification/Events.thy ===== *)
theory Events
  imports Messages Receipts
begin

section \<open>The events of the WebSocket protocol (websocket/events.py)\<close>

text \<open>
  What a client may send, read from a JSON value the way the pydantic models validate it, and what
  the server sends, as the JSON that \<open>model_dump(mode="json")\<close> gives.  Pydantic's own UUID reader
  (\<open>pu\<close>) and its text for datetimes (\<open>dt\<close>) are parameters; all that is used of the first is that it
  reads what \<open>str\<close> of a UUID writes.
\<close>

subsection \<open>Client events\<close>

datatype client_event =
    MessageSendEvent (send_request_id: "string option") (event_conversation: uuid) string "uuid list"
  | MessageReadRequest (read_request_id: "string option") (event_conversation: uuid) uuid
  | TypingStartEvent (event_conversation: uuid)
  | TypingStopEvent (event_conversation: uuid)

definition uuid_value :: "(string \<Rightarrow> uuid option) \<Rightarrow> json \<Rightarrow> uuid option" where
  "uuid_value pu v = (case v of JStr s \<Rightarrow> pu s | _ \<Rightarrow> None)"

definition uuid_field :: "(string \<Rightarrow> uuid option) \<Rightarrow> json_dict \<Rightarrow> string \<Rightarrow> uuid option" where
  "uuid_field pu p k = Option.bind (map_of p k) (uuid_value pu)"

text \<open>\<open>Optional[str] = Field(default=None, max_length=64)\<close>: None when invalid.\<close>

definition request_id_field :: "json_dict \<Rightarrow> string option option" where
  "request_id_field p =
     (case map_of p ''request_id'' of
        None \<Rightarrow> Some None
      | Some JNull \<Rightarrow> Some None
      | Some (JStr s) \<Rightarrow> if length s \<le> 64 then Some (Some s) else None
      | Some _ \<Rightarrow> None)"

definition content_field :: "json_dict \<Rightarrow> string option" where
  "content_field p =
     (case map_of p ''content'' of None \<Rightarrow> Some [] | Some (JStr s) \<Rightarrow> Some s | Some _ \<Rightarrow> None)"

fun uuid_values :: "(string \<Rightarrow> uuid option) \<Rightarrow> json list \<Rightarrow> uuid list option" where
  "uuid_values pu [] = Some []"
| "uuid_values pu (v # vs) =
     Option.bind (uuid_value pu v) (\<lambda>u. Option.bind (uuid_values pu vs) (\<lambda>us. Some (u # us)))"

definition attachment_ids_field :: "(string \<Rightarrow> uuid option) \<Rightarrow> json_dict \<Rightarrow> uuid list option" where
  "attachment_ids_field pu p =
     (case map_of p ''attachment_ids'' of
        None \<Rightarrow> Some [] | Some (JArr vs) \<Rightarrow> uuid_values pu vs | Some _ \<Rightarrow> None)"

definition validate_message_send :: "(string \<Rightarrow> uuid option) \<Rightarrow> json_dict \<Rightarrow> client_event option" where
  "validate_message_send pu p =
     Option.bind (request_id_field p) (\<lambda>request_id.
     Option.bind (uuid_field pu p ''conversation_id'') (\<lambda>conversation_id.
     Option.bind (content_field p) (\<lambda>content.
     Option.bind (attachment_ids_field pu p) (\<lambda>attachment_ids.
       if 4000 < length content \<or> 10 < length attachment_ids then None
       else
         let content = py_strip content in
         if content = [] \<and> attachment_ids = [] then None
         else if card (set attachment_ids) \<noteq> length attachment_ids then None
         else Some (MessageSendEvent request_id conversation_id content attachment_ids)))))"

definition validate_message_read :: "(string \<Rightarrow> uuid option) \<Rightarrow> json_dict \<Rightarrow> client_event option" where
  "validate_message_read pu p =
     Option.bind (request_id_field p) (\<lambda>request_id.
     Option.bind (uuid_field pu p ''conversation_id'') (\<lambda>conversation_id.
     Option.bind (uuid_field pu p ''message_id'') (\<lambda>message_id.
       Some (MessageReadRequest request_id conversation_id message_id))))"

text \<open>\<open>client_event_adapter.validate_python\<close>: the literal types exclude one another.\<close>

definition validate_client_event :: "(string \<Rightarrow> uuid option) \<Rightarrow> json \<Rightarrow> client_event result" where
  "validate_client_event pu payload =
     (case payload of
        JObj p \<Rightarrow>
          (case (if map_of p ''type'' = Some (JStr ''message.send'') then validate_message_send pu p
                 else if map_of p ''type'' = Some (JStr ''message.read'') then validate_message_read pu p
                 else if map_of p ''type'' = Some (JStr ''typing.start'')
                 then map_option TypingStartEvent (uuid_field pu p ''conversation_id'')
                 else if map_of p ''type'' = Some (JStr ''typing.stop'')
                 then map_option TypingStopEvent (uuid_field pu p ''conversation_id'')
                 else None) of
             None \<Rightarrow> Inl ValidationError
           | Some event \<Rightarrow> Inr event)
      | _ \<Rightarrow> Inl ValidationError)"

subsection \<open>Server events\<close>

definition optional_str :: "string option \<Rightarrow> json" where
  "optional_str s = (case s of None \<Rightarrow> JNull | Some s \<Rightarrow> JStr s)"

definition uuid_json :: "uuid \<Rightarrow> json" where
  "uuid_json u = JStr (uuid_str u)"

definition optional_time :: "(instant \<Rightarrow> string) \<Rightarrow> instant option \<Rightarrow> json" where
  "optional_time dt t = optional_str (map_option dt t)"

definition receipt_response_json :: "(instant \<Rightarrow> string) \<Rightarrow> receipt_response \<Rightarrow> json" where
  "receipt_response_json dt r = JObj
     [(''user_id'', uuid_json (rr_user_id r)),
      (''delivered_at'', optional_time dt (rr_delivered_at r)),
      (''read_at'', optional_time dt (rr_read_at r))]"

definition attachment_response_json :: "(instant \<Rightarrow> string) \<Rightarrow> attachment_response \<Rightarrow> json" where
  "attachment_response_json dt a = JObj
     [(''id'', uuid_json (ar_id a)), (''filename'', JStr (ar_filename a)),
      (''mime_type'', JStr (ar_mime_type a)), (''file_size'', JInt (ar_file_size a)),
      (''uploaded_at'', optional_time dt (ar_uploaded_at a)), (''download_url'', JStr (ar_download_url a))]"

definition message_response_json :: "(instant \<Rightarrow> string) \<Rightarrow> message_response \<Rightarrow> json" where
  "message_response_json dt m = JObj
     [(''id'', uuid_json (mr_id m)), (''conversation_id'', uuid_json (mr_conversation_id m)),
      (''sender_id'', uuid_json (mr_sender_id m)), (''sender_username'', JStr (mr_sender_username m)),
      (''content'', JStr (mr_content m)), (''created_at'', JStr (dt (mr_created_at m))),
      (''edited_at'', optional_time dt (mr_edited_at m)), (''cursor'', JStr (mr_cursor m)),
      (''receipts'', JArr (map (receipt_response_json dt) (mr_receipts m))),
      (''attachments'', JArr (map (attachment_response_json dt) (mr_attachments m)))]"

definition receipt_event_json :: "(instant \<Rightarrow> string) \<Rightarrow> receipt_event \<Rightarrow> json" where
  "receipt_event_json dt r = JObj
     [(''message_id'', uuid_json (re_message_id r)), (''conversation_id'', uuid_json (re_conversation_id r)),
      (''user_id'', uuid_json (re_user_id r)), (''delivered_at'', optional_time dt (re_delivered_at r)),
      (''read_at'', optional_time dt (re_read_at r))]"

definition typing_data_json :: "uuid \<Rightarrow> uuid \<Rightarrow> json" where
  "typing_data_json conversation_id user_id =
     JObj [(''conversation_id'', uuid_json conversation_id), (''user_id'', uuid_json user_id)]"

definition connection_ready_event :: "uuid \<Rightarrow> uuid list \<Rightarrow> json" where
  "connection_ready_event user_id online = JObj
     [(''type'', JStr ''connection.ready''),
      (''data'', JObj [(''user_id'', uuid_json user_id), (''online_user_ids'', JArr (map uuid_json online))])]"

definition message_created_event :: "(instant \<Rightarrow> string) \<Rightarrow> string option \<Rightarrow> message_response \<Rightarrow> json" where
  "message_created_event dt request_id m = JObj
     [(''type'', JStr ''message.created''), (''request_id'', optional_str request_id),
      (''data'', message_response_json dt m)]"

definition message_delivered_event :: "(instant \<Rightarrow> string) \<Rightarrow> receipt_event \<Rightarrow> json" where
  "message_delivered_event dt r = JObj
     [(''type'', JStr ''message.delivered''), (''data'', receipt_event_json dt r)]"

definition message_read_event :: "(instant \<Rightarrow> string) \<Rightarrow> string option \<Rightarrow> receipt_event \<Rightarrow> json" where
  "message_read_event dt request_id r = JObj
     [(''type'', JStr ''message.read''), (''request_id'', optional_str request_id),
      (''data'', receipt_event_json dt r)]"

definition typing_started_event :: "uuid \<Rightarrow> uuid \<Rightarrow> json" where
  "typing_started_event conversation_id user_id = JObj
     [(''type'', JStr ''typing.start''), (''data'', typing_data_json conversation_id user_id)]"

definition typing_stopped_event :: "uuid \<Rightarrow> uuid \<Rightarrow> json" where
  "typing_stopped_event conversation_id user_id = JObj
     [(''type'', JStr ''typing.stop''), (''data'', typing_data_json conversation_id user_id)]"

definition presence_online_event :: "uuid \<Rightarrow> json" where
  "presence_online_event user_id = JObj
     [(''type'', JStr ''presence.online''), (''data'', JObj [(''user_id'', uuid_json user_id)])]"

definition presence_offline_event :: "uuid \<Rightarrow> instant \<Rightarrow> json" where
  "presence_offline_event user_id last_seen = JObj
     [(''type'', JStr ''presence.offline''),
      (''data'', JObj [(''user_id'', uuid_json user_id), (''last_seen'', JStr (isoformat last_seen))])]"

definition error_event :: "string option \<Rightarrow> string \<Rightarrow> string \<Rightarrow> json" where
  "error_event request_id code msg = JObj
     [(''type'', JStr ''error''), (''request_id'', optional_str request_id),
      (''error'', JObj [(''code'', JStr code), (''message'', JStr msg)])]"

subsection \<open>Validation\<close>

lemma uuid_values_length: "uuid_values pu vs = Some us \<Longrightarrow> length us = length vs"
  by (induction vs arbitrary: us) (auto simp: bind_eq_Some_conv)

lemma uuid_values_written: "(\<And>u. pu (uuid_str u) = Some u) \<Longrightarrow> uuid_values pu (map uuid_json us) = Some us"
  by (induction us) (auto simp: uuid_json_def uuid_value_def)

text \<open>Every way of being refused is a \<open>ValidationError\<close>.\<close>

lemma validate_client_event_Inl: "validate_client_event pu payload = Inl e \<Longrightarrow> e = ValidationError"
  by (auto simp: validate_client_event_def split: json.splits option.splits)

text \<open>
  An accepted message event is one the REST endpoint accepts as well: content and attachments
  satisfy the request's bounds and the content is stripped.
\<close>

lemma accepted_send_event:
  assumes "validate_client_event pu payload = Inr (MessageSendEvent request_id conversation_id content attachment_ids)"
  shows "parse_message_create content attachment_ids = Some \<lparr>mc_content = content, mc_attachment_ids = attachment_ids\<rparr> \<and>
    (\<forall>s. request_id = Some s \<longrightarrow> length s \<le> 64)"
proof -
  obtain p where p: "payload = JObj p" "validate_message_send pu p = Some (MessageSendEvent request_id conversation_id content attachment_ids)"
    using assms
    by (cases payload) (auto simp: validate_client_event_def validate_message_read_def bind_eq_Some_conv Let_def
        split: option.splits if_splits)
  then obtain raw where raw: "content = py_strip raw" "length raw \<le> 4000" "length attachment_ids \<le> 10"
    "content \<noteq> [] \<or> attachment_ids \<noteq> []" "card (set attachment_ids) = length attachment_ids"
    and rid: "request_id_field p = Some request_id"
    by (auto simp: validate_message_send_def bind_eq_Some_conv Let_def split: if_splits)
  have "length (py_strip raw) \<le> length raw"
    using length_dropWhile_le [of py_isspace raw] length_dropWhile_le [of py_isspace "rev (dropWhile py_isspace raw)"]
    by (simp add: py_strip_def strip_where_def)
  moreover have "py_strip (py_strip raw) = py_strip raw" by simp
  moreover have "distinct attachment_ids" using raw(5) by (rule card_distinct)
  moreover have "length s \<le> 64" if "request_id = Some s" for s
    using rid that by (auto simp: request_id_field_def split: option.splits json.splits if_splits)
  ultimately show ?thesis
    using raw by (simp add: parse_message_create_def Let_def)
qed

end
