(* ===== verification/Handlers.thy ===== *)
theory Handlers
  imports Manager Events
begin

section \<open>The WebSocket handlers (websocket/handlers.py, services/presence\_service.py)\<close>

text \<open>
  The handlers run on a world: the database, the connection manager, and the two WebSocket metrics.
  A session is one transaction on the database; what other transactions commit while a handler runs
  is given by \<open>hd_env\<close>: 0 inside the sending transaction, 1 between the two sessions of a send.
\<close>

record 'b world =
  wd_db :: db
  wd_manager :: "'b manager"
  wd_events :: "(string \<times> string) list" \<comment> \<open>WEBSOCKET\_EVENTS\_TOTAL: one entry per increment\<close>
  wd_connections :: int \<comment> \<open>WEBSOCKET\_CONNECTIONS\<close>

record handling =
  hd_now :: instant
  hd_later :: instant
  hd_fresh :: message_fresh
  hd_env :: "nat \<Rightarrow> db \<Rightarrow> db"

definition on_manager :: "('b manager, 'a) op \<Rightarrow> ('b world, 'a) op" where
  "on_manager f w = (let (x, m) = f (wd_manager w) in (x, w\<lparr>wd_manager := m\<rparr>))"

definition asking :: "('b manager \<Rightarrow> 'a \<times> 'b manager) \<Rightarrow> ('b world, 'a) op" where
  "asking f = on_manager (\<lambda>m. apfst Inr (f m))"

text \<open>A session: what it commits is stored; when it fails only what others committed is.\<close>

definition in_session :: "(db \<Rightarrow> db) \<Rightarrow> (db \<Rightarrow> ('a \<times> db) result) \<Rightarrow> ('b world, 'a) op" where
  "in_session env f w =
     (case f (wd_db w) of
        Inl e \<Rightarrow> (Inl e, w\<lparr>wd_db := env (wd_db w)\<rparr>)
      | Inr (x, d) \<Rightarrow> (Inr x, w\<lparr>wd_db := d\<rparr>))"

definition count_event :: "string \<Rightarrow> string \<Rightarrow> 'b world \<Rightarrow> 'b world" where
  "count_event event_type outcome w = w\<lparr>wd_events := wd_events w @ [(event_type, outcome)]\<rparr>"

subsection \<open>The handlers\<close>

definition handle_message_send ::
  "settings \<Rightarrow> (instant \<Rightarrow> string) \<Rightarrow> 'b backend \<Rightarrow> handling \<Rightarrow> uuid \<Rightarrow> string option \<Rightarrow> uuid \<Rightarrow> string \<Rightarrow> uuid list \<Rightarrow>
     ('b world, unit) op" where
  "handle_message_send S dt B h user_id request_id conversation_id content attachment_ids =
     obind (in_session (hd_env h 0) (\<lambda>d.
       ebind (create_message S (hd_env h 0) (hd_fresh h) (hd_now h) conversation_id user_id content attachment_ids d)
         (\<lambda>(message, d'). Inr ((message, member_ids d' conversation_id), d')))) (\<lambda>(message, member_list).
     obind (on_manager (send_to_users B member_list (message_created_event dt request_id message) None)) (\<lambda>_.
     obind (asking (online_user_ids B (filter (\<lambda>u. u \<noteq> user_id) member_list))) (\<lambda>online_recipient_ids.
     if online_recipient_ids = [] then oreturn ()
     else
       obind (interleave (\<lambda>w. w\<lparr>wd_db := hd_env h 1 (wd_db w)\<rparr>)) (\<lambda>_.
       obind (in_session id (mark_delivered (hd_later h) (mr_id message) online_recipient_ids)) (\<lambda>receipts.
       oforeach (\<lambda>r. on_manager (send_to_users B member_list (message_delivered_event dt r) None)) receipts)))))"

definition handle_message_read ::
  "(instant \<Rightarrow> string) \<Rightarrow> 'b backend \<Rightarrow> handling \<Rightarrow> uuid \<Rightarrow> string option \<Rightarrow> uuid \<Rightarrow> uuid \<Rightarrow> ('b world, unit) op" where
  "handle_message_read dt B h user_id request_id conversation_id message_id =
     obind (in_session id (\<lambda>d. ebind (mark_read (hd_now h) conversation_id message_id user_id d)
       (\<lambda>(receipts, d'). Inr ((receipts, member_ids d' conversation_id), d')))) (\<lambda>(receipts, member_list).
     oforeach (\<lambda>r. on_manager (send_to_users B member_list (message_read_event dt request_id r) None)) receipts)"

definition conversation_forbidden :: exc where
  "conversation_forbidden = AppError 403 ''CONVERSATION_FORBIDDEN'' ''You are not a conversation member''"

definition handle_typing :: "'b backend \<Rightarrow> handling \<Rightarrow> uuid \<Rightarrow> bool \<Rightarrow> uuid \<Rightarrow> ('b world, unit) op" where
  "handle_typing B h user_id starting conversation_id =
     obind (in_session id (\<lambda>d.
       if \<not> is_member d conversation_id user_id then Inl conversation_forbidden
       else Inr (member_ids d conversation_id, d))) (\<lambda>member_list.
     let stopped_event = typing_stopped_event conversation_id user_id in
     if starting
     then on_manager (typing_start B (hd_now h) conversation_id user_id member_list
            (typing_started_event conversation_id user_id) stopped_event)
     else on_manager (typing_stop B conversation_id user_id member_list stopped_event))"

subsection \<open>Dispatching\<close>

definition rate_limited :: "string \<Rightarrow> exc" where
  "rate_limited msg = AppError 429 ''RATE_LIMITED'' msg"

definition limited ::
  "settings \<Rightarrow> 'b backend \<Rightarrow> uuid \<Rightarrow> string \<Rightarrow> int \<Rightarrow> string \<Rightarrow> ('b world, unit) op \<Rightarrow> ('b world, unit) op" where
  "limited S B user_id action limit msg handler =
     obind (asking (allow_action B user_id action limit (realtime_rate_limit_window_seconds S))) (\<lambda>allowed.
     if \<not> allowed then oraise (rate_limited msg) else handler)"

fun handle_event ::
  "settings \<Rightarrow> (instant \<Rightarrow> string) \<Rightarrow> 'b backend \<Rightarrow> handling \<Rightarrow> uuid \<Rightarrow> client_event \<Rightarrow> ('b world, unit) op" where
  "handle_event S dt B h user_id (MessageSendEvent request_id conversation_id content attachment_ids) =
     limited S B user_id ''message.send'' (message_send_rate_limit S) ''Too many messages; please slow down''
       (handle_message_send S dt B h user_id request_id conversation_id content attachment_ids)"
| "handle_event S dt B h user_id (MessageReadRequest request_id conversation_id message_id) =
     limited S B user_id ''message.read'' (receipt_rate_limit S) ''Too many receipt updates''
       (handle_message_read dt B h user_id request_id conversation_id message_id)"
| "handle_event S dt B h user_id (TypingStartEvent conversation_id) =
     limited S B user_id ''typing'' (typing_rate_limit S) ''Too many typing updates''
       (handle_typing B h user_id True conversation_id)"
| "handle_event S dt B h user_id (TypingStopEvent conversation_id) =
     limited S B user_id ''typing'' (typing_rate_limit S) ''Too many typing updates''
       (handle_typing B h user_id False conversation_id)"

text \<open>The request id an error event echoes, and the metric's label, which tests \<open>type\<close> for membership in a set.\<close>

definition echoed_request_id :: "json \<Rightarrow> string option" where
  "echoed_request_id payload =
     (case payload of
        JObj p \<Rightarrow> (case map_of p ''request_id'' of Some (JStr s) \<Rightarrow> Some s | _ \<Rightarrow> None)
      | _ \<Rightarrow> None)"

definition event_type_label :: "json \<Rightarrow> string result" where
  "event_type_label payload =
     (case payload of
        JObj p \<Rightarrow>
          (case map_of p ''type'' of
             Some (JArr _) \<Rightarrow> Inl TypeError \<comment> \<open>unhashable\<close>
           | Some (JObj _) \<Rightarrow> Inl TypeError
           | Some (JStr s) \<Rightarrow>
               Inr (if s \<in> {''message.send'', ''message.read'', ''typing.start'', ''typing.stop''} then s else ''unknown'')
           | _ \<Rightarrow> Inr ''unknown'')
      | _ \<Rightarrow> Inr ''unknown'')"

definition reply_error ::
  "'b backend \<Rightarrow> uuid \<Rightarrow> json \<Rightarrow> string \<Rightarrow> string \<Rightarrow> string \<Rightarrow> string \<Rightarrow> ('b world, unit) op" where
  "reply_error B user_id payload event_type outcome code msg w =
     on_manager (send_to_user B user_id (error_event (echoed_request_id payload) code msg))
       (count_event event_type outcome w)"

definition dispatch_event ::
  "settings \<Rightarrow> (string \<Rightarrow> uuid option) \<Rightarrow> (instant \<Rightarrow> string) \<Rightarrow> 'b backend \<Rightarrow> handling \<Rightarrow> uuid \<Rightarrow> json \<Rightarrow>
     ('b world, unit) op" where
  "dispatch_event S pu dt B h user_id payload w =
     (case event_type_label payload of
        Inl e \<Rightarrow> (Inl e, w)
      | Inr event_type \<Rightarrow>
          (case (case validate_client_event pu payload of
                   Inl e \<Rightarrow> (Inl e, w) | Inr event \<Rightarrow> handle_event S dt B h user_id event w) of
             (Inr _, w1) \<Rightarrow> (Inr (), count_event event_type ''accepted'' w1)
           | (Inl ValidationError, w1) \<Rightarrow>
               reply_error B user_id payload event_type ''invalid'' ''INVALID_EVENT'' ''WebSocket event is invalid'' w1
           | (Inl (AppError _ code msg), w1) \<Rightarrow>
               reply_error B user_id payload event_type ''rejected'' code msg w1
           | (Inl _, w1) \<Rightarrow>
               reply_error B user_id payload event_type ''error'' ''INTERNAL_ERROR'' ''Event could not be processed'' w1))"

subsection \<open>Going offline\<close>

definition mark_user_offline :: "'b backend \<Rightarrow> (db \<Rightarrow> db) \<Rightarrow> instant \<Rightarrow> instant \<Rightarrow> uuid \<Rightarrow> ('b world, unit) op" where
  "mark_user_offline B env last_seen now user_id =
     obind (interleave (\<lambda>w. w\<lparr>wd_db := env (wd_db w)\<rparr>)) (\<lambda>_.
     obind (in_session id (\<lambda>d. let d' = set_last_seen user_id last_seen now d in Inr (peer_ids d' user_id, d'))) (\<lambda>peers.
     on_manager (send_to_users B peers (presence_offline_event user_id last_seen) (Some user_id))))"

end
