(* ===== verification/Fanout.thy ===== *)
theory Fanout
  imports Handlers
begin

section \<open>Whom an operation may reach\<close>

text \<open>
  What an operation of the manager does to the sockets, as a relation between the states before and
  after: it opens none, and every frame it writes goes to a socket of one of the given users.  The
  relation composes, so a handler built from such operations stays within it.
\<close>

definition op_within :: "('s \<Rightarrow> 's \<Rightarrow> bool) \<Rightarrow> ('s, 'a) op \<Rightarrow> bool" where
  "op_within rel f \<longleftrightarrow> (\<forall>s. rel s (snd (f s)))"

locale effects =
  fixes rel :: "'s \<Rightarrow> 's \<Rightarrow> bool"
  assumes refl: "rel s s" and trans: "rel s t \<Longrightarrow> rel t u \<Longrightarrow> rel s u"
begin

lemma within_return: "op_within rel (oreturn x)" "op_within rel (oraise e)"
  by (simp_all add: op_within_def oreturn_def oraise_def refl)

lemma within_bind: "op_within rel f \<Longrightarrow> (\<And>x. op_within rel (g x)) \<Longrightarrow> op_within rel (obind f g)"
proof (unfold op_within_def, rule allI)
  fix s
  assume f: "\<forall>s. rel s (snd (f s))" and g: "\<And>x. \<forall>s. rel s (snd (g x s))"
  obtain r s1 where r: "f s = (r, s1)" by (cases "f s")
  with f have "rel s s1" by (metis snd_conv)
  with r g show "rel s (snd (obind f g s))" by (cases r) (auto simp: obind_def intro: trans)
qed

lemma within_foreach: "(\<And>x. x \<in> set xs \<Longrightarrow> op_within rel (f x)) \<Longrightarrow> op_within rel (oforeach f xs)"
  by (induction xs) (auto intro: within_return within_bind)

lemma within_if: "op_within rel f \<Longrightarrow> op_within rel g \<Longrightarrow> op_within rel (if b then f else g)"
  by simp

lemmas within_rules = within_return within_bind within_foreach within_if

end

definition tells :: "uuid set \<Rightarrow> 'b manager \<Rightarrow> 'b manager \<Rightarrow> bool" where
  "tells U m m' \<longleftrightarrow> mg_net m' = mg_net m \<and> (manager_ok m \<longrightarrow> manager_ok m') \<and>
     (\<forall>u. set (connections_of m' u) \<subseteq> set (connections_of m u)) \<and>
     (\<exists>fs. mg_frames m' = mg_frames m @ fs \<and> (\<forall>(ws, ev) \<in> set fs. \<exists>u \<in> U. ws \<in> set (connections_of m u)))"

lemma tells_refl: "tells U m m"
  by (simp add: tells_def)

lemma tells_trans:
  assumes "tells U l m" and "tells U m n"
  shows "tells U l n"
proof -
  obtain fs gs where "mg_frames m = mg_frames l @ fs" "mg_frames n = mg_frames m @ gs"
    "\<forall>(ws, ev) \<in> set fs. \<exists>u \<in> U. ws \<in> set (connections_of l u)"
    "\<forall>(ws, ev) \<in> set gs. \<exists>u \<in> U. ws \<in> set (connections_of m u)"
    using assms unfolding tells_def by blast
  moreover have sub: "set (connections_of m u) \<subseteq> set (connections_of l u)" for u
    using assms(1) by (simp add: tells_def)
  ultimately have "mg_frames n = mg_frames l @ fs @ gs"
    "\<forall>(ws, ev) \<in> set (fs @ gs). \<exists>u \<in> U. ws \<in> set (connections_of l u)"
    by (simp, fastforce)
  moreover have "set (connections_of n u) \<subseteq> set (connections_of l u)" for u
    using sub assms(2) unfolding tells_def by blast
  ultimately show ?thesis using assms unfolding tells_def by auto
qed

lemma tells_mono: "tells U m m' \<Longrightarrow> U \<subseteq> V \<Longrightarrow> tells V m m'"
  unfolding tells_def by fast

interpretation manager_effects: effects "tells U"
  by unfold_locales (rule tells_refl, erule (1) tells_trans)

subsection \<open>The manager's operations\<close>

lemma tells_backend: "tells U m (m\<lparr>mg_backend := bk\<rparr>)"
  by (simp add: tells_def)

lemma tells_tasks: "tells U m (m\<lparr>mg_tasks := ts\<rparr>)"
  by (simp add: tells_def manager_ok_def connections_of_def)

lemma tells_ask: "ask_backend B call m = (x, m') \<Longrightarrow> tells U m m'"
  by (erule ask_backend_frame) (simp add: tells_backend)

lemma tells_disconnect: "disconnect B u ws m = (b, m') \<Longrightarrow> tells U m m'"
proof -
  assume run: "disconnect B u ws m = (b, m')"
  show ?thesis
  proof (cases "map_of (mg_connections m) u")
    case None
    with run show ?thesis by (simp add: disconnect_def tells_refl)
  next
    case (Some xs)
    then have xs: "connections_of m u = xs" by (simp add: connections_of_def)
    have distinct: "manager_ok m \<Longrightarrow> distinct (removeAll ws xs)"
      using manager_ok_connections(1) [of m u] xs by (simp add: removeAll_filter_not_eq)
    show ?thesis
    proof (cases "removeAll ws xs = []")
      case True
      have "tells U m (pop_connections u m)"
        by (simp add: tells_def manager_ok_pop)
      moreover obtain x m2 where ask: "ask_backend B (be_user_disconnected B u) (pop_connections u m) = (x, m2)"
        by (cases "ask_backend B (be_user_disconnected B u) (pop_connections u m)")
      moreover have "m' = m2" using run Some True ask by (cases x) (simp_all add: disconnect_def)
      ultimately show ?thesis using tells_ask [OF ask] by (metis tells_trans)
    next
      case False
      then have "m' = set_connections u (removeAll ws xs) m" using run Some by (simp add: disconnect_def)
      with False distinct xs show ?thesis by (auto simp: tells_def intro: manager_ok_set)
    qed
  qed
qed

lemma tells_send_json: "ws \<in> set (connections_of m u) \<Longrightarrow> u \<in> U \<Longrightarrow> tells U m (snd (send_json event ws m))"
  by (auto simp: tells_def send_json_def split: option.splits)

lemma tells_send_all: "set wss \<subseteq> set (connections_of m u) \<Longrightarrow> u \<in> U \<Longrightarrow> tells U m (snd (send_all event wss m))"
proof (induction wss arbitrary: m)
  case Nil
  then show ?case by (simp add: tells_refl)
next
  case (Cons ws wss)
  obtain r m1 where send: "send_json event ws m = (r, m1)" by (cases "send_json event ws m")
  have t: "tells U m m1" using tells_send_json [of ws m u U event] Cons.prems send by simp
  have "connections_of m1 u = connections_of m u" using send by (auto simp: send_json_def split: option.splits)
  with Cons.IH [of m1] Cons.prems have "tells U m1 (snd (send_all event wss m1))" by simp
  with t have all: "tells U m (snd (send_all event wss m1))" by (rule tells_trans)
  show ?case
  proof (cases r)
    case (Inr x)
    with send all show ?thesis by simp
  next
    case (Inl e)
    have "snd (obind (send_all event wss) (\<lambda>stale. oreturn (ws # stale)) m1) = snd (send_all event wss m1)"
      by (simp add: obind_def oreturn_def split: prod.splits sum.splits)
    with send Inl t all show ?thesis by (cases e) simp_all
  qed
qed

lemma tells_drop_stale: "tells U m (drop_stale B u stale m)"
proof (induction stale arbitrary: m)
  case (Cons ws stale)
  show ?case
    using tells_trans [OF tells_disconnect [OF prod.collapse [symmetric]] Cons.IH] by simp
qed (simp add: tells_refl)

lemma tells_deliver_to_user: "u \<in> U \<Longrightarrow> tells U m (snd (deliver_to_user_local B event u m))"
proof -
  assume u: "u \<in> U"
  obtain r m1 where send: "send_all event (connections_of m u) m = (r, m1)"
    by (cases "send_all event (connections_of m u) m")
  with tells_send_all [OF subset_refl u, of m event] have "tells U m m1" by simp
  with send show ?thesis
    by (cases r) (auto simp: deliver_to_user_local_def obind_def intro: tells_trans tells_drop_stale)
qed

lemma tells_deliver: "set us \<subseteq> U \<Longrightarrow> tells U m (snd (deliver_to_users_local B us event m))"
proof (induction us arbitrary: m)
  case (Cons u us)
  obtain r m1 where one: "deliver_to_user_local B event u m = (r, m1)" by (cases "deliver_to_user_local B event u m")
  with tells_deliver_to_user [where u = u and U = U and B = B and event = event and m = m] Cons.prems have "tells U m m1" by simp
  with Cons.IH [of m1] Cons.prems have "tells U m (snd (deliver_to_users_local B us event m1))"
    by (auto intro: tells_trans)
  with one show ?case by (cases r) simp_all
qed (simp add: tells_refl)

lemma tells_send_to_users: "set us \<subseteq> U \<Longrightarrow> op_within (tells U) (send_to_users B us event excluded)"
proof (unfold op_within_def, rule allI)
  fix m
  assume us: "set us \<subseteq> U"
  let ?targets = "first_occurrences (filter (\<lambda>u. Some u \<noteq> excluded) us)"
  obtain x m1 where ask: "ask_backend B (be_publish_users B ?targets event) m = (x, m1)"
    by (cases "ask_backend B (be_publish_users B ?targets event) m")
  have "tells U m m1" by (rule tells_ask [OF ask])
  moreover have "tells U m1 (snd (deliver_to_users_local B ?targets event m1))"
    by (rule tells_deliver) (use us in auto)
  ultimately show "tells U m (snd (send_to_users B us event excluded m))"
    using ask tells_trans by (auto simp: send_to_users_def Let_def tells_refl split: option.splits bool.splits)
qed

lemma tells_send_to_user: "u \<in> U \<Longrightarrow> op_within (tells U) (send_to_user B u event)"
  by (simp add: send_to_user_def tells_send_to_users)

lemma tells_online_user_ids: "tells U m (snd (online_user_ids B us m))"
  by (auto simp: online_user_ids_def split: prod.splits option.splits intro: tells_ask)

lemma tells_allow_action: "tells U m (snd (allow_action B u action limit secs m))"
  by (auto simp: allow_action_def split: prod.splits option.splits intro: tells_ask)

lemma tells_typing_start: "set us \<subseteq> U \<Longrightarrow> op_within (tells U) (typing_start B now cid u us started stopped)"
proof (unfold op_within_def, rule allI)
  fix m
  assume us: "set us \<subseteq> U"
  let ?targets = "filter (\<lambda>v. v \<noteq> u) us"
  obtain x m1 where ask: "ask_backend B (be_typing_started B cid u ?targets started stopped) m = (x, m1)"
    by (cases "ask_backend B (be_typing_started B cid u ?targets started stopped) m")
  let ?m2 = "tracker_start typing_ttl now cid u ?targets stopped m1"
  have m1: "tells U m m1" by (rule tells_ask [OF ask])
  have "tells U m1 ?m2" by (simp add: tracker_start_def tracker_stop_def tells_tasks Let_def)
  moreover have "tells U ?m2 (snd (send_to_users B ?targets started None ?m2))"
    using tells_send_to_users [of ?targets U B started None] us by (auto simp: op_within_def)
  ultimately show "tells U m (snd (typing_start B now cid u us started stopped m))"
    using ask m1 tells_trans by (auto simp: typing_start_def Let_def split: option.splits bool.splits) blast+
qed

lemma tells_typing_stop:
  fixes B :: "'b backend"
  shows "set us \<subseteq> U \<Longrightarrow> op_within (tells U) (typing_stop B cid u us stopped)"
proof (unfold op_within_def, rule allI)
  fix m :: "'b manager"
  assume us: "set us \<subseteq> U"
  let ?targets = "filter (\<lambda>v. v \<noteq> u) us"
  let ?m0 = "tracker_stop cid u m"
  obtain x m1 where ask: "ask_backend B (be_typing_stopped B cid u ?targets stopped) ?m0 = (x, m1)"
    by (cases "ask_backend B (be_typing_stopped B cid u ?targets stopped) ?m0")
  have "tells U m ?m0" by (simp add: tracker_stop_def tells_tasks)
  with tells_ask [OF ask] have m1: "tells U m m1" by (metis tells_trans)
  moreover have "tells U m1 (snd (send_to_users B ?targets stopped None m1))"
    using tells_send_to_users [of ?targets U B stopped None] us by (auto simp: op_within_def)
  ultimately show "tells U m (snd (typing_stop B cid u us stopped m))"
    using ask tells_trans by (auto simp: typing_stop_def Let_def split: option.splits bool.splits)
qed

subsection \<open>Delivery never raises while sockets only close\<close>

lemma closes_only_tells: "tells U m m' \<Longrightarrow> closes_only m' = closes_only m"
  by (simp add: tells_def closes_only_def)

lemma deliver_total: "closes_only m \<Longrightarrow> fst (deliver_to_users_local B us event m) = Inr ()"
proof (induction us arbitrary: m)
  case (Cons u us)
  obtain r m1 where one: "deliver_to_user_local B event u m = (r, m1)" by (cases "deliver_to_user_local B event u m")
  then have "r = Inr ()"
    by (simp add: deliver_to_user_local_def obind_def send_all_result [OF Cons.prems])
  moreover have "closes_only m1"
    using tells_deliver_to_user [where u = u and U = UNIV and B = B and event = event and m = m] one closes_only_tells Cons.prems by fastforce
  ultimately show ?case using Cons.IH [of m1] one by simp
qed simp

lemma send_to_users_total: "closes_only m \<Longrightarrow> fst (send_to_users B us event excluded m) = Inr ()"
proof -
  assume m: "closes_only m"
  let ?targets = "first_occurrences (filter (\<lambda>u. Some u \<noteq> excluded) us)"
  obtain x m1 where ask: "ask_backend B (be_publish_users B ?targets event) m = (x, m1)"
    by (cases "ask_backend B (be_publish_users B ?targets event) m")
  have "closes_only m1" using closes_only_tells [OF tells_ask [OF ask]] m by simp
  with ask deliver_total [of m1 B ?targets event] show ?thesis
    by (auto simp: send_to_users_def Let_def split: option.splits bool.splits)
qed

end
