(* ===== verification/Dispatch.thy ===== *)
theory Dispatch
  imports Fanout
begin

section \<open>What handling an event may do\<close>

text \<open>
  Whom the handlers can reach and how dispatching ends: the handlers keep within the effects of the
  theory Fanout on the members of the event's conversation, dispatching answers every payload, and
  a message sent over the socket is pushed to every open socket of every member.
\<close>

subsection \<open>The handlers stay within the conversation\<close>

definition wtells :: "uuid set \<Rightarrow> 'b world \<Rightarrow> 'b world \<Rightarrow> bool" where
  "wtells U w w' \<longleftrightarrow> tells U (wd_manager w) (wd_manager w') \<and> wd_events w' = wd_events w \<and>
     wd_connections w' = wd_connections w"

interpretation world_effects: effects "wtells U"
  by unfold_locales (auto simp: wtells_def intro: tells_refl tells_trans)

lemma wtells_mono: "wtells U w w' \<Longrightarrow> U \<subseteq> V \<Longrightarrow> wtells V w w'"
  by (auto simp: wtells_def intro: tells_mono)

lemma wtells_on_manager: "op_within (tells U) f \<Longrightarrow> op_within (wtells U) (on_manager f)"
  by (simp add: op_within_def on_manager_def wtells_def case_prod_unfold Let_def)

lemma wtells_asking: "(\<And>m. tells U m (snd (f m))) \<Longrightarrow> op_within (wtells U) (asking f)"
  by (simp add: asking_def op_within_def on_manager_def wtells_def case_prod_unfold Let_def apfst_def map_prod_def)

lemma wtells_session: "op_within (wtells U) (in_session env f)"
  by (auto simp: op_within_def in_session_def wtells_def tells_refl split: sum.splits)

lemma wtells_others: "op_within (wtells U) (interleave (\<lambda>w. w\<lparr>wd_db := f (wd_db w)\<rparr>))"
  by (simp add: op_within_def interleave_def wtells_def tells_refl)

lemmas wtells_sends = wtells_on_manager [OF tells_send_to_users] wtells_on_manager [OF tells_typing_start]
  wtells_on_manager [OF tells_typing_stop] wtells_asking [OF tells_online_user_ids]
  wtells_asking [OF tells_allow_action] wtells_session wtells_others

lemma in_session_Inr: "in_session env f w = (Inr x, w') \<longleftrightarrow> (\<exists>d. f (wd_db w) = Inr (x, d) \<and> w' = w\<lparr>wd_db := d\<rparr>)"
  by (auto simp: in_session_def split: sum.splits)

lemma in_session_Inl: "in_session env f w = (Inl e, w') \<Longrightarrow> wtells U w w'"
  using wtells_session [of U env f] by (auto simp: op_within_def dest!: spec [of _ w])

text \<open>A handler that reads the members in a session and goes on with them.\<close>

lemma wtells_after_session:
  assumes "\<And>x d. f (wd_db w) = Inr (x, d) \<Longrightarrow> op_within (wtells U) (g x)"
  shows "wtells U w (snd (obind (in_session env f) g w))"
proof (cases "in_session env f w")
  case (Pair r w1)
  show ?thesis
  proof (cases r)
    case (Inl e)
    with Pair show ?thesis by (simp add: in_session_Inl)
  next
    case (Inr x)
    then obtain d where d: "f (wd_db w) = Inr (x, d)" using Pair by (auto simp: in_session_Inr)
    have "wtells U w w1" using wtells_session [of U env f] Pair by (auto simp: op_within_def dest!: spec [of _ w])
    moreover have "wtells U w1 (snd (g x w1))" using assms [OF d] by (simp add: op_within_def)
    ultimately show ?thesis using Pair Inr world_effects.trans by simp
  qed
qed

text \<open>The users an event may be about: the members of its conversation, when its sender is one.\<close>

definition addressees :: "(nat \<Rightarrow> db \<Rightarrow> db) \<Rightarrow> db \<Rightarrow> uuid \<Rightarrow> uuid \<Rightarrow> uuid set" where
  "addressees env d user_id conversation_id =
     (if is_member d conversation_id user_id
      then set (member_ids d conversation_id) \<union> set (member_ids (env 0 d) conversation_id) else {})"

lemma members_member_ids: "members d' = members d \<Longrightarrow> member_ids d' cid = member_ids d cid"
  by (simp add: member_ids_def conversation_members_def)

lemma created_members:
  assumes "wf_attachments d" and "create_message S env fr now cid s content ids d = Inr (r, d')"
  shows "is_member d cid s" and "member_ids d' cid = member_ids (env d) cid"
proof -
  note ok = create_message_InrD [OF assms]
  show "is_member d cid s" by (rule ok(1))
  show "member_ids d' cid = member_ids (env d) cid"
    unfolding commit_message_InrD(1) [OF ok(3)] by (rule members_member_ids) simp
qed

lemma mark_read_members:
  assumes "mark_read now cid mid uid d = Inr (events, d')"
  shows "is_member d cid uid" and "member_ids d' cid = member_ids d cid"
proof -
  from assms show "is_member d cid uid"
    by (auto simp: mark_read_def ebind_Inr_iff gate.check_Inr)
  from assms have "members d' = members d"
    by (auto simp: mark_read_def mark_read_rows_def mark_rows_def report_def ebind_Inr_iff Let_def split: option.splits if_splits)
  then show "member_ids d' cid = member_ids d cid" by (rule members_member_ids)
qed

lemma wtells_message_send:
  assumes "wf_attachments (wd_db w)"
  shows "wtells (addressees (hd_env h) (wd_db w) user_id cid) w (snd (handle_message_send S dt B h user_id rid cid content ids w))"
  unfolding handle_message_send_def
  by (rule wtells_after_session)
    (auto simp: ebind_Inr_iff addressees_def created_members [OF assms]
      intro!: world_effects.within_rules wtells_sends)

lemma wtells_message_read:
  "wtells (addressees (hd_env h) (wd_db w) user_id cid) w (snd (handle_message_read dt B h user_id rid cid mid w))"
  unfolding handle_message_read_def
  by (rule wtells_after_session)
    (auto simp: ebind_Inr_iff addressees_def mark_read_members
      intro!: world_effects.within_rules wtells_sends)

lemma wtells_typing:
  "wtells (addressees (hd_env h) (wd_db w) user_id cid) w (snd (handle_typing B h user_id starting cid w))"
  unfolding handle_typing_def
  by (rule wtells_after_session)
    (auto simp: addressees_def Let_def split: if_splits intro!: world_effects.within_rules wtells_sends)

lemma wtells_limited:
  assumes "\<And>w'. wd_db w' = wd_db w \<Longrightarrow> wtells U w' (snd (handler w'))"
  shows "wtells U w (snd (limited S B user_id action limit msg handler w))"
proof -
  obtain b m where ask: "allow_action B user_id action limit (realtime_rate_limit_window_seconds S) (wd_manager w) = (b, m)"
    by (cases "allow_action B user_id action limit (realtime_rate_limit_window_seconds S) (wd_manager w)")
  let ?w1 = "w\<lparr>wd_manager := m\<rparr>"
  have "wtells U w ?w1"
    using tells_allow_action [of U "wd_manager w" B user_id action limit "realtime_rate_limit_window_seconds S"] ask
    by (simp add: wtells_def)
  moreover have "wtells U ?w1 (snd (handler ?w1))" using assms by simp
  ultimately show ?thesis
    using ask by (auto simp: limited_def obind_def asking_def on_manager_def oraise_def intro: world_effects.trans)
qed

lemma wtells_handle_event:
  assumes "wf_attachments (wd_db w)"
  shows "wtells (addressees (hd_env h) (wd_db w) user_id (event_conversation event)) w
    (snd (handle_event S dt B h user_id event w))"
proof (cases event)
  case (MessageSendEvent rid cid content ids)
  then show ?thesis
    by simp (rule wtells_limited, use wtells_message_send [where h = h and B = B] assms in metis)
next
  case (MessageReadRequest rid cid mid)
  then show ?thesis
    by simp (rule wtells_limited, use wtells_message_read [where h = h and B = B] in metis)
next
  case (TypingStartEvent cid)
  then show ?thesis
    by simp (rule wtells_limited, use wtells_typing [where h = h and B = B] in metis)
next
  case (TypingStopEvent cid)
  then show ?thesis
    by simp (rule wtells_limited, use wtells_typing [where h = h and B = B] in metis)
qed

subsection \<open>Dispatching\<close>

definition event_body ::
  "settings \<Rightarrow> (string \<Rightarrow> uuid option) \<Rightarrow> (instant \<Rightarrow> string) \<Rightarrow> 'b backend \<Rightarrow> handling \<Rightarrow> uuid \<Rightarrow> json \<Rightarrow> ('b world, unit) op" where
  "event_body S pu dt B h user_id payload w =
     (case validate_client_event pu payload of
        Inl e \<Rightarrow> (Inl e, w) | Inr event \<Rightarrow> handle_event S dt B h user_id event w)"

lemma dispatch_cases:
  assumes "event_type_label payload = Inr label" and "event_body S pu dt B h user_id payload w = (r, w1)"
  obtains (accepted) "r = Inr ()"
      "dispatch_event S pu dt B h user_id payload w = (Inr (), count_event label ''accepted'' w1)"
    | (refused) outcome code msg where "r \<noteq> Inr ()"
      "dispatch_event S pu dt B h user_id payload w = reply_error B user_id payload label outcome code msg w1"
proof (cases r)
  case (Inr x)
  then show thesis using assms by (intro accepted) (simp_all add: dispatch_event_def event_body_def)
next
  case (Inl e)
  then show thesis
    using assms by (cases e) (rule refused; simp add: dispatch_event_def event_body_def)+
qed

lemma reply_error_result:
  "\<exists>m. reply_error B user_id payload label outcome code msg w = (fst (send_to_user B user_id
      (error_event (echoed_request_id payload) code msg) (wd_manager w)), (count_event label outcome w)\<lparr>wd_manager := m\<rparr>) \<and>
    tells {user_id} (wd_manager w) m"
  using tells_send_to_user [of user_id "{user_id}" B "error_event (echoed_request_id payload) code msg"]
  by (auto simp: reply_error_def on_manager_def count_event_def op_within_def case_prod_unfold Let_def)

lemma event_body_tells:
  assumes "wf_attachments (wd_db w)"
  shows "wtells {u. \<exists>event. validate_client_event pu payload = Inr event \<and>
      u \<in> addressees (hd_env h) (wd_db w) user_id (event_conversation event)} w (snd (event_body S pu dt B h user_id payload w))"
  using wtells_handle_event [OF assms, of h user_id _ S dt B]
  by (auto simp: event_body_def world_effects.refl split: sum.splits)

lemma dispatch_tells:
  assumes "wf_attachments (wd_db w)"
  shows "tells (insert user_id {u. \<exists>event. validate_client_event pu payload = Inr event \<and>
      u \<in> addressees (hd_env h) (wd_db w) user_id (event_conversation event)})
    (wd_manager w) (wd_manager (snd (dispatch_event S pu dt B h user_id payload w)))" (is "tells (insert user_id ?U) _ _")
proof (cases "event_type_label payload")
  case (Inl e)
  then show ?thesis by (simp add: dispatch_event_def tells_refl)
next
  case (Inr label)
  obtain r w1 where body: "event_body S pu dt B h user_id payload w = (r, w1)"
    by (cases "event_body S pu dt B h user_id payload w")
  with event_body_tells [OF assms, where h = h and S = S and dt = dt and B = B and user_id = user_id and pu = pu and payload = payload]
  have "tells ?U (wd_manager w) (wd_manager w1)" by (simp add: wtells_def)
  then have first: "tells (insert user_id ?U) (wd_manager w) (wd_manager w1)" by (rule tells_mono) blast
  from Inr body show ?thesis
  proof (cases rule: dispatch_cases)
    case accepted
    with first show ?thesis by (simp add: count_event_def)
  next
    case (refused outcome code msg)
    obtain m where "snd (reply_error B user_id payload label outcome code msg w1) = (count_event label outcome w1)\<lparr>wd_manager := m\<rparr>"
      "tells {user_id} (wd_manager w1) m"
      using reply_error_result [of B user_id payload label outcome code msg w1] by force
    with first tells_mono [of "{user_id}" "wd_manager w1" m "insert user_id ?U"] refused show ?thesis
      by (auto intro: tells_trans)
  qed
qed

text \<open>C4: Nothing leaks out of a conversation: every frame written while an event is dispatched, whatever the payload
  and whatever the backend does, goes to a socket of the sender, or of a member of the event's
  conversation when the sender is one too.\<close>

theorem event_frames_stay_in_conversation:
  assumes "wf_db (wd_db w)" and "dispatch_event S pu dt B h user_id payload w = (r, w')"
  shows "\<exists>frames. mg_frames (wd_manager w') = mg_frames (wd_manager w) @ frames \<and>
    (\<forall>(ws, event) \<in> set frames. \<exists>u. ws \<in> set (connections_of (wd_manager w) u) \<and>
      (u = user_id \<or> (\<exists>e. validate_client_event pu payload = Inr e \<and> is_member (wd_db w) (event_conversation e) user_id \<and>
        (is_member (wd_db w) (event_conversation e) u \<or> is_member (hd_env h 0 (wd_db w)) (event_conversation e) u))))"
proof -
  have "tells (insert user_id {u. \<exists>event. validate_client_event pu payload = Inr event \<and>
      u \<in> addressees (hd_env h) (wd_db w) user_id (event_conversation event)}) (wd_manager w) (wd_manager w')"
    using dispatch_tells [OF wf_dbD(7) [OF assms(1)], of user_id pu payload h S dt B] assms(2) by simp
  then obtain frames where frames: "mg_frames (wd_manager w') = mg_frames (wd_manager w) @ frames"
    and to: "\<forall>(ws, ev) \<in> set frames. \<exists>u \<in> insert user_id {u. \<exists>event. validate_client_event pu payload = Inr event \<and>
      u \<in> addressees (hd_env h) (wd_db w) user_id (event_conversation event)}. ws \<in> set (connections_of (wd_manager w) u)"
    unfolding tells_def by blast
  show ?thesis
  proof (intro exI conjI ballI, rule frames, clarify)
    fix ws event
    assume "(ws, event) \<in> set frames"
    with to obtain u where "ws \<in> set (connections_of (wd_manager w) u)"
      and "u = user_id \<or> (\<exists>event. validate_client_event pu payload = Inr event \<and>
        u \<in> addressees (hd_env h) (wd_db w) user_id (event_conversation event))" by fast
    then show "\<exists>u. ws \<in> set (connections_of (wd_manager w) u) \<and>
      (u = user_id \<or> (\<exists>e. validate_client_event pu payload = Inr e \<and> is_member (wd_db w) (event_conversation e) user_id \<and>
        (is_member (wd_db w) (event_conversation e) u \<or> is_member (hd_env h 0 (wd_db w)) (event_conversation e) u)))"
      by (auto simp: addressees_def is_member_member_ids split: if_splits)
  qed
qed

text \<open>C21: Every event is answered for: as long as sockets fail only by being closed, dispatching any payload ends
  without an exception and counts exactly one outcome, except when the payload's type is an array or
  an object, which raises TypeError before anything is done.\<close>

theorem dispatch_answers_or_type_error:
  assumes "wf_db (wd_db w)" and "closes_only (wd_manager w)"
  shows "if \<exists>p v. payload = JObj p \<and> map_of p ''type'' = Some v \<and> (\<exists>x y. v = JArr x \<or> v = JObj y)
    then dispatch_event S pu dt B h user_id payload w = (Inl TypeError, w)
    else \<exists>w' label outcome. dispatch_event S pu dt B h user_id payload w = (Inr (), w') \<and>
      wd_events w' = wd_events w @ [(label, outcome)]"
proof (cases "event_type_label payload")
  case (Inl e)
  then show ?thesis
    by (auto simp: event_type_label_def dispatch_event_def split: json.splits option.splits)
next
  case (Inr label)
  obtain r w1 where body: "event_body S pu dt B h user_id payload w = (r, w1)"
    by (cases "event_body S pu dt B h user_id payload w")
  from event_body_tells [OF wf_dbD(7) [OF assms(1)], of pu payload h user_id S dt B] body
  obtain U where t: "tells U (wd_manager w) (wd_manager w1)" and same: "wd_events w1 = wd_events w"
    by (auto simp: wtells_def)
  have "\<exists>w' label outcome. dispatch_event S pu dt B h user_id payload w = (Inr (), w') \<and>
      wd_events w' = wd_events w @ [(label, outcome)]"
    using Inr body
  proof (cases rule: dispatch_cases)
    case accepted
    with same show ?thesis by (auto simp: count_event_def)
  next
    case (refused outcome code msg)
    have "closes_only (wd_manager w1)" using closes_only_tells [OF t] assms(2) by simp
    then have sent: "fst (send_to_user B user_id (error_event (echoed_request_id payload) code msg) (wd_manager w1)) = Inr ()"
      by (simp add: send_to_user_def send_to_users_total)
    obtain m where "reply_error B user_id payload label outcome code msg w1 = (Inr (), (count_event label outcome w1)\<lparr>wd_manager := m\<rparr>)"
      using reply_error_result [of B user_id payload label outcome code msg w1] unfolding sent by blast
    with refused same show ?thesis by (auto simp: count_event_def)
  qed
  with Inr show ?thesis by (auto simp: event_type_label_def)
qed

subsection \<open>A message from its sender to every open socket\<close>

text \<open>The frames of some events pushed one after the other to some users of this instance.\<close>

definition pushed :: "'b manager \<Rightarrow> uuid list \<Rightarrow> json list \<Rightarrow> (websocket \<times> json) list" where
  "pushed m us events = [(ws, ev). ev \<leftarrow> events, u \<leftarrow> us, ws \<leftarrow> filter (open_socket m) (connections_of m u)]"

text \<open>A manager that can only reach its own sockets, all of which at worst are closed.\<close>

definition local_only :: "'b backend \<Rightarrow> 'b manager \<Rightarrow> bool" where
  "local_only B m \<longleftrightarrow> manager_ok m \<and> \<not> distributed B m \<and> closes_only m"

definition same_sockets :: "'b manager \<Rightarrow> 'b manager \<Rightarrow> bool" where
  "same_sockets m m' \<longleftrightarrow> mg_net m' = mg_net m \<and>
     (\<forall>u. filter (open_socket m) (connections_of m' u) = filter (open_socket m) (connections_of m u))"

lemma same_sockets_pushed: "same_sockets m m' \<Longrightarrow> pushed m' us events = pushed m us events"
proof -
  assume *: "same_sockets m m'"
  then have "open_socket m' = open_socket m" by (simp add: same_sockets_def open_socket_def fun_eq_iff)
  with * show ?thesis by (simp add: pushed_def same_sockets_def)
qed

lemma same_sockets_trans: "same_sockets l m \<Longrightarrow> same_sockets m n \<Longrightarrow> same_sockets l n"
proof -
  assume *: "same_sockets l m" "same_sockets m n"
  then have "open_socket m = open_socket l" by (simp add: same_sockets_def open_socket_def fun_eq_iff)
  with * show ?thesis by (simp add: same_sockets_def)
qed

lemma first_occurrences_id: "distinct xs \<Longrightarrow> first_occurrences xs = xs"
  by (induction xs) (auto simp: filter_id_conv)

lemma push_one:
  assumes "local_only B m" and "distinct us"
  shows "\<exists>m'. send_to_users B us event None m = (Inr (), m') \<and> mg_frames m' = mg_frames m @ pushed m us [event] \<and>
    local_only B m' \<and> same_sockets m m' \<and> (\<forall>u \<in> set us. connections_of m' u = filter (open_socket m) (connections_of m u))"
proof -
  have m: "manager_ok m" "\<not> distributed B m" "closes_only m" using assms(1) by (simp_all add: local_only_def)
  let ?m' = "snd (deliver_to_users_local B us event m)"
  have run: "send_to_users B us event None m = (Inr (), ?m')"
    using deliver_all [OF m, of us event] m(2)
    by (cases "us = []")
      (simp_all add: send_to_users_def Let_def first_occurrences_id [OF assms(2)] prod_eq_iff)
  have d: "delivered us event m ?m'" using deliver_all [OF m, of us event] by blast
  then have "local_only B ?m'" "same_sockets m ?m'"
    using m by (auto simp: delivered_def local_only_def distributed_def closes_only_def same_sockets_def)
  with run d show ?thesis by (auto simp: delivered_def pushed_def)
qed

lemma push_all:
  assumes "distinct us"
  shows "local_only B (wd_manager w) \<Longrightarrow>
    \<exists>m'. oforeach (\<lambda>r. on_manager (send_to_users B us (ev r) None)) rs w = (Inr (), w\<lparr>wd_manager := m'\<rparr>) \<and>
      mg_frames m' = mg_frames (wd_manager w) @ pushed (wd_manager w) us (map ev rs)"
proof (induction rs arbitrary: w)
  case Nil
  show ?case by (intro exI [of _ "wd_manager w"]) (simp add: oreturn_def pushed_def)
next
  case (Cons r rs)
  obtain m1 where one: "send_to_users B us (ev r) None (wd_manager w) = (Inr (), m1)"
    "mg_frames m1 = mg_frames (wd_manager w) @ pushed (wd_manager w) us [ev r]"
    "local_only B m1" "same_sockets (wd_manager w) m1"
    using push_one [OF Cons.prems assms] by blast
  from Cons.IH [of "w\<lparr>wd_manager := m1\<rparr>"] one(3) obtain m' where rest:
    "oforeach (\<lambda>r. on_manager (send_to_users B us (ev r) None)) rs (w\<lparr>wd_manager := m1\<rparr>) = (Inr (), w\<lparr>wd_manager := m'\<rparr>)"
    "mg_frames m' = mg_frames m1 @ pushed m1 us (map ev rs)" by auto
  from rest(2) one(2) have "mg_frames m' = mg_frames (wd_manager w) @ pushed (wd_manager w) us (map ev (r # rs))"
    unfolding same_sockets_pushed [OF one(4)] by (simp add: pushed_def)
  moreover have "on_manager (send_to_users B us (ev r) None) w = (Inr (), w\<lparr>wd_manager := m1\<rparr>)"
    by (simp add: on_manager_def one(1))
  ultimately show ?case using rest(1) by (intro exI [of _ m']) simp
qed

lemma stored_message_is_announced:
  assumes "wf_db (wd_db w)" and "wf_db (hd_env h 0 (wd_db w))" and "local_only B (wd_manager w)"
    and "create_message S (hd_env h 0) (hd_fresh h) (hd_now h) cid user_id content ids (wd_db w) = Inr (message, d')"
    and "online = filter (\<lambda>u. u \<noteq> user_id \<and> filter (open_socket (wd_manager w)) (connections_of (wd_manager w) u) \<noteq> [])
      (member_ids d' cid)"
  shows "\<exists>m1. handle_message_send S dt B h user_id rid cid content ids w =
      (if online = [] then oreturn ()
       else
         obind (interleave (\<lambda>w. w\<lparr>wd_db := hd_env h 1 (wd_db w)\<rparr>)) (\<lambda>_.
         obind (in_session id (mark_delivered (hd_later h) (mr_id message) online)) (\<lambda>receipts.
         oforeach (\<lambda>r. on_manager (send_to_users B (member_ids d' cid) (message_delivered_event dt r) None)) receipts)))
        (w\<lparr>wd_db := d', wd_manager := m1\<rparr>) \<and>
    mg_frames m1 = mg_frames (wd_manager w) @ pushed (wd_manager w) (member_ids d' cid) [message_created_event dt rid message] \<and>
    local_only B m1 \<and> same_sockets (wd_manager w) m1 \<and> distinct (member_ids d' cid)"
proof -
  let ?us = "member_ids d' cid"
  have "wf_db d'"
    using commit_message_wf [OF create_message_InrD(3) [OF wf_dbD(7) [OF assms(1)] assms(4)] assms(2)] .
  then have us: "distinct ?us" by (intro distinct_member_ids wf_dbD(4))
  obtain m1 where one: "send_to_users B ?us (message_created_event dt rid message) None (wd_manager w) = (Inr (), m1)"
    "mg_frames m1 = mg_frames (wd_manager w) @ pushed (wd_manager w) ?us [message_created_event dt rid message]"
    "local_only B m1" "same_sockets (wd_manager w) m1"
    "\<forall>u \<in> set ?us. connections_of m1 u = filter (open_socket (wd_manager w)) (connections_of (wd_manager w) u)"
    using push_one [OF assms(3) us] by blast
  have "\<not> distributed B m1" using one(3) by (simp add: local_only_def)
  with one(5) have online: "online_user_ids B (filter (\<lambda>u. u \<noteq> user_id) ?us) m1 = (online, m1)"
    by (simp add: online_user_ids_def assms(5)) (auto intro!: filter_cong)
  have stored: "in_session (hd_env h 0) (\<lambda>d. ebind (create_message S (hd_env h 0) (hd_fresh h) (hd_now h) cid user_id content ids d)
      (\<lambda>(message, d'). Inr ((message, member_ids d' cid), d'))) w = (Inr (message, ?us), w\<lparr>wd_db := d'\<rparr>)"
    by (simp add: in_session_def assms(4))
  have sent: "on_manager (send_to_users B ?us (message_created_event dt rid message) None) (w\<lparr>wd_db := d'\<rparr>) =
      (Inr (), w\<lparr>wd_db := d', wd_manager := m1\<rparr>)"
    by (simp add: on_manager_def one(1))
  have asked: "asking (online_user_ids B (filter (\<lambda>u. u \<noteq> user_id) ?us)) (w\<lparr>wd_db := d', wd_manager := m1\<rparr>) =
      (Inr online, w\<lparr>wd_db := d', wd_manager := m1\<rparr>)"
    by (simp add: asking_def on_manager_def online)
  show ?thesis
    by (intro exI [of _ m1]) (use one us in \<open>simp add: handle_message_send_def stored sent asked\<close>)
qed


subsection \<open>At a concrete world\<close>

definition chat_handling :: handling where
  "chat_handling = \<lparr>hd_now = 200, hd_later = 210, hd_fresh = chat_fresh_1, hd_env = (\<lambda>_. id)\<rparr>"

definition chat_world :: "unit realtime world" where
  "chat_world = \<lparr>wd_db = chat_db, wd_manager = two_sockets, wd_events = [], wd_connections = 3\<rparr>"

lemma chat_world_simps [simp]:
  "wd_db chat_world = chat_db" "wd_manager chat_world = two_sockets" "wd_events chat_world = []"
  "mg_frames two_sockets = []" "hd_env chat_handling i = id" "hd_now chat_handling = 200" "hd_fresh chat_handling = chat_fresh_1"
  by (simp_all add: chat_world_def two_sockets_def new_manager_def chat_handling_def)

theorem event_frames_stay_in_conversation_witness:
  "\<exists>r w'. dispatch_event default_settings (\<lambda>_. None) isoformat idle_backend chat_handling 1 JNull chat_world = (r, w') \<and>
    (\<forall>(ws, event) \<in> set (mg_frames (wd_manager w')). ws \<in> set (connections_of two_sockets 1))"
proof -
  obtain r w' where run: "dispatch_event default_settings (\<lambda>_. None) isoformat idle_backend chat_handling 1 JNull chat_world = (r, w')"
    by (cases "dispatch_event default_settings (\<lambda>_. None) isoformat idle_backend chat_handling 1 JNull chat_world")
  have wf: "wf_db (wd_db chat_world)" by (simp add: chat_facts(1))
  have "validate_client_event (\<lambda>_. None) JNull = Inl ValidationError" by (simp add: validate_client_event_def)
  with event_frames_stay_in_conversation [OF wf run] run show ?thesis by fastforce
qed

theorem dispatch_answers_or_type_error_witness:
  "dispatch_event default_settings (\<lambda>_. None) isoformat idle_backend chat_handling 1 (JObj [(''type'', JArr [])]) chat_world =
     (Inl TypeError, chat_world) \<and>
   (\<exists>w'. dispatch_event default_settings (\<lambda>_. None) isoformat idle_backend chat_handling 1 JNull chat_world = (Inr (), w'))"
proof -
  have world: "wf_db (wd_db chat_world)" "closes_only (wd_manager chat_world)"
    using two_sockets_facts(3) by (simp_all add: chat_facts(1))
  from dispatch_answers_or_type_error [OF world, of "JObj [(''type'', JArr [])]" default_settings "\<lambda>_. None" isoformat idle_backend chat_handling 1]
    dispatch_answers_or_type_error [OF world, of JNull default_settings "\<lambda>_. None" isoformat idle_backend chat_handling 1]
  show ?thesis by auto
qed


end
