(* ===== verification/Security.thy ===== *)
theory Security
  imports Json Settings
begin

section \<open>Tokens and password hashes (core/security.py)\<close>

text \<open>
  PyJWT and pwdlib are parameters: a record of the functions the code calls, with the laws the
  code relies on as a locale.  Tokens are of any type.  \<open>jwt.decode\<close> gives the payload as a dict
  or raises; on a token made by \<open>jwt.encode\<close> with the same key and algorithm it gives back the
  claims, times in whole seconds, as long as the token is not expired and not from the future.
\<close>

subsection \<open>The token library\<close>

record claims =
  cl_sub :: string
  cl_type :: string
  cl_jti :: string
  cl_iat :: instant
  cl_exp :: instant

record 'tok token_lib =
  jwt_encode :: "claims \<Rightarrow> string \<Rightarrow> string \<Rightarrow> 'tok"
  jwt_decode :: "'tok \<Rightarrow> string \<Rightarrow> string \<Rightarrow> instant \<Rightarrow> json_dict option"
  pw_hash :: "string \<Rightarrow> string \<Rightarrow> string"
  pw_verify :: "string \<Rightarrow> string \<Rightarrow> bool"

definition claims_payload :: "claims \<Rightarrow> json_dict" where
  "claims_payload c =
     [(''sub'', JStr (cl_sub c)), (''type'', JStr (cl_type c)), (''jti'', JStr (cl_jti c)),
      (''iat'', JInt (cl_iat c div 1000000)), (''exp'', JInt (cl_exp c div 1000000))]"

definition claims_current :: "claims \<Rightarrow> instant \<Rightarrow> bool" where
  "claims_current c now \<longleftrightarrow>
     cl_iat c div 1000000 * 1000000 \<le> now \<and> now < cl_exp c div 1000000 * 1000000"

locale token_library =
  fixes L :: "'tok token_lib"
  assumes decode_encode: "jwt_decode L (jwt_encode L c k alg) k alg now =
      (if claims_current c now then Some (claims_payload c) else None)"
    and verify_hash: "pw_verify L p (pw_hash L p salt)"

subsection \<open>Payloads\<close>

record token_payload =
  tp_subject :: uuid
  tp_token_type :: string
  tp_jti :: uuid
  tp_expires_at :: instant

text \<open>\<open>datetime.fromtimestamp(v, tz=utc)\<close>\<close>

fun timestamp_of_json :: "json \<Rightarrow> instant result" where
  "timestamp_of_json (JInt n) = Inr (n * 1000000)"
| "timestamp_of_json (JFloat m e) =
     Inr (if 0 \<le> e + 6 then m * 10 ^ nat (e + 6) else m div 10 ^ nat (- (e + 6)))"
| "timestamp_of_json (JBool b) = Inr (if b then 1000000 else 0)"
| "timestamp_of_json (JConst c) = Inl (if c = ''NaN'' then ValueError else OverflowError)"
| "timestamp_of_json _ = Inl TypeError"

definition hash_password :: "'tok token_lib \<Rightarrow> string \<Rightarrow> string \<Rightarrow> string" where
  "hash_password L password salt = pw_hash L password salt"

definition verify_password :: "'tok token_lib \<Rightarrow> string \<Rightarrow> string \<Rightarrow> bool" where
  "verify_password L password hashed = pw_verify L password hashed"

definition create_token ::
  "'tok token_lib \<Rightarrow> settings \<Rightarrow> uuid \<Rightarrow> string \<Rightarrow> int \<Rightarrow> uuid \<Rightarrow> instant \<Rightarrow> 'tok \<times> uuid \<times> instant" where
  "create_token L S subject token_type lifetime jti now =
     (let expires_at = now + lifetime;
          payload = \<lparr>cl_sub = uuid_str subject, cl_type = token_type, cl_jti = uuid_str jti,
                     cl_iat = now, cl_exp = expires_at\<rparr>
      in (jwt_encode L payload (jwt_secret S) (jwt_algorithm S), jti, expires_at))"

definition minutes :: "int \<Rightarrow> int" where
  "minutes n = n * 60 * 1000000"

definition days :: "int \<Rightarrow> int" where
  "days n = n * 24 * 60 * 60 * 1000000"

definition create_access_token :: "'tok token_lib \<Rightarrow> settings \<Rightarrow> uuid \<Rightarrow> uuid \<Rightarrow> instant \<Rightarrow> 'tok" where
  "create_access_token L S subject jti now =
     fst (create_token L S subject ''access'' (minutes (access_token_expire_minutes S)) jti now)"

definition create_refresh_token ::
  "'tok token_lib \<Rightarrow> settings \<Rightarrow> uuid \<Rightarrow> uuid \<Rightarrow> instant \<Rightarrow> 'tok \<times> uuid \<times> instant" where
  "create_refresh_token L S subject jti now =
     create_token L S subject ''refresh'' (days (refresh_token_expire_days S)) jti now"

text \<open>The \<open>except\<close> clause of \<open>decode_token\<close>.\<close>

fun as_invalid_token :: "'a result \<Rightarrow> 'a result" where
  "as_invalid_token (Inl KeyError) = Inl InvalidTokenError"
| "as_invalid_token (Inl TypeError) = Inl InvalidTokenError"
| "as_invalid_token (Inl ValueError) = Inl InvalidTokenError"
| "as_invalid_token r = r"

definition decode_token ::
  "'tok token_lib \<Rightarrow> settings \<Rightarrow> 'tok \<Rightarrow> string \<Rightarrow> instant \<Rightarrow> token_payload result" where
  "decode_token L S token expected_type now =
     (case jwt_decode L token (jwt_secret S) (jwt_algorithm S) now of
        None \<Rightarrow> Inl InvalidTokenError
      | Some payload \<Rightarrow>
          if map_of payload ''type'' \<noteq> Some (JStr expected_type) then Inl InvalidTokenError
          else as_invalid_token (
            ebind (ebind (dict_item payload ''sub'') uuid_of_json) (\<lambda>subject.
            ebind (ebind (dict_item payload ''jti'') uuid_of_json) (\<lambda>jti.
            ebind (ebind (dict_item payload ''exp'') timestamp_of_json) (\<lambda>expires_at.
              Inr \<lparr>tp_subject = subject, tp_token_type = expected_type, tp_jti = jti,
                   tp_expires_at = expires_at\<rparr>)))))"

subsection \<open>What the library's laws give\<close>

text \<open>A token the server made for a user: its claims, as \<open>create_token\<close> writes them.\<close>

definition minted :: "'tok token_lib \<Rightarrow> settings \<Rightarrow> string \<Rightarrow> uuid \<Rightarrow> uuid \<Rightarrow> 'tok \<Rightarrow> bool" where
  "minted L S token_type subject jti token \<longleftrightarrow>
     (\<exists>now lifetime. token = fst (create_token L S subject token_type lifetime jti now))"

context token_library
begin

lemma decode_created:
  assumes "token = fst (create_token L S subject token_type lifetime jti issued)"
  shows "decode_token L S token expected now =
    (if token_type = expected \<and> issued div 1000000 * 1000000 \<le> now \<and>
        now < (issued + lifetime) div 1000000 * 1000000
     then Inr \<lparr>tp_subject = subject, tp_token_type = expected, tp_jti = jti,
            tp_expires_at = (issued + lifetime) div 1000000 * 1000000\<rparr>
     else Inl InvalidTokenError)"
  using assms
  by (simp add: create_token_def decode_token_def Let_def decode_encode claims_current_def
      claims_payload_def dict_item_def uuid_of_string_str)

lemma decode_minted:
  assumes "minted L S token_type subject jti token"
  shows "decode_token L S token expected now = Inl InvalidTokenError \<or>
    (token_type = expected \<and> (\<exists>e. decode_token L S token expected now =
       Inr \<lparr>tp_subject = subject, tp_token_type = expected, tp_jti = jti, tp_expires_at = e\<rparr>))"
  using assms decode_created unfolding minted_def by (metis (no_types, lifting))

lemma decode_wrong_type:
  assumes "minted L S token_type subject jti token" and "token_type \<noteq> expected"
  shows "decode_token L S token expected now = Inl InvalidTokenError"
  using decode_minted [OF assms(1)] assms(2) by blast

end

subsection \<open>A reference token library\<close>

text \<open>
  An instance of the laws: a token carries its claims, key and algorithm in the clear.
\<close>

definition reference_lib :: "(claims \<times> string \<times> string) token_lib" where
  "reference_lib = \<lparr>
     jwt_encode = (\<lambda>c k alg. (c, k, alg)),
     jwt_decode = (\<lambda>(c, k', alg') k alg now.
       if k' = k \<and> alg' = alg \<and> claims_current c now then Some (claims_payload c) else None),
     pw_hash = (\<lambda>p salt. p),
     pw_verify = (\<lambda>p h. p = h)\<rparr>"

interpretation reference_tokens: token_library reference_lib
  by unfold_locales (simp_all add: reference_lib_def)

end
