(* ===== verification/Auth.thy ===== *)
theory Auth
  imports Users Security
begin

section \<open>Authentication (services/auth_service.py, repositories/token_repository.py)\<close>

text \<open>
  Registration, login, refresh rotation and logout, with the request schemas of schemas/auth.py
  and the bearer dependency of api/dependencies.py.  Each operation takes the database it reads
  and gives an exception (nothing is committed then) or the response and the committed database.
  Where the code reads first and writes later, \<open>env\<close> is what other sessions commit in between;
  \<open>env = id\<close> is the request running alone.  The identifiers the code draws with \<open>uuid4\<close> and the
  hash salt are arguments (\<open>auth_fresh\<close>), and one reading of the clock, \<open>now\<close>, serves a request.
\<close>

subsection \<open>Requests and responses (schemas/auth.py)\<close>

record register_request =
  reg_username :: string
  reg_email :: string
  reg_password :: string

record login_request =
  log_login :: string
  log_password :: string

record 'tok token_response =
  tr_access_token :: 'tok
  tr_refresh_token :: 'tok
  tr_token_type :: string
  tr_user :: user

definition username_char :: "char \<Rightarrow> bool" where
  "username_char c \<longleftrightarrow> (let n = (of_char c :: nat) in
     (65 \<le> n \<and> n \<le> 90) \<or> (97 \<le> n \<and> n \<le> 122) \<or> (48 \<le> n \<and> n \<le> 57) \<or> n = 95)"

text \<open>
  Validation of the registration body.  \<open>EmailStr\<close> is validated by a library: \<open>valid_email\<close> is
  its check, which gives the normalised address.
\<close>

definition parse_register_request ::
  "(string \<Rightarrow> string option) \<Rightarrow> string \<Rightarrow> string \<Rightarrow> string \<Rightarrow> register_request option" where
  "parse_register_request valid_email username email password =
     (if \<not> (3 \<le> length username \<and> length username \<le> 32 \<and> list_all username_char username) then None
      else case valid_email email of
        None \<Rightarrow> None
      | Some address \<Rightarrow>
          if \<not> (8 \<le> length password \<and> length password \<le> 128) then None
          else Some \<lparr>reg_username = py_lower username, reg_email = py_lower address,
                     reg_password = password\<rparr>)"

definition parse_login_request :: "string \<Rightarrow> string \<Rightarrow> login_request option" where
  "parse_login_request login password =
     (if 3 \<le> length login \<and> length login \<le> 320 \<and> 1 \<le> length password \<and> length password \<le> 128
      then Some \<lparr>log_login = login, log_password = password\<rparr> else None)"

subsection \<open>The token repository\<close>

definition get_active_token :: "db \<Rightarrow> uuid \<Rightarrow> instant \<Rightarrow> refresh_token option result" where
  "get_active_token d jti now =
     scalar_one_or_none
       (filter (\<lambda>t. rt_jti t = jti \<and> rt_revoked_at t = None \<and> now < rt_expires_at t)
         (refresh_tokens d))"

definition set_revoked_at :: "instant \<Rightarrow> refresh_token \<Rightarrow> refresh_token" where
  "set_revoked_at now t = t\<lparr>rt_revoked_at := Some now\<rparr>"

definition revoke_token :: "instant \<Rightarrow> refresh_token \<Rightarrow> db \<Rightarrow> db" where
  "revoke_token now t d =
     d\<lparr>refresh_tokens := update_where (\<lambda>r. rt_id r = rt_id t) (set_revoked_at now) (refresh_tokens d)\<rparr>"

interpretation token_row: keyed_update rt_id set_revoked_at
  by unfold_locales (simp add: set_revoked_at_def)

interpretation token_jti: keyed_update rt_jti set_revoked_at
  by unfold_locales (simp add: set_revoked_at_def)

subsection \<open>The service\<close>

record auth_fresh =
  fr_user_id :: uuid
  fr_row_id :: uuid
  fr_access_jti :: uuid
  fr_refresh_jti :: uuid
  fr_salt :: string

definition user_already_exists :: exc where
  "user_already_exists =
     AppError 409 ''USER_ALREADY_EXISTS'' ''Email or username is already registered''"

definition invalid_credentials :: exc where
  "invalid_credentials = AppError 401 ''INVALID_CREDENTIALS'' ''Invalid login or password''"

definition invalid_refresh_token :: exc where
  "invalid_refresh_token =
     AppError 401 ''INVALID_REFRESH_TOKEN'' ''Refresh token is invalid or expired''"

definition invalid_access_token :: exc where
  "invalid_access_token =
     AppError 401 ''INVALID_ACCESS_TOKEN'' ''Access token is invalid or expired''"

definition issue_token_pair ::
  "'tok token_lib \<Rightarrow> settings \<Rightarrow> auth_fresh \<Rightarrow> instant \<Rightarrow> user \<Rightarrow> db \<Rightarrow> ('tok token_response \<times> db) result" where
  "issue_token_pair L S fr now u d =
     (let access = create_access_token L S (u_id u) (fr_access_jti fr) now;
          (refresh, jti, expires_at) = create_refresh_token L S (u_id u) (fr_refresh_jti fr) now;
          row = \<lparr>rt_id = fr_row_id fr, rt_jti = jti, rt_user_id = u_id u,
                 rt_expires_at = expires_at, rt_revoked_at = None, rt_created_at = now\<rparr>
      in ebind (insert_refresh_token row d) (\<lambda>d'.
         Inr (\<lparr>tr_access_token = access, tr_refresh_token = refresh,
               tr_token_type = ''bearer'', tr_user = u\<rparr>, d')))"

definition register ::
  "'tok token_lib \<Rightarrow> settings \<Rightarrow> (db \<Rightarrow> db) \<Rightarrow> auth_fresh \<Rightarrow> instant \<Rightarrow> register_request \<Rightarrow> db \<Rightarrow>
     ('tok token_response \<times> db) result" where
  "register L S env fr now data d =
     (if email_or_username_exists d (reg_email data) (reg_username data)
      then Inl user_already_exists
      else
        let u = \<lparr>u_id = fr_user_id fr, u_username = reg_username data, u_email = reg_email data,
                 u_password_hash = hash_password L (reg_password data) (fr_salt fr),
                 u_created_at = now, u_updated_at = now, u_last_seen = None\<rparr>
        in case insert_user u (env d) of
             Inl IntegrityError \<Rightarrow> Inl user_already_exists
           | Inl e \<Rightarrow> Inl e
           | Inr d' \<Rightarrow> issue_token_pair L S fr now u d')"

definition login ::
  "'tok token_lib \<Rightarrow> settings \<Rightarrow> auth_fresh \<Rightarrow> instant \<Rightarrow> login_request \<Rightarrow> db \<Rightarrow>
     ('tok token_response \<times> db) result" where
  "login L S fr now data d =
     ebind (get_by_email_or_username d (log_login data)) (\<lambda>found.
     case found of
       None \<Rightarrow> Inl invalid_credentials
     | Some u \<Rightarrow>
         if \<not> verify_password L (log_password data) (u_password_hash u) then Inl invalid_credentials
         else issue_token_pair L S fr now u d)"

definition decode_refresh :: "'tok token_lib \<Rightarrow> settings \<Rightarrow> 'tok \<Rightarrow> instant \<Rightarrow> token_payload result" where
  "decode_refresh L S raw_token now =
     (case decode_token L S raw_token ''refresh'' now of
        Inl InvalidTokenError \<Rightarrow> Inl invalid_refresh_token
      | r \<Rightarrow> r)"

definition refresh ::
  "'tok token_lib \<Rightarrow> settings \<Rightarrow> (db \<Rightarrow> db) \<Rightarrow> auth_fresh \<Rightarrow> instant \<Rightarrow> 'tok \<Rightarrow> db \<Rightarrow>
     ('tok token_response \<times> db) result" where
  "refresh L S env fr now raw_token d =
     ebind (decode_refresh L S raw_token now) (\<lambda>payload.
     ebind (get_active_token d (tp_jti payload) now) (\<lambda>stored.
     case stored of
       None \<Rightarrow> Inl invalid_refresh_token
     | Some t \<Rightarrow>
         if rt_user_id t \<noteq> tp_subject payload then Inl invalid_refresh_token
         else case get_user_by_id d (tp_subject payload) of
           None \<Rightarrow> Inl invalid_refresh_token
         | Some u \<Rightarrow> issue_token_pair L S fr now u (revoke_token now t (env d))))"

definition logout :: "'tok token_lib \<Rightarrow> settings \<Rightarrow> instant \<Rightarrow> 'tok \<Rightarrow> db \<Rightarrow> db result" where
  "logout L S now raw_token d =
     ebind (decode_refresh L S raw_token now) (\<lambda>payload.
     ebind (get_active_token d (tp_jti payload) now) (\<lambda>stored.
     case stored of
       None \<Rightarrow> Inr d
     | Some t \<Rightarrow> if rt_user_id t = tp_subject payload then Inr (revoke_token now t d) else Inr d))"

text \<open>The dependency behind every protected route (api/dependencies.py).\<close>

definition get_current_user ::
  "'tok token_lib \<Rightarrow> settings \<Rightarrow> instant \<Rightarrow> 'tok option \<Rightarrow> db \<Rightarrow> user result" where
  "get_current_user L S now credentials d =
     (case credentials of
        None \<Rightarrow> Inl (AppError 401 ''AUTHENTICATION_REQUIRED'' ''Authentication is required'')
      | Some token \<Rightarrow>
          (case decode_token L S token ''access'' now of
             Inl InvalidTokenError \<Rightarrow> Inl invalid_access_token
           | Inl e \<Rightarrow> Inl e
           | Inr payload \<Rightarrow>
               (case get_user_by_id d (tp_subject payload) of
                  None \<Rightarrow> Inl invalid_access_token
                | Some u \<Rightarrow> Inr u)))"

subsection \<open>Library facts\<close>

definition token_active :: "db \<Rightarrow> uuid \<Rightarrow> instant \<Rightarrow> bool" where
  "token_active d jti now \<longleftrightarrow>
     (\<exists>t \<in> set (refresh_tokens d). rt_jti t = jti \<and> rt_revoked_at t = None \<and> now < rt_expires_at t)"

definition new_token_row :: "settings \<Rightarrow> auth_fresh \<Rightarrow> instant \<Rightarrow> user \<Rightarrow> refresh_token" where
  "new_token_row S fr now u = \<lparr>rt_id = fr_row_id fr, rt_jti = fr_refresh_jti fr, rt_user_id = u_id u,
     rt_expires_at = now + days (refresh_token_expire_days S), rt_revoked_at = None,
     rt_created_at = now\<rparr>"

definition new_token_response ::
  "'tok token_lib \<Rightarrow> settings \<Rightarrow> auth_fresh \<Rightarrow> instant \<Rightarrow> user \<Rightarrow> 'tok token_response" where
  "new_token_response L S fr now u = \<lparr>
     tr_access_token = create_access_token L S (u_id u) (fr_access_jti fr) now,
     tr_refresh_token = fst (create_refresh_token L S (u_id u) (fr_refresh_jti fr) now),
     tr_token_type = ''bearer'', tr_user = u\<rparr>"

definition new_token_fresh :: "auth_fresh \<Rightarrow> db \<Rightarrow> bool" where
  "new_token_fresh fr d \<longleftrightarrow> fr_row_id fr \<notin> rt_id ` set (refresh_tokens d) \<and>
     fr_refresh_jti fr \<notin> rt_jti ` set (refresh_tokens d)"

lemma issue_token_pair_eq:
  assumes "u_id u \<in> user_ids d"
  shows "issue_token_pair L S fr now u d =
    (if new_token_fresh fr d
     then Inr (new_token_response L S fr now u,
            d\<lparr>refresh_tokens := refresh_tokens d @ [new_token_row S fr now u]\<rparr>)
     else Inl IntegrityError)"
  using assms
  by (simp add: issue_token_pair_def create_refresh_token_def create_token_def Let_def
      new_token_response_def new_token_row_def new_token_fresh_def insert_refresh_token_def)

lemma issue_token_pair_InrD:
  assumes "issue_token_pair L S fr now u d = Inr (r, d')"
  shows "u_id u \<in> user_ids d" and "new_token_fresh fr d" and "r = new_token_response L S fr now u"
    and "d' = d\<lparr>refresh_tokens := refresh_tokens d @ [new_token_row S fr now u]\<rparr>"
proof -
  show u: "u_id u \<in> user_ids d"
    using assms by (auto simp: issue_token_pair_def create_refresh_token_def create_token_def Let_def
        insert_refresh_token_def ebind_Inr_iff split: if_splits)
  from assms show "new_token_fresh fr d" "r = new_token_response L S fr now u"
    "d' = d\<lparr>refresh_tokens := refresh_tokens d @ [new_token_row S fr now u]\<rparr>"
    by (auto simp: issue_token_pair_eq [OF u] split: if_splits)
qed

lemma issue_token_pair_wf [wf_intros]:
  "issue_token_pair L S fr now u d = Inr (r, d') \<Longrightarrow> wf_db d \<Longrightarrow> wf_db d'"
  by (auto simp: issue_token_pair_def create_refresh_token_def create_token_def Let_def
      ebind_Inr_iff intro: insert_refresh_token_wf)

lemma revoke_token_wf [wf_intros]: "wf_db d \<Longrightarrow> wf_db (revoke_token now t d)"
  by (simp add: revoke_token_def wf_defs token_row.keys_update token_jti.keys_update
      set_revoked_at_def)

lemma revoke_token_frame [frame, simp]:
  "users (revoke_token now t d) = users d"
  by (simp add: revoke_token_def)

lemma active_matches_le_one:
  assumes "wf_refresh_tokens d"
  shows "length (filter (\<lambda>t. rt_jti t = jti \<and> P t) (refresh_tokens d)) \<le> 1"
  using assms unfolding wf_refresh_tokens_def
  by (intro distinct_map_filter_le_one [where key = rt_jti and k = jti]) auto

lemma get_active_token_total:
  assumes "wf_refresh_tokens d"
  shows "get_active_token d jti now =
    Inr (find (\<lambda>t. rt_jti t = jti \<and> rt_revoked_at t = None \<and> now < rt_expires_at t) (refresh_tokens d))"
  unfolding get_active_token_def
  by (rule scalar_one_or_none_unique) (rule active_matches_le_one [OF assms])

lemma get_active_token_SomeD:
  "get_active_token d jti now = Inr (Some t) \<Longrightarrow>
    t \<in> set (refresh_tokens d) \<and> rt_jti t = jti \<and> rt_revoked_at t = None \<and> now < rt_expires_at t"
  unfolding get_active_token_def scalar_one_or_none_Some
  by (drule arg_cong [where f = set]) auto

lemma get_active_token_None_iff:
  assumes "wf_refresh_tokens d"
  shows "get_active_token d jti now = Inr None \<longleftrightarrow> \<not> token_active d jti now"
  by (auto simp: get_active_token_total [OF assms] find_None_iff token_active_def)

lemma get_active_token_Some_iff:
  assumes "wf_refresh_tokens d"
  shows "(\<exists>t. get_active_token d jti now = Inr (Some t)) \<longleftrightarrow> token_active d jti now"
proof (cases "find (\<lambda>t. rt_jti t = jti \<and> rt_revoked_at t = None \<and> now < rt_expires_at t) (refresh_tokens d)")
  case None
  then have "\<not> token_active d jti now" by (auto simp: find_None_iff token_active_def)
  with None show ?thesis by (simp add: get_active_token_total [OF assms])
next
  case (Some t)
  from find_SomeD [OF this] Some show ?thesis
    by (auto simp: get_active_token_total [OF assms] token_active_def)
qed

text \<open>Revoking a row of a unique token leaves the token inactive for good.\<close>

lemma revoke_token_inactive:
  assumes "wf_refresh_tokens d" and "t \<in> set (refresh_tokens d)"
  shows "\<not> token_active (revoke_token now t d) (rt_jti t) now'"
proof
  assume "token_active (revoke_token now t d) (rt_jti t) now'"
  then obtain r where r: "r \<in> set (refresh_tokens d)" "rt_jti r = rt_jti t"
    and active: "rt_revoked_at (if rt_id r = rt_id t then set_revoked_at now r else r) = None"
    by (auto simp: token_active_def revoke_token_def set_revoked_at_def elim!: in_update_whereE
        split: if_splits)
  from r assms have "r = t"
    by (auto simp: wf_refresh_tokens_def distinct_map inj_on_def)
  with active show False by (simp add: set_revoked_at_def)
qed

lemma refresh_InrD:
  assumes "refresh L S env fr now tok d = Inr (r, d')"
  obtains payload t u where "decode_token L S tok ''refresh'' now = Inr payload"
    and "get_active_token d (tp_jti payload) now = Inr (Some t)"
    and "rt_user_id t = tp_subject payload" and "get_user_by_id d (tp_subject payload) = Some u"
    and "issue_token_pair L S fr now u (revoke_token now t (env d)) = Inr (r, d')"
  using assms
  by (auto simp: refresh_def ebind_Inr_iff decode_refresh_def split: sum.splits option.splits exc.splits
      if_splits)

subsection \<open>Properties\<close>

text \<open>Registration, on every branch: a name or email taken before the check, or taken by
  another session between the check and the insert (env), gives 409; a colliding token row
  identifier raises IntegrityError; otherwise exactly one user row with the requested names and the
  hashed password, and one unrevoked refresh-token row for it, are added to what the other sessions
  committed, and the response carries the token pair of that user.\<close>

theorem register_outcome:
  "register L S env fr now data d =
    (let u = \<lparr>u_id = fr_user_id fr, u_username = reg_username data, u_email = reg_email data,
              u_password_hash = hash_password L (reg_password data) (fr_salt fr),
              u_created_at = now, u_updated_at = now, u_last_seen = None\<rparr>;
         d0 = env d
     in if email_or_username_exists d (reg_email data) (reg_username data) \<or>
           email_or_username_exists d0 (reg_email data) (reg_username data) \<or>
           fr_user_id fr \<in> user_ids d0
        then Inl user_already_exists
        else if \<not> new_token_fresh fr d0 then Inl IntegrityError
        else Inr (new_token_response L S fr now u,
               d0\<lparr>users := users d0 @ [u],
                  refresh_tokens := refresh_tokens d0 @ [new_token_row S fr now u]\<rparr>))"
proof -
  have "email_or_username_exists d0 e n \<longleftrightarrow> e \<in> u_email ` set (users d0) \<or> n \<in> u_username ` set (users d0)"
    for d0 e n by (auto simp: email_or_username_exists_def)
  then have "insert_user u d0 = (if email_or_username_exists d0 (u_email u) (u_username u) \<or>
      u_id u \<in> user_ids d0 then Inl IntegrityError else Inr (d0\<lparr>users := users d0 @ [u]\<rparr>))" for u d0
    by (simp add: insert_user_def disj_ac)
  then show ?thesis
    by (simp add: register_def Let_def issue_token_pair_eq new_token_fresh_def)
qed

lemma register_InrD:
  assumes "register L S env fr now data d = Inr (r, d')"
  shows "users d' = users (env d) @ [tr_user r]"
    and "u_username (tr_user r) = reg_username data" and "u_email (tr_user r) = reg_email data"
    and "u_password_hash (tr_user r) = hash_password L (reg_password data) (fr_salt fr)"
    and "refresh_tokens d' = refresh_tokens (env d) @ [new_token_row S fr now (tr_user r)]"
    and "wf_db (env d) \<Longrightarrow> wf_db d'"
proof -
  from assms obtain u d1 where u: "insert_user u (env d) = Inr d1"
    and p: "issue_token_pair L S fr now u d1 = Inr (r, d')"
    and names: "u_username u = reg_username data" "u_email u = reg_email data"
      "u_password_hash u = hash_password L (reg_password data) (fr_salt fr)"
    by (auto simp: register_def Let_def split: if_splits sum.splits exc.splits)
  from issue_token_pair_InrD [OF p] have r: "tr_user r = u"
    and d': "d' = d1\<lparr>refresh_tokens := refresh_tokens d1 @ [new_token_row S fr now u]\<rparr>"
    by (simp_all add: new_token_response_def)
  from u have d1: "d1 = (env d)\<lparr>users := users (env d) @ [u]\<rparr>" by (simp add: insert_user_Inr_iff)
  from r d' d1 names show "users d' = users (env d) @ [tr_user r]"
    "u_username (tr_user r) = reg_username data" "u_email (tr_user r) = reg_email data"
    "u_password_hash (tr_user r) = hash_password L (reg_password data) (fr_salt fr)"
    "refresh_tokens d' = refresh_tokens (env d) @ [new_token_row S fr now (tr_user r)]"
    by simp_all
  show "wf_db d'" if "wf_db (env d)"
    using insert_user_wf [OF u that] issue_token_pair_wf [OF p] by blast
qed

subsubsection \<open>Sequences of requests\<close>

text \<open>
  The database across any sequence of authentication requests, each running alone.
\<close>

inductive auth_step :: "'tok token_lib \<Rightarrow> settings \<Rightarrow> db \<Rightarrow> db \<Rightarrow> bool" for L S where
  registers: "register L S id fr now data d = Inr (r, d') \<Longrightarrow> auth_step L S d d'"
| logs_in: "login L S fr now cred d = Inr (r, d') \<Longrightarrow> auth_step L S d d'"
| refreshes: "refresh L S id fr now tok d = Inr (r, d') \<Longrightarrow> auth_step L S d d'"
| logs_out: "logout L S now tok d = Inr d' \<Longrightarrow> auth_step L S d d'"

abbreviation auth_steps :: "'tok token_lib \<Rightarrow> settings \<Rightarrow> db \<Rightarrow> db \<Rightarrow> bool" where
  "auth_steps L S \<equiv> (auth_step L S)\<^sup>*\<^sup>*"

lemma login_InrD:
  assumes "login L S fr now cred d = Inr (r, d')"
  obtains u where "get_by_email_or_username d (log_login cred) = Inr (Some u)"
    and "verify_password L (log_password cred) (u_password_hash u)"
    and "issue_token_pair L S fr now u d = Inr (r, d')"
  using assms by (auto simp: login_def ebind_Inr_iff split: option.splits if_splits)

lemma logout_InrD:
  assumes "logout L S now tok d = Inr d'"
  shows "d' = d \<or> (\<exists>t. d' = revoke_token now t d)"
  using assms by (auto simp: logout_def ebind_Inr_iff split: option.splits if_splits)

lemma auth_step_wf [wf_intros]: "auth_step L S d d' \<Longrightarrow> wf_db d \<Longrightarrow> wf_db d'"
proof (induction rule: auth_step.induct)
  case (registers fr now data d r d')
  then show ?case using register_InrD(6) [OF registers(1)] by simp
next
  case (logs_in fr now cred d r d')
  then show ?case by (elim login_InrD) (rule issue_token_pair_wf)
next
  case (refreshes fr now tok d r d')
  then show ?case by (elim refresh_InrD) (auto intro: issue_token_pair_wf revoke_token_wf)
next
  case (logs_out now tok d d')
  then show ?case using logout_InrD [OF logs_out(1)] by (auto intro: revoke_token_wf)
qed

lemma auth_steps_wf: "auth_steps L S d d' \<Longrightarrow> wf_db d \<Longrightarrow> wf_db d'"
  by (induction rule: rtranclp_induct) (blast intro: auth_step_wf)+

definition token_revoked :: "db \<Rightarrow> uuid \<Rightarrow> bool" where
  "token_revoked d jti \<longleftrightarrow> (\<exists>t \<in> set (refresh_tokens d). rt_jti t = jti \<and> rt_revoked_at t \<noteq> None)"

lemma token_revoked_inactive:
  "wf_refresh_tokens d \<Longrightarrow> token_revoked d jti \<Longrightarrow> \<not> token_active d jti now"
  by (auto simp: token_revoked_def token_active_def wf_refresh_tokens_def distinct_map inj_on_def)

lemma token_revoked_revoke:
  assumes "token_revoked d jti"
  shows "token_revoked (revoke_token now t d) jti"
proof -
  from assms obtain x where x: "x \<in> set (refresh_tokens d)" "rt_jti x = jti" "rt_revoked_at x \<noteq> None"
    by (auto simp: token_revoked_def)
  let ?y = "if rt_id x = rt_id t then set_revoked_at now x else x"
  have "?y \<in> set (refresh_tokens (revoke_token now t d))"
    using x(1) by (auto simp: revoke_token_def update_where_def)
  moreover have "rt_jti ?y = jti" "rt_revoked_at ?y \<noteq> None"
    using x by (auto simp: set_revoked_at_def)
  ultimately show ?thesis unfolding token_revoked_def by blast
qed

lemma token_revoked_revoke_self:
  assumes "t \<in> set (refresh_tokens d)"
  shows "token_revoked (revoke_token now t d) (rt_jti t)"
proof -
  have "set_revoked_at now t \<in> set (refresh_tokens (revoke_token now t d))"
    using assms by (auto simp: revoke_token_def set_update_where)
  moreover have "rt_jti (set_revoked_at now t) = rt_jti t" "rt_revoked_at (set_revoked_at now t) \<noteq> None"
    by (simp_all add: set_revoked_at_def)
  ultimately show ?thesis unfolding token_revoked_def by blast
qed

lemma token_revoked_issue:
  "issue_token_pair L S fr now u d = Inr (r, d') \<Longrightarrow> token_revoked d jti \<Longrightarrow> token_revoked d' jti"
  by (drule issue_token_pair_InrD(4)) (auto simp: token_revoked_def)

lemma auth_step_revoked: "auth_step L S d d' \<Longrightarrow> token_revoked d jti \<Longrightarrow> token_revoked d' jti"
proof (induction rule: auth_step.induct)
  case (registers fr now data d r d')
  then show ?case using register_InrD(5) [OF registers(1)] by (auto simp: token_revoked_def)
next
  case (logs_in fr now cred d r d')
  then show ?case by (elim login_InrD) (rule token_revoked_issue)
next
  case (refreshes fr now tok d r d')
  then show ?case by (elim refresh_InrD) (auto intro: token_revoked_issue token_revoked_revoke)
next
  case (logs_out now tok d d')
  then show ?case using logout_InrD [OF logs_out(1)] by (auto intro: token_revoked_revoke)
qed

lemma auth_steps_revoked: "auth_steps L S d d' \<Longrightarrow> token_revoked d jti \<Longrightarrow> token_revoked d' jti"
  by (induction rule: rtranclp_induct) (blast intro: auth_step_revoked)+

lemma refresh_revokes:
  assumes "refresh L S id fr now tok d = Inr (r, d')"
  obtains p where "decode_token L S tok ''refresh'' now = Inr p" and "token_revoked d' (tp_jti p)"
    and "token_active d (tp_jti p) now"
proof -
  from assms obtain p t u where p: "decode_token L S tok ''refresh'' now = Inr p"
    and t: "get_active_token d (tp_jti p) now = Inr (Some t)"
    and i: "issue_token_pair L S fr now u (revoke_token now t d) = Inr (r, d')"
    by (rule refresh_InrD) simp
  note t = get_active_token_SomeD [OF t]
  have "token_revoked d' (tp_jti p)"
    using token_revoked_issue [OF i] token_revoked_revoke_self [of t d now] t by simp
  with p t show thesis by (intro that) (auto simp: token_active_def)
qed

context token_library
begin

lemma refresh_revoked_fails:
  assumes "minted L S ''refresh'' subject jti tok" and "wf_db d" and "token_revoked d jti"
  shows "refresh L S env fr now tok d = Inl invalid_refresh_token"
proof -
  from assms(2,3) have "get_active_token d jti now = Inr None" for now
    using get_active_token_None_iff token_revoked_inactive wf_dbD(2) by blast
  then show ?thesis
    using decode_minted [OF assms(1), of "''refresh''" now]
    by (auto simp: refresh_def decode_refresh_def)
qed

end

lemma minted_issued:
  "minted L S ''refresh'' (u_id u) (fr_refresh_jti fr) (tr_refresh_token (new_token_response L S fr now u))"
  "minted L S ''access'' (u_id u) (fr_access_jti fr) (tr_access_token (new_token_response L S fr now u))"
  by (auto simp: minted_def new_token_response_def create_refresh_token_def create_access_token_def)

lemma issued_token_active:
  assumes "issue_token_pair L S fr now u d = Inr (r, d')" and "now < now + days (refresh_token_expire_days S)"
  shows "token_active d' (fr_refresh_jti fr) now"
  using issue_token_pair_InrD(4) [OF assms(1)] assms(2)
  by (auto simp: token_active_def new_token_row_def)

text \<open>C1: Refresh rotation is one-time in every later state.  Once a refresh with a token the server
  made has succeeded, the same token is refused with INVALID_REFRESH_TOKEN, whatever sequence of
  registrations, logins, refreshes and logouts has run since and at whatever time.\<close>

theorem refresh_no_replay:
  assumes "token_library L" and "wf_db d" and "minted L S ''refresh'' subject jti tok"
    and "refresh L S id fr now tok d = Inr (r, d')" and "auth_steps L S d' d''"
  shows "refresh L S env fr' now' tok d'' = Inl invalid_refresh_token"
proof -
  from assms(4) obtain p where p: "decode_token L S tok ''refresh'' now = Inr p"
    and revoked: "token_revoked d' (tp_jti p)" by (rule refresh_revokes)
  have "tp_jti p = jti"
    using token_library.decode_minted [OF assms(1,3), of "''refresh''" now] p by auto
  moreover have "auth_step L S d d'" using assms(4) by (rule auth_step.refreshes)
  then have "wf_db d''" using assms(2,5) by (meson auth_step_wf auth_steps_wf)
  ultimately show ?thesis
    using token_library.refresh_revoked_fails [OF assms(1,3)] auth_steps_revoked [OF assms(5)] revoked
    by metis
qed

text \<open>A logout revokes: once a logout with a token the server made has found the token active,
  refreshing with that token is refused in every later state.\<close>

theorem logout_then_refresh_refused:
  assumes "token_library L" and "wf_db d" and "minted L S ''refresh'' subject jti tok"
    and "get_active_token d jti now = Inr (Some t)" and "rt_user_id t = subject"
    and "decode_token L S tok ''refresh'' now = Inr p"
    and "logout L S now tok d = Inr d'" and "auth_steps L S d' d''"
  shows "refresh L S env fr' now' tok d'' = Inl invalid_refresh_token"
proof -
  have p: "tp_jti p = jti" "tp_subject p = subject"
    using token_library.decode_minted [OF assms(1,3), of "''refresh''" now] assms(6) by auto
  then have "d' = revoke_token now t d"
    using assms(4,5,6,7) by (simp add: logout_def decode_refresh_def)
  then have "token_revoked d' jti"
    using get_active_token_SomeD [OF assms(4)] token_revoked_revoke_self [of t d now] by simp
  moreover have "wf_db d''"
    using assms(2,8) auth_step.logs_out [OF assms(7)] by (meson auth_step_wf auth_steps_wf)
  ultimately show ?thesis
    using token_library.refresh_revoked_fails [OF assms(1,3)] auth_steps_revoked [OF assms(8)] by metis
qed

text \<open>C30: Rotation is not atomic.  The read of the stored token takes no lock, so a second refresh
  with the same token that read before the first one committed (env is the first commit)
  also succeeds, and afterwards two different unrevoked refresh tokens descend from the one
  presented.\<close>

theorem refresh_race_two_descendants:
  assumes "wf_db d" and "0 < refresh_token_expire_days S"
    and "refresh L S id fr1 now tok d = Inr (r1, d1)" and "new_token_fresh fr2 d1"
  shows "\<exists>r2 d2. refresh L S (\<lambda>_. d1) fr2 now tok d = Inr (r2, d2) \<and>
    fr_refresh_jti fr1 \<noteq> fr_refresh_jti fr2 \<and>
    token_active d2 (fr_refresh_jti fr1) now \<and> token_active d2 (fr_refresh_jti fr2) now"
proof -
  from assms(3) obtain p t u where p: "decode_token L S tok ''refresh'' now = Inr p"
    and t: "get_active_token d (tp_jti p) now = Inr (Some t)" "rt_user_id t = tp_subject p"
    and u: "get_user_by_id d (tp_subject p) = Some u"
    and i: "issue_token_pair L S fr1 now u (revoke_token now t d) = Inr (r1, d1)"
    by (rule refresh_InrD) simp
  let ?d = "revoke_token now t d1"
  note d1 = issue_token_pair_InrD(2,4) [OF i]
  have row: "new_token_row S fr1 now u \<in> set (refresh_tokens ?d)"
  proof -
    have "fr_row_id fr1 \<noteq> rt_id t"
      using d1(1) get_active_token_SomeD [OF t(1)]
      by (auto simp: new_token_fresh_def revoke_token_def token_row.key_set_update)
    then show ?thesis
      using d1(2) by (auto simp: revoke_token_def update_where_def new_token_row_def)
  qed
  have u_in: "u_id u \<in> user_ids ?d"
    using issue_token_pair_InrD(1) [OF i] d1(2) by (simp add: revoke_token_def)
  have fresh: "new_token_fresh fr2 ?d"
    using assms(4) by (simp add: new_token_fresh_def revoke_token_def token_row.key_set_update
        token_jti.key_set_update)
  have "fr_refresh_jti fr1 \<in> rt_jti ` set (refresh_tokens d1)"
    using d1(2) by (auto simp: new_token_row_def)
  then have neq: "fr_refresh_jti fr1 \<noteq> fr_refresh_jti fr2"
    using assms(4) by (auto simp: new_token_fresh_def)
  let ?d2 = "?d\<lparr>refresh_tokens := refresh_tokens ?d @ [new_token_row S fr2 now u]\<rparr>"
  have "refresh L S (\<lambda>_. d1) fr2 now tok d = Inr (new_token_response L S fr2 now u, ?d2)"
    using p t u fresh u_in
    by (simp add: refresh_def decode_refresh_def issue_token_pair_eq)
  moreover have "token_active ?d2 (fr_refresh_jti fr1) now" "token_active ?d2 (fr_refresh_jti fr2) now"
    using row assms(2) by (auto simp: token_active_def days_def new_token_row_def intro!: bexI)
  ultimately show ?thesis using neq by blast
qed

lemma char_lower_at: "char_lower CHR 0x40 = CHR 0x40"
  by code_simp

lemma username_char_not_at: "username_char c \<Longrightarrow> char_lower c \<noteq> CHR 0x40"
proof
  assume u: "username_char c" and e: "char_lower c = CHR 0x40"
  let ?n = "of_char c :: nat"
  have "(of_char (char_lower c) :: nat) = 64" unfolding e by simp
  moreover have "(of_char (char_lower c) :: nat) = (if 65 \<le> ?n \<and> ?n \<le> 90 then ?n + 32 else ?n)"
    using u by (auto simp: char_lower_def Let_def username_char_def)
  ultimately show False using u by (auto simp: username_char_def Let_def split: if_splits)
qed

lemma parse_register_names:
  assumes "parse_register_request valid_email username email password = Some data"
    and "\<And>s a. valid_email s = Some a \<Longrightarrow> CHR 0x40 \<in> set a"
  shows "CHR 0x40 \<notin> set (reg_username data)" and "CHR 0x40 \<in> set (reg_email data)"
    and "py_lower (reg_username data) = reg_username data" and "py_lower (reg_email data) = reg_email data"
proof -
  from assms(1) obtain a where a: "valid_email email = Some a" and "list_all username_char username"
    and data: "data = \<lparr>reg_username = py_lower username, reg_email = py_lower a, reg_password = password\<rparr>"
    by (auto simp: parse_register_request_def split: if_splits option.splits)
  then show "CHR 0x40 \<notin> set (reg_username data)"
    using username_char_not_at by (fastforce simp: py_lower_def list_all_iff)
  have "CHR 0x40 \<in> char_lower ` set a"
    using assms(2) [OF a] char_lower_at by (metis image_eqI)
  then show "CHR 0x40 \<in> set (reg_email data)" by (simp add: data py_lower_def)
  show "py_lower (reg_username data) = reg_username data" "py_lower (reg_email data) = reg_email data"
    by (simp_all add: data)
qed

lemma register_login_names:
  assumes "register L S env fr now data d = Inr (r, d')" and "login_names_ok (env d)"
    and "CHR 0x40 \<notin> set (reg_username data)" and "CHR 0x40 \<in> set (reg_email data)"
  shows "login_names_ok d'"
  using assms register_InrD(1-3) [OF assms(1)] by (auto simp: login_names_ok_def)

text \<open>C28: A validated registration is usable: with either of the registered names, in any case, and
  the password, login succeeds and issues the next token pair to exactly that user.  The email
  check of the validation library is assumed only to accept addresses with an at sign.\<close>

theorem registered_user_can_log_in:
  assumes "token_library L" and "\<And>s a. valid_email s = Some a \<Longrightarrow> CHR 0x40 \<in> set a"
    and "parse_register_request valid_email username email password = Some data"
    and "register L S env fr now data d = Inr (r, d')" and "wf_db (env d)" and "login_names_ok (env d)"
    and "py_lower name \<in> {reg_username data, reg_email data}" and "new_token_fresh fr' d'"
  shows "login L S fr' now' \<lparr>log_login = name, log_password = password\<rparr> d' =
    Inr (new_token_response L S fr' now' (tr_user r),
         d'\<lparr>refresh_tokens := refresh_tokens d' @ [new_token_row S fr' now' (tr_user r)]\<rparr>)"
proof -
  note reg = register_InrD [OF assms(4)] and names = parse_register_names [OF assms(3,2)]
  have wf: "wf_users d'" using reg(6) [OF assms(5)] by (rule wf_dbD)
  have ok: "login_names_ok d'" by (rule register_login_names [OF assms(4,6) names(1,2)])
  let ?P = "\<lambda>u. u_email u = py_lower name \<or> u_username u = py_lower name"
  have "tr_user r \<in> set (filter ?P (users d'))" using reg(1-3) assms(7) by auto
  moreover have "length (filter ?P (users d')) \<le> 1" by (rule login_matches_le_one [OF wf ok])
  ultimately have "filter ?P (users d') = [tr_user r]" by (rule singleton_if_member)
  then have "get_by_email_or_username d' name = Inr (Some (tr_user r))"
    by (simp add: get_by_email_or_username_def Let_def)
  moreover have "reg_password data = password"
    using assms(3) by (auto simp: parse_register_request_def split: if_splits option.splits)
  then have "verify_password L password (u_password_hash (tr_user r))"
    using reg(4) token_library.verify_hash [OF assms(1)]
    by (simp add: verify_password_def hash_password_def)
  moreover have "u_id (tr_user r) \<in> user_ids d'" using reg(1) by simp
  ultimately show ?thesis
    using assms(8) by (simp add: login_def issue_token_pair_eq)
qed

text \<open>C29: The two kinds of token are not interchangeable: a refresh token the server made never
  authenticates a request, and an access token the server made never refreshes or logs out.\<close>

theorem token_types_not_interchangeable:
  assumes "token_library L"
  shows "(minted L S ''refresh'' s j tok \<longrightarrow>
      get_current_user L S now (Some tok) d = Inl invalid_access_token) \<and>
    (minted L S ''access'' s j tok \<longrightarrow> refresh L S env fr now tok d = Inl invalid_refresh_token \<and>
      logout L S now tok d = Inl invalid_refresh_token)"
  using token_library.decode_wrong_type [OF assms]
  by (simp_all add: get_current_user_def refresh_def logout_def decode_refresh_def)

text \<open>The access token of a token pair authenticates its user until it expires: from the second
  it was issued in to the last whole second of its lifetime, and not afterwards.\<close>

theorem access_token_lifetime:
  assumes "token_library L" and "wf_db d" and "u \<in> set (users d)"
    and "r = new_token_response L S fr now u" and "now \<le> now'"
  shows "get_current_user L S now' (Some (tr_access_token r)) d =
    (if now' < (now + minutes (access_token_expire_minutes S)) div 1000000 * 1000000
     then Inr u else Inl invalid_access_token)"
proof -
  have tok: "tr_access_token r = fst (create_token L S (u_id u) ''access''
      (minutes (access_token_expire_minutes S)) (fr_access_jti fr) now)"
    using assms(4) by (simp add: new_token_response_def create_access_token_def)
  have "now div 1000000 * 1000000 \<le> now'" using assms(5) by linarith
  then show ?thesis
    using get_user_by_id_unique [OF wf_dbD(1) [OF assms(2)] assms(3)]
    by (simp add: get_current_user_def token_library.decode_created [OF assms(1) tok])
qed

subsection \<open>Instances\<close>

text \<open>A registration and what follows it, for the reference token library.\<close>

definition sample_fresh :: "uuid \<Rightarrow> auth_fresh" where
  "sample_fresh n = \<lparr>fr_user_id = n, fr_row_id = n + 1, fr_access_jti = n + 2,
     fr_refresh_jti = n + 3, fr_salt = ''salt''\<rparr>"

definition sample_registration :: register_request where
  "sample_registration = \<lparr>reg_username = ''alice'', reg_email = ''a@b.c'', reg_password = ''password1''\<rparr>"

definition sample_user :: user where
  "sample_user = \<lparr>u_id = 10, u_username = ''alice'', u_email = ''a@b.c'', u_password_hash = ''password1'',
     u_created_at = 5000000, u_updated_at = 5000000, u_last_seen = None\<rparr>"

definition sample_token :: "claims \<times> string \<times> string" where
  "sample_token = tr_refresh_token
     (new_token_response reference_lib default_settings (sample_fresh 10) 5000000 sample_user)"

definition sample_db :: db where
  "sample_db = empty_db\<lparr>users := [sample_user],
     refresh_tokens := [new_token_row default_settings (sample_fresh 10) 5000000 sample_user]\<rparr>"

definition sample_db_refreshed :: db where
  "sample_db_refreshed = sample_db\<lparr>refresh_tokens :=
     [set_revoked_at 9000000 (new_token_row default_settings (sample_fresh 10) 5000000 sample_user),
      new_token_row default_settings (sample_fresh 20) 9000000 sample_user]\<rparr>"

lemmas sample_defs = sample_fresh_def sample_registration_def sample_user_def
  sample_db_def sample_db_refreshed_def empty_db_def new_token_row_def

lemma reference_lib_simps [simp]:
  "hash_password reference_lib p s = p" "verify_password reference_lib p h = (p = h)"
  by (simp_all add: hash_password_def verify_password_def reference_lib_def)

lemma sample_registers:
  "register reference_lib default_settings id (sample_fresh 10) 5000000 sample_registration empty_db =
    Inr (new_token_response reference_lib default_settings (sample_fresh 10) 5000000 sample_user, sample_db)"
  unfolding register_outcome
  by (simp add: sample_defs email_or_username_exists_def new_token_fresh_def Let_def)

lemma sample_db_wf: "wf_db sample_db"
  by (simp add: wf_defs sample_defs)

lemma sample_token_minted: "minted reference_lib default_settings ''refresh'' 10 13 sample_token"
  unfolding sample_token_def minted_def
  by (auto simp: new_token_response_def create_refresh_token_def sample_user_def sample_fresh_def)

lemma sample_decodes:
  assumes "5000000 \<le> now" and "now < 604805000000"
  shows "decode_token reference_lib default_settings sample_token ''refresh'' now =
    Inr \<lparr>tp_subject = 10, tp_token_type = ''refresh'', tp_jti = 13, tp_expires_at = 604805000000\<rparr>"
  using assms reference_tokens.decode_created [of sample_token default_settings 10 "''refresh''"
      "days 7" 13 5000000 "''refresh''" now]
  by (simp add: sample_token_def new_token_response_def create_refresh_token_def sample_user_def
      sample_fresh_def days_def)

lemma sample_refreshes:
  "refresh reference_lib default_settings id (sample_fresh 20) 9000000 sample_token sample_db =
    Inr (new_token_response reference_lib default_settings (sample_fresh 20) 9000000 sample_user,
         sample_db_refreshed)"
proof -
  have "refresh reference_lib default_settings id (sample_fresh 20) 9000000 sample_token sample_db =
      issue_token_pair reference_lib default_settings (sample_fresh 20) 9000000 sample_user
        (revoke_token 9000000 (new_token_row default_settings (sample_fresh 10) 5000000 sample_user) sample_db)"
    by (simp add: refresh_def decode_refresh_def sample_decodes get_active_token_def get_user_by_id_def
        sample_defs days_def)
  then show ?thesis
    by (simp add: issue_token_pair_eq new_token_fresh_def revoke_token_def set_revoked_at_def sample_defs)
qed

text \<open>Each property applied to the sample registration.\<close>

theorem refresh_no_replay_witness:
  "refresh reference_lib default_settings id (sample_fresh 30) 10000000 sample_token sample_db_refreshed =
    Inl invalid_refresh_token"
  by (rule refresh_no_replay [OF reference_tokens.token_library_axioms sample_db_wf sample_token_minted
        sample_refreshes rtranclp.rtrancl_refl])

theorem refresh_race_two_descendants_witness:
  "\<exists>r2 d2. refresh reference_lib default_settings (\<lambda>_. sample_db_refreshed) (sample_fresh 30) 9000000
      sample_token sample_db = Inr (r2, d2) \<and>
    fr_refresh_jti (sample_fresh 20) \<noteq> fr_refresh_jti (sample_fresh 30) \<and>
    token_active d2 (fr_refresh_jti (sample_fresh 20)) 9000000 \<and>
    token_active d2 (fr_refresh_jti (sample_fresh 30)) 9000000"
  by (rule refresh_race_two_descendants [OF sample_db_wf _ sample_refreshes])
    (simp_all add: new_token_fresh_def set_revoked_at_def sample_defs)

theorem logout_then_refresh_refused_witness:
  "refresh reference_lib default_settings id (sample_fresh 30) 10000000 sample_token
     (revoke_token 9000000 (new_token_row default_settings (sample_fresh 10) 5000000 sample_user) sample_db) =
    Inl invalid_refresh_token"
proof (rule logout_then_refresh_refused [OF reference_tokens.token_library_axioms sample_db_wf
      sample_token_minted _ _ sample_decodes _ rtranclp.rtrancl_refl])
  let ?t = "new_token_row default_settings (sample_fresh 10) 5000000 sample_user"
  show active: "get_active_token sample_db 13 9000000 = Inr (Some ?t)"
    by (simp add: get_active_token_def sample_defs days_def)
  show "rt_user_id ?t = 10" by (simp add: sample_defs)
  then show "logout reference_lib default_settings 9000000 sample_token sample_db =
      Inr (revoke_token 9000000 ?t sample_db)"
    by (simp add: logout_def decode_refresh_def sample_decodes active)
qed simp_all

theorem registered_user_can_log_in_witness:
  "login reference_lib default_settings (sample_fresh 20) 9000000
      \<lparr>log_login = ''ALICE'', log_password = ''password1''\<rparr> sample_db =
    Inr (new_token_response reference_lib default_settings (sample_fresh 20) 9000000 sample_user,
         sample_db\<lparr>refresh_tokens := refresh_tokens sample_db @
           [new_token_row default_settings (sample_fresh 20) 9000000 sample_user]\<rparr>)"
proof -
  let ?valid = "\<lambda>s. if CHR 0x40 \<in> set s then Some s else None"
  have valid: "CHR 0x40 \<in> set a" if "?valid s = Some a" for s a
    using that by (auto split: if_splits)
  have parse: "parse_register_request ?valid ''Alice'' ''a@b.c'' ''password1'' = Some sample_registration"
    unfolding parse_register_request_def sample_registration_def by code_simp
  have empty: "wf_db (id empty_db)" "login_names_ok (id empty_db)"
    using wf_empty_db by (simp_all add: login_names_ok_def empty_db_def)
  have "py_lower ''ALICE'' = ''alice''" by code_simp
  then have name: "py_lower ''ALICE'' \<in> {reg_username sample_registration, reg_email sample_registration}"
    by (simp add: sample_registration_def)
  have fresh: "new_token_fresh (sample_fresh 20) sample_db"
    by (simp add: new_token_fresh_def sample_defs)
  have user: "tr_user (new_token_response L S fr now sample_user) = sample_user" for L S fr now
    by (simp add: new_token_response_def)
  show ?thesis
    using registered_user_can_log_in [where now' = 9000000, OF reference_tokens.token_library_axioms
        valid parse sample_registers empty name fresh] unfolding user .
qed

theorem token_types_not_interchangeable_witness:
  "get_current_user reference_lib default_settings 6000000 (Some sample_token) sample_db =
    Inl invalid_access_token"
  using token_types_not_interchangeable [OF reference_tokens.token_library_axioms] sample_token_minted
  by blast

theorem access_token_lifetime_witness:
  "get_current_user reference_lib default_settings 904999999 (Some (tr_access_token
     (new_token_response reference_lib default_settings (sample_fresh 10) 5000000 sample_user))) sample_db =
    Inr sample_user"
proof -
  have u: "sample_user \<in> set (users sample_db)" by (simp add: sample_db_def)
  show ?thesis
    using access_token_lifetime [OF reference_tokens.token_library_axioms sample_db_wf u refl,
        where now = 5000000 and now' = 904999999 and fr = "sample_fresh 10" and S = default_settings]
    by (simp add: minutes_def)
qed

end
