(* ===== verification/Endpoint.thy ===== *)
theory Endpoint
  imports Dispatch Auth
begin

section \<open>The WebSocket endpoint (api/websocket.py, websocket/auth.py)\<close>

text \<open>
  A connection from the handshake to the clean-up.  What the client sends is a list of texts, each
  with what other tasks do before it arrives (a step of the world) and the clock and fresh values of
  its handling; when the list ends receiving raises what the transport raises.
\<close>

subsection \<open>The handshake\<close>

definition extract_access_token :: "string \<Rightarrow> string option" where
  "extract_access_token raw_protocols =
     (case map py_strip (py_split CHR '','' raw_protocols) of
        [scheme, token] \<Rightarrow> if scheme = ''access_token'' \<and> token \<noteq> [] then Some token else None
      | _ \<Rightarrow> None)"

definition get_websocket_user :: "string token_lib \<Rightarrow> settings \<Rightarrow> instant \<Rightarrow> string \<Rightarrow> db \<Rightarrow> user result" where
  "get_websocket_user L S now raw_protocols d =
     (case extract_access_token raw_protocols of
        None \<Rightarrow> Inl (WebSocketException ''Authentication required'')
      | Some token \<Rightarrow>
          (case decode_token L S token ''access'' now of
             Inl InvalidTokenError \<Rightarrow> Inl (WebSocketException ''Invalid or expired token'')
           | Inl e \<Rightarrow> Inl e
           | Inr payload \<Rightarrow>
               (case get_user_by_id d (tp_subject payload) of
                  None \<Rightarrow> Inl (WebSocketException ''Invalid or expired token'')
                | Some u \<Rightarrow> Inr u)))"

subsection \<open>The connection\<close>

text \<open>From the accepted socket to the loop: pending receipts, the ready frame, the announcements.\<close>

definition greet ::
  "(instant \<Rightarrow> string) \<Rightarrow> 'b backend \<Rightarrow> instant \<Rightarrow> uuid \<Rightarrow> websocket \<Rightarrow> bool \<Rightarrow> ('b world, unit) op" where
  "greet dt B now user_id ws became_online =
     obind (in_session id (\<lambda>d.
       let peers = peer_ids d user_id
       in ebind (mark_pending_delivered now user_id d) (\<lambda>(pending, d').
            Inr ((peers, pending, map (\<lambda>r. (re_conversation_id r, member_ids d' (re_conversation_id r))) pending), d'))))
       (\<lambda>(peers, pending, receipt_members).
     obind (asking (online_user_ids B peers)) (\<lambda>online_peer_ids.
     obind (on_manager (send_json (connection_ready_event user_id online_peer_ids) ws)) (\<lambda>_.
     obind (if became_online
            then on_manager (send_to_users B peers (presence_online_event user_id) (Some user_id))
            else oreturn ()) (\<lambda>_.
     oforeach (\<lambda>r. case map_of receipt_members (re_conversation_id r) of
         None \<Rightarrow> oraise KeyError
       | Some member_list \<Rightarrow> on_manager (send_to_users B member_list (message_delivered_event dt r) None)) pending))))"

record 'b incoming =
  in_before :: "'b world \<Rightarrow> 'b world"
  in_handling :: handling
  in_text :: string

definition receive_one ::
  "settings \<Rightarrow> (string \<Rightarrow> uuid option) \<Rightarrow> (instant \<Rightarrow> string) \<Rightarrow> 'b backend \<Rightarrow> uuid \<Rightarrow> 'b incoming \<Rightarrow> ('b world, unit) op" where
  "receive_one S pu dt B user_id i =
     obind (interleave (in_before i)) (\<lambda>_.
       case json_loads (in_text i) of
         Inr payload \<Rightarrow> dispatch_event S pu dt B (in_handling i) user_id payload
       | Inl ValueError \<Rightarrow> on_manager (send_to_user B user_id
           (error_event None ''INVALID_JSON'' ''WebSocket payload must be valid JSON''))
       | Inl e \<Rightarrow> oraise e)"

definition receive_loop ::
  "settings \<Rightarrow> (string \<Rightarrow> uuid option) \<Rightarrow> (instant \<Rightarrow> string) \<Rightarrow> 'b backend \<Rightarrow> uuid \<Rightarrow> 'b incoming list \<Rightarrow> exc \<Rightarrow>
     ('b world, unit) op" where
  "receive_loop S pu dt B user_id inputs closing =
     obind (oforeach (receive_one S pu dt B user_id) inputs) (\<lambda>_. oraise closing)"

text \<open>
  \<open>except (WebSocketDisconnect, RuntimeError, ValueError)\<close>; pydantic's \<open>ValidationError\<close> is a
  \<open>ValueError\<close>.
\<close>

fun ends_quietly :: "unit result \<Rightarrow> unit result" where
  "ends_quietly (Inl WebSocketDisconnect) = Inr ()"
| "ends_quietly (Inl RuntimeError) = Inr ()"
| "ends_quietly (Inl ValueError) = Inr ()"
| "ends_quietly (Inl ValidationError) = Inr ()"
| "ends_quietly r = r"

text \<open>The \<open>finally\<close> block, which keeps the exception under way unless it raises one itself.\<close>

definition hang_up :: "'b backend \<Rightarrow> (db \<Rightarrow> db) \<Rightarrow> instant \<Rightarrow> uuid \<Rightarrow> websocket \<Rightarrow> ('b world, unit) op" where
  "hang_up B env now user_id ws w =
     obind (asking (disconnect B user_id ws)) (\<lambda>became_offline.
       if became_offline then mark_user_offline B env now now user_id else oreturn ())
       (w\<lparr>wd_connections := wd_connections w - 1\<rparr>)"

definition websocket_endpoint ::
  "settings \<Rightarrow> (string \<Rightarrow> uuid option) \<Rightarrow> (instant \<Rightarrow> string) \<Rightarrow> 'b backend \<Rightarrow> user \<Rightarrow> websocket \<Rightarrow> unit result \<Rightarrow> instant \<Rightarrow>
     'b incoming list \<Rightarrow> exc \<Rightarrow> (db \<Rightarrow> db) \<Rightarrow> instant \<Rightarrow> ('b world, unit) op" where
  "websocket_endpoint S pu dt B u ws accepted start inputs closing env end_time =
     obind (on_manager (connect B accepted (u_id u) ws)) (\<lambda>became_online w1.
       let (r, w2) = obind (greet dt B start (u_id u) ws became_online)
             (\<lambda>_. receive_loop S pu dt B (u_id u) inputs closing) (w1\<lparr>wd_connections := wd_connections w1 + 1\<rparr>)
       in case hang_up B env end_time (u_id u) ws w2 of
            (Inl e, w3) \<Rightarrow> (Inl e, w3)
          | (Inr _, w3) \<Rightarrow> (ends_quietly r, w3))"

subsection \<open>Authentication\<close>

lemma token_case_Inr:
  "(case r of Inl InvalidTokenError \<Rightarrow> Inl a | Inl e \<Rightarrow> Inl e | Inr p \<Rightarrow> f p) = Inr u \<longleftrightarrow> (\<exists>p. r = Inr p \<and> f p = Inr u)"
proof (cases r)
  case (Inl e)
  then show ?thesis by (cases e) simp_all
qed simp

text \<open>A handshake is let in exactly when an HTTP request with the same token is.\<close>

lemma websocket_user_iff_current_user:
  "get_websocket_user L S now raw d = Inr u \<longleftrightarrow>
     (\<exists>token. extract_access_token raw = Some token \<and> get_current_user L S now (Some token) d = Inr u)"
  by (cases "extract_access_token raw")
    (auto simp: get_websocket_user_def get_current_user_def token_case_Inr split: option.splits)

subsection \<open>Cleaning up\<close>

definition keeps_table :: "'b world \<Rightarrow> 'b world \<Rightarrow> bool" where
  "keeps_table w w' \<longleftrightarrow> (manager_ok (wd_manager w) \<longrightarrow> manager_ok (wd_manager w'))"

interpretation table_effects: effects keeps_table
  by unfold_locales (auto simp: keeps_table_def)

lemma keeps_wtells: "op_within (wtells U) f \<Longrightarrow> op_within keeps_table f"
  by (simp add: op_within_def wtells_def tells_def keeps_table_def)

lemma wtells_send_anyone: "op_within (wtells UNIV) (on_manager (send_to_users B us event excluded))"
  by (rule wtells_on_manager [OF tells_send_to_users]) simp

lemma keeps_table_send_json: "op_within keeps_table (on_manager (send_json event ws))"
  by (simp add: op_within_def keeps_table_def on_manager_def send_json_def split: option.splits)

lemmas table_rules = table_effects.within_rules keeps_table_send_json keeps_wtells [OF wtells_send_anyone]
  keeps_wtells [OF wtells_asking [OF tells_online_user_ids]] keeps_wtells [OF wtells_session]

lemma greet_keeps: "op_within keeps_table (greet dt B now user_id ws b)"
  unfolding greet_def by (intro table_rules) (auto intro!: table_rules split: prod.splits option.splits)

lemma handle_event_anyone: "op_within (wtells UNIV) (handle_event S dt B h user_id event)"
  by (cases event)
    (auto simp: limited_def handle_message_send_def handle_message_read_def handle_typing_def Let_def
      intro!: world_effects.within_rules wtells_sends split: prod.splits)

lemma dispatch_keeps: "op_within keeps_table (dispatch_event S pu dt B h user_id payload)"
proof (unfold op_within_def, rule allI)
  fix w
  show "keeps_table w (snd (dispatch_event S pu dt B h user_id payload w))"
  proof (cases "event_type_label payload")
    case (Inl e)
    then show ?thesis by (simp add: dispatch_event_def table_effects.refl)
  next
    case (Inr label)
    obtain r w1 where body: "event_body S pu dt B h user_id payload w = (r, w1)"
      by (cases "event_body S pu dt B h user_id payload w")
    have "keeps_table w (snd (event_body S pu dt B h user_id payload w))"
      using keeps_wtells [OF handle_event_anyone, of S dt B h user_id]
      by (auto simp: event_body_def op_within_def table_effects.refl split: sum.splits)
    with body have first: "keeps_table w w1" by simp
    from Inr body show ?thesis
    proof (cases rule: dispatch_cases)
      case accepted
      with first show ?thesis by (simp add: count_event_def keeps_table_def)
    next
      case (refused outcome code msg)
      obtain m where "snd (reply_error B user_id payload label outcome code msg w1) = (count_event label outcome w1)\<lparr>wd_manager := m\<rparr>"
        "tells {user_id} (wd_manager w1) m"
        using reply_error_result [of B user_id payload label outcome code msg w1] by force
      with first refused show ?thesis by (auto simp: keeps_table_def tells_def)
    qed
  qed
qed

lemma receive_one_keeps:
  assumes "\<And>w. manager_ok (wd_manager w) \<Longrightarrow> manager_ok (wd_manager (in_before i w))"
  shows "op_within keeps_table (receive_one S pu dt B user_id i)"
proof -
  have "op_within keeps_table (interleave (in_before i))"
    using assms by (simp add: op_within_def interleave_def keeps_table_def)
  moreover have "op_within keeps_table (case json_loads (in_text i) of
      Inr payload \<Rightarrow> dispatch_event S pu dt B (in_handling i) user_id payload
    | Inl ValueError \<Rightarrow> on_manager (send_to_user B user_id (error_event None ''INVALID_JSON'' ''WebSocket payload must be valid JSON''))
    | Inl e \<Rightarrow> oraise e)"
    by (auto simp: send_to_user_def split: sum.splits exc.splits intro: dispatch_keeps table_rules)
  ultimately show ?thesis unfolding receive_one_def by (rule table_effects.within_bind)
qed

text \<open>After hanging up, the socket is on nobody's list under that user, and none is added on the way.\<close>

lemma hang_up_releases:
  assumes "manager_ok (wd_manager w)" and "hang_up B env now user_id ws w = (r, w')"
  shows "manager_ok (wd_manager w') \<and> ws \<notin> set (connections_of (wd_manager w') user_id)"
proof -
  obtain b m where d: "disconnect B user_id ws (wd_manager w) = (b, m)"
    by (cases "disconnect B user_id ws (wd_manager w)")
  note gone = disconnect_connections [OF assms(1) d]
  let ?w = "w\<lparr>wd_connections := wd_connections w - 1, wd_manager := m\<rparr>"
  have "op_within (wtells UNIV) (mark_user_offline B env now now user_id)"
    unfolding mark_user_offline_def
    by (intro world_effects.within_bind wtells_others wtells_session wtells_send_anyone)
  then have "wtells UNIV ?w w'"
    using assms(2) d by (cases b) (auto simp: hang_up_def obind_def asking_def on_manager_def oreturn_def
        op_within_def world_effects.refl dest: spec [of _ ?w])
  then have "manager_ok m \<longrightarrow> manager_ok (wd_manager w')"
    and "set (connections_of (wd_manager w') user_id) \<subseteq> set (connections_of m user_id)"
    by (simp_all add: wtells_def tells_def)
  with gone(1) gone(2) [of user_id] show ?thesis by auto
qed

text \<open>C10: A connection cleans up after itself: however it ends (the client leaves, an exception escapes, a frame cannot
  be sent), once the endpoint returns its socket is no longer registered for the user and the
  connection table is sound, as long as other tasks keep it so.\<close>

theorem endpoint_releases_socket:
  assumes "manager_ok (wd_manager w)"
    and "\<And>i v. i \<in> set inputs \<Longrightarrow> manager_ok (wd_manager v) \<Longrightarrow> manager_ok (wd_manager (in_before i v))"
    and "websocket_endpoint S pu dt B u ws (Inr ()) start inputs closing env end_time w = (r, w')"
  shows "manager_ok (wd_manager w') \<and> ws \<notin> set (connections_of (wd_manager w') (u_id u))"
proof -
  obtain x m1 where c: "connect B (Inr ()) (u_id u) ws (wd_manager w) = (x, m1)"
    by (cases "connect B (Inr ()) (u_id u) ws (wd_manager w)")
  have m1: "manager_ok m1" by (rule connect_connections(1) [OF assms(1) c])
  obtain b where b: "x = Inr b" using c by (auto simp: connect_def Let_def split: if_splits prod.splits option.splits)
  let ?w1 = "w\<lparr>wd_manager := m1\<rparr>"
  let ?talk = "obind (greet dt B start (u_id u) ws b) (\<lambda>_. receive_loop S pu dt B (u_id u) inputs closing)"
  have "op_within keeps_table ?talk"
    unfolding receive_loop_def using assms(2)
    by (intro table_effects.within_bind greet_keeps table_effects.within_foreach table_effects.within_return receive_one_keeps) blast
  then have talk: "manager_ok (wd_manager (snd (?talk (?w1\<lparr>wd_connections := wd_connections ?w1 + 1\<rparr>))))"
    using m1 by (auto simp: op_within_def keeps_table_def dest!: spec [of _ "?w1\<lparr>wd_connections := wd_connections ?w1 + 1\<rparr>"])
  obtain y w2 where y: "?talk (?w1\<lparr>wd_connections := wd_connections ?w1 + 1\<rparr>) = (y, w2)"
    by (cases "?talk (?w1\<lparr>wd_connections := wd_connections ?w1 + 1\<rparr>)")
  obtain z w3 where z: "hang_up B env end_time (u_id u) ws w2 = (z, w3)"
    by (cases "hang_up B env end_time (u_id u) ws w2")
  have "w' = w3"
    using assms(3) y z c b by (cases z) (simp_all add: websocket_endpoint_def obind_def [of "on_manager _"] on_manager_def)
  moreover have "manager_ok (wd_manager w2)" using talk y by simp
  ultimately show ?thesis using hang_up_releases [OF _ z] by simp
qed

theorem endpoint_releases_socket_witness:
  "\<exists>r w'. websocket_endpoint default_settings (\<lambda>_. None) isoformat idle_backend (duo_user 1 ''ann'') 17 (Inr ()) 300
      [\<lparr>in_before = id, in_handling = chat_handling, in_text = ''{}''\<rparr>] WebSocketDisconnect id 400 chat_world = (r, w') \<and>
    17 \<notin> set (connections_of (wd_manager w') (u_id (duo_user 1 ''ann'')))"
proof -
  let ?inputs = "[\<lparr>in_before = id, in_handling = chat_handling, in_text = ''{}''\<rparr>]"
  obtain r w' where run: "websocket_endpoint default_settings (\<lambda>_. None) isoformat idle_backend (duo_user 1 ''ann'') 17 (Inr ()) 300
      ?inputs WebSocketDisconnect id 400 chat_world = (r, w')"
    by (cases "websocket_endpoint default_settings (\<lambda>_. None) isoformat idle_backend (duo_user 1 ''ann'') 17 (Inr ()) 300
      ?inputs WebSocketDisconnect id 400 chat_world")
  have "manager_ok (wd_manager chat_world)" using two_sockets_facts(1) by simp
  from endpoint_releases_socket [OF this _ run] run show ?thesis by auto
qed

end
