(* ===== verification/Storage.thy ===== *)
theory Storage
  imports Prelude
begin

section \<open>Object storage (core/storage.py)\<close>

text \<open>
  MinIO is a parameter: a record of the client's calls on the configured bucket, over any type of
  store, with the laws the backend relies on as a locale.  A call gives its result or the
  exception it raises, and the store it leaves.  Reading an object gives the chunks the response's
  \<open>stream\<close> yields.  The class \<open>ObjectStorage\<close> wraps the calls and turns two error codes into
  values.
\<close>

subsection \<open>The client library\<close>

record object_stat =
  os_size :: int
  os_content_type :: "string option"
  os_etag :: string

record 's minio =
  mo_stat :: "string \<Rightarrow> 's \<Rightarrow> object_stat result"
  mo_copy :: "string \<Rightarrow> string \<Rightarrow> string \<Rightarrow> 's \<Rightarrow> unit result \<times> 's" \<comment> \<open>source, matching etag, destination\<close>
  mo_get :: "string \<Rightarrow> 's \<Rightarrow> string list result"
  mo_remove :: "string \<Rightarrow> 's \<Rightarrow> unit result \<times> 's"
  mo_presigned_put :: "string \<Rightarrow> int \<Rightarrow> 's \<Rightarrow> string result"
  mo_bucket_exists :: "'s \<Rightarrow> bool result"
  mo_make_bucket :: "'s \<Rightarrow> unit result \<times> 's"

record stored_object =
  so_bytes :: string
  so_type :: "string option"
  so_etag :: string

text \<open>
  The documented behaviour: a stat describes the object under the key, a conditional copy
  duplicates an object whose etag matches, a read gives the object's bytes in nonempty chunks of
  at most 64 KiB.  A call that fails may still have had its effect, as a timed-out one may.
\<close>

locale object_store =
  fixes M :: "'s minio" and contents :: "'s \<Rightarrow> string \<Rightarrow> stored_object option"
  assumes stat_Inr: "mo_stat M k s = Inr r \<Longrightarrow> \<exists>ob. contents s k = Some ob \<and>
      r = \<lparr>os_size = int (length (so_bytes ob)), os_content_type = so_type ob, os_etag = so_etag ob\<rparr>"
    and get_Inr: "mo_get M k s = Inr chunks \<Longrightarrow> \<exists>ob. contents s k = Some ob \<and> concat chunks = so_bytes ob \<and>
      [] \<notin> set chunks \<and> (\<forall>c \<in> set chunks. length c \<le> 65536)"
    and copy_ok: "mo_copy M src e dst s = (Inr (), s') \<Longrightarrow> \<exists>ob. contents s src = Some ob \<and> so_etag ob = e \<and>
      contents s' = (contents s)(dst := Some ob)"
    and copy_failed: "mo_copy M src e dst s = (Inl x, s') \<Longrightarrow> contents s' = contents s \<or>
      (\<exists>ob. contents s src = Some ob \<and> contents s' = (contents s)(dst := Some ob))"
    and remove_ok: "mo_remove M k s = (Inr (), s') \<Longrightarrow> contents s' = (contents s)(k := None)"
    and remove_failed: "mo_remove M k s = (Inl x, s') \<Longrightarrow>
      contents s' = contents s \<or> contents s' = (contents s)(k := None)"
begin

lemma remove_other: "mo_remove M k s = (r, s') \<Longrightarrow> j \<noteq> k \<Longrightarrow> contents s' j = contents s j"
  using remove_ok [of k s s'] remove_failed [of k s _ s'] by (cases r) auto

lemma copy_other: "mo_copy M src e dst s = (r, s') \<Longrightarrow> j \<noteq> dst \<Longrightarrow> contents s' j = contents s j"
  using copy_ok [of src e dst s s'] copy_failed [of src e dst s _ s'] by (cases r) auto

end

subsection \<open>The wrapper\<close>

record stored_object_metadata =
  md_size :: int
  md_content_type :: string
  md_etag :: string

definition storage_stat :: "'s minio \<Rightarrow> string \<Rightarrow> 's \<Rightarrow> stored_object_metadata option result" where
  "storage_stat M storage_key s =
     (case mo_stat M storage_key s of
        Inl (S3Error code) \<Rightarrow>
          if code \<in> {''NoSuchKey'', ''NoSuchObject''} then Inr None else Inl (S3Error code)
      | Inl e \<Rightarrow> Inl e
      | Inr r \<Rightarrow> Inr (Some
          \<lparr>md_size = os_size r,
           md_content_type = (case os_content_type r of
              None \<Rightarrow> ''application/octet-stream''
            | Some t \<Rightarrow> if t = [] then ''application/octet-stream'' else t),
           md_etag = os_etag r\<rparr>))"

definition copy_if_unchanged ::
  "'s minio \<Rightarrow> string \<Rightarrow> string \<Rightarrow> string \<Rightarrow> 's \<Rightarrow> unit result \<times> 's" where
  "copy_if_unchanged M source_key destination_key etag s =
     (case mo_copy M source_key etag destination_key s of
        (Inl (S3Error code), s') \<Rightarrow>
          (Inl (if code \<in> {''PreconditionFailed'', ''InvalidRequest''} then ObjectChangedError
                else S3Error code), s')
      | (r, s') \<Rightarrow> (r, s'))"

definition ensure_bucket :: "'s minio \<Rightarrow> 's \<Rightarrow> unit result \<times> 's" where
  "ensure_bucket M s =
     (case mo_bucket_exists M s of
        Inl e \<Rightarrow> (Inl e, s)
      | Inr present \<Rightarrow> if \<not> present then mo_make_bucket M s else (Inr (), s))"

definition storage_healthcheck :: "'s minio \<Rightarrow> 's \<Rightarrow> bool result" where
  "storage_healthcheck M s = mo_bucket_exists M s"

definition storage_get :: "'s minio \<Rightarrow> string \<Rightarrow> 's \<Rightarrow> string list result" where
  "storage_get M storage_key s = mo_get M storage_key s"

definition storage_remove :: "'s minio \<Rightarrow> string \<Rightarrow> 's \<Rightarrow> unit result \<times> 's" where
  "storage_remove M storage_key s = mo_remove M storage_key s"

definition presigned_put :: "'s minio \<Rightarrow> string \<Rightarrow> int \<Rightarrow> 's \<Rightarrow> string result" where
  "presigned_put M storage_key expires s = mo_presigned_put M storage_key expires s"

lemma storage_stat_Some:
  assumes "storage_stat M k s = Inr (Some md)"
  obtains r where "mo_stat M k s = Inr r" and "md_size md = os_size r" and "md_etag md = os_etag r"
  using assms
  by (auto simp: storage_stat_def split: sum.splits exc.splits if_splits)

lemma copy_if_unchanged_ok:
  "copy_if_unchanged M src dst e s = (Inr (), s') \<longleftrightarrow> mo_copy M src e dst s = (Inr (), s')"
  by (auto simp: copy_if_unchanged_def split: prod.splits sum.splits exc.splits)

lemma copy_if_unchanged_store: "snd (copy_if_unchanged M src dst e s) = snd (mo_copy M src e dst s)"
  by (auto simp: copy_if_unchanged_def split: prod.splits sum.splits exc.splits)

subsection \<open>A store that obeys the laws\<close>

text \<open>
  Objects under their keys in an association list, each its bytes and its content type; the etag
  is the bytes themselves, as a digest of them stands for them.
\<close>

type_synonym object_map = "(string \<times> string \<times> string option) list"

definition ref_object :: "string \<times> string option \<Rightarrow> stored_object" where
  "ref_object p = \<lparr>so_bytes = fst p, so_type = snd p, so_etag = fst p\<rparr>"

definition ref_contents :: "object_map \<Rightarrow> string \<Rightarrow> stored_object option" where
  "ref_contents s k = map_option ref_object (map_of s k)"

definition ref_chunks :: "string \<Rightarrow> string list" where
  "ref_chunks bytes = map (\<lambda>c. [c]) bytes"

definition reference_minio :: "object_map minio" where
  "reference_minio = \<lparr>
     mo_stat = (\<lambda>k s. case map_of s k of None \<Rightarrow> Inl (S3Error ''NoSuchKey'')
       | Some (b, t) \<Rightarrow> Inr \<lparr>os_size = int (length b), os_content_type = t, os_etag = b\<rparr>),
     mo_copy = (\<lambda>src e dst s. case map_of s src of None \<Rightarrow> (Inl (S3Error ''NoSuchKey''), s)
       | Some (b, t) \<Rightarrow> if b = e then (Inr (), (dst, b, t) # s) else (Inl (S3Error ''PreconditionFailed''), s)),
     mo_get = (\<lambda>k s. case map_of s k of None \<Rightarrow> Inl (S3Error ''NoSuchKey'')
       | Some (b, t) \<Rightarrow> Inr (ref_chunks b)),
     mo_remove = (\<lambda>k s. (Inr (), filter (\<lambda>p. fst p \<noteq> k) s)),
     mo_presigned_put = (\<lambda>k t s. Inr (''https://store/'' @ k)),
     mo_bucket_exists = (\<lambda>s. Inr True),
     mo_make_bucket = (\<lambda>s. (Inr (), s))\<rparr>"

lemma map_of_filter_key: "map_of (filter (\<lambda>p. fst p \<noteq> k) s) = (map_of s)(k := None)"
  by (induction s) auto

lemma concat_ref_chunks [simp]: "concat (ref_chunks bytes) = bytes"
  by (simp add: ref_chunks_def)

interpretation reference_store: object_store reference_minio ref_contents
  by unfold_locales
    (auto simp: reference_minio_def map_of_filter_key ref_chunks_def ref_contents_def ref_object_def fun_eq_iff
      split: option.splits if_splits)

text \<open>Equal etags mean equal bytes, and a call that fails has not removed anything.\<close>

definition etags_faithful :: "('s \<Rightarrow> string \<Rightarrow> stored_object option) \<Rightarrow> bool" where
  "etags_faithful contents \<longleftrightarrow> (\<forall>s k ob s' k' ob'. contents s k = Some ob \<longrightarrow> contents s' k' = Some ob' \<longrightarrow>
     so_etag ob = so_etag ob' \<longrightarrow> so_bytes ob = so_bytes ob')"

definition failed_removal_keeps :: "'s minio \<Rightarrow> ('s \<Rightarrow> string \<Rightarrow> stored_object option) \<Rightarrow> bool" where
  "failed_removal_keeps M contents \<longleftrightarrow>
     (\<forall>k s e s'. mo_remove M k s = (Inl e, s') \<longrightarrow> contents s' = contents s)"

lemma reference_etags: "etags_faithful ref_contents"
  by (auto simp: etags_faithful_def ref_contents_def ref_object_def)

lemma reference_removal: "failed_removal_keeps reference_minio ref_contents"
  by (simp add: failed_removal_keeps_def reference_minio_def)

end
