(* ===== verification/Scanning.thy ===== *)
theory Scanning
  imports Storage PyText
begin

section \<open>Malware scanning (core/scanning.py)\<close>

text \<open>
  The ClamAV client: the object's bytes framed as an \<open>INSTREAM\<close> command, the reply read until a
  zero byte, the end of the stream or 4096 bytes, and the verdict taken from the reply's last
  word.  The daemon is a parameter, from the bytes it is sent to the parts it answers with, or an
  exception of the socket.  The final decoding of the reply replaces invalid UTF-8 and leaves
  ASCII as it is, so the two suffix tests are made on the bytes.
\<close>

type_synonym clamd = "string \<Rightarrow> string list result"

datatype scanner = DisabledScanner | ClamAVScanner

text \<open>\<open>struct.pack("!I", n)\<close>\<close>

definition pack_u32 :: "nat \<Rightarrow> string" where
  "pack_u32 n = map char_of (to_base 256 4 (int n))"

definition instream_request :: "string list \<Rightarrow> string" where
  "instream_request chunks =
     ''zINSTREAM'' @ [CHR 0x00] @ concat (map (\<lambda>chunk. pack_u32 (length chunk) @ chunk) chunks) @ pack_u32 0"

text \<open>The \<open>recv\<close> loop: at most 4096 bytes in all, an empty part is the end of the stream.\<close>

fun recv_reply :: "string \<Rightarrow> string list \<Rightarrow> string" where
  "recv_reply acc [] = acc"
| "recv_reply acc (part # parts) =
     (if 4096 \<le> length acc then acc
      else
        let got = take (4096 - length acc) part in
        if got = [] then acc
        else if CHR 0x00 \<in> set got then acc @ got
        else if length got < length part then acc @ got
        else recv_reply (acc @ got) parts)"

definition rstrip_zero :: "string \<Rightarrow> string" where
  "rstrip_zero s = rev (dropWhile (\<lambda>c. c = CHR 0x00) (rev s))"

definition scan_response :: "clamd \<Rightarrow> string list \<Rightarrow> string result" where
  "scan_response D chunks = ebind (D (instream_request chunks)) (\<lambda>parts. Inr (rstrip_zero (recv_reply [] parts)))"

definition scan_unavailable :: exc where
  "scan_unavailable = AppError 503 ''ATTACHMENT_SCAN_UNAVAILABLE''
     ''Attachment scanning is temporarily unavailable''"

definition attachment_infected :: exc where
  "attachment_infected = AppError 422 ''ATTACHMENT_INFECTED''
     ''The uploaded file did not pass the security scan''"

definition scan_invalid :: exc where
  "scan_invalid = AppError 503 ''ATTACHMENT_SCAN_UNAVAILABLE''
     ''Attachment scanning returned an invalid result''"

fun scan :: "scanner \<Rightarrow> clamd \<Rightarrow> 's minio \<Rightarrow> string \<Rightarrow> 's \<Rightarrow> unit result" where
  "scan DisabledScanner D M storage_key s = Inr ()"
| "scan ClamAVScanner D M storage_key s =
     ebind (storage_get M storage_key s) (\<lambda>response.
     case scan_response D response of
       Inl OSError \<Rightarrow> Inl scan_unavailable
     | Inl e \<Rightarrow> Inl e
     | Inr verdict \<Rightarrow>
         if py_endswith verdict ''FOUND'' then Inl attachment_infected
         else if \<not> py_endswith verdict ''OK'' then Inl scan_invalid
         else Inr ())"

text \<open>What a scan adds to \<open>ATTACHMENT\_SCANS\_TOTAL\<close>: the scanner and the outcome.\<close>

fun scan_counted :: "scanner \<Rightarrow> clamd \<Rightarrow> 's minio \<Rightarrow> string \<Rightarrow> 's \<Rightarrow> (string \<times> string) list" where
  "scan_counted DisabledScanner D M storage_key s = [(''disabled'', ''skipped'')]"
| "scan_counted ClamAVScanner D M storage_key s =
     (case storage_get M storage_key s of
        Inl _ \<Rightarrow> []
      | Inr response \<Rightarrow>
          (case scan_response D response of
             Inl OSError \<Rightarrow> [(''clamav'', ''unavailable'')]
           | Inl _ \<Rightarrow> []
           | Inr verdict \<Rightarrow> [(''clamav'',
               if py_endswith verdict ''FOUND'' then ''infected''
               else if \<not> py_endswith verdict ''OK'' then ''error''
               else ''clean'')]))"

text \<open>The outcome that is counted tells whether the scan let the attachment pass.\<close>

lemma scan_counted_outcome:
  "scan sc D M storage_key s = Inr () \<longleftrightarrow> snd ` set (scan_counted sc D M storage_key s) \<subseteq> {''skipped'', ''clean''} \<and>
    scan_counted sc D M storage_key s \<noteq> []"
  by (cases sc) (auto split: sum.splits exc.splits)

subsection \<open>What the daemon receives\<close>

text \<open>
  The command as its documentation defines it: each chunk is preceded by its length as four bytes
  in network order, and a zero length ends the stream.
\<close>

definition unpack_u32 :: "string \<Rightarrow> nat" where
  "unpack_u32 s = nat (of_base 256 0 (map of_char s))"

fun read_chunks :: "nat \<Rightarrow> string \<Rightarrow> (string \<times> string) option" where
  "read_chunks 0 s = None"
| "read_chunks (Suc fuel) s =
     (if length s < 4 then None
      else
        let n = unpack_u32 (take 4 s); rest = drop 4 s in
        if n = 0 then Some ([], rest)
        else if length rest < n then None
        else map_option (\<lambda>(body, r). (take n rest @ body, r)) (read_chunks fuel (drop n rest)))"

definition instream_decode :: "string \<Rightarrow> (string \<times> string) option" where
  "instream_decode s =
     (if take 10 s = ''zINSTREAM'' @ [CHR 0x00] then read_chunks (length s) (drop 10 s) else None)"

lemma length_pack_u32 [simp]: "length (pack_u32 n) = 4"
  by (simp add: pack_u32_def)

lemma unpack_pack_u32: "n < 2 ^ 32 \<Longrightarrow> unpack_u32 (pack_u32 n) = n"
proof -
  assume n: "n < 2 ^ 32"
  have digits: "map (of_char \<circ> char_of) (to_base 256 4 (int n)) = to_base 256 4 (int n)"
    by (rule map_idI) (use to_base_range [of 256 _ 4 "int n"] in \<open>simp del: to_base.simps\<close>)
  have "of_base 256 0 (to_base 256 4 (int n)) = int n mod 256 ^ 4" by (rule of_to_base) simp
  also have "\<dots> = int n" using n by simp
  finally show ?thesis
    by (simp add: unpack_u32_def pack_u32_def digits del: to_base.simps)
qed

lemma read_chunks_frames:
  assumes "\<forall>c \<in> set chunks. c \<noteq> [] \<and> length c < 2 ^ 32" and "length chunks < fuel"
  shows "read_chunks fuel (concat (map (\<lambda>chunk. pack_u32 (length chunk) @ chunk) chunks) @ pack_u32 0 @ rest) =
    Some (concat chunks, rest)"
  using assms
proof (induction chunks arbitrary: fuel)
  case Nil
  then obtain m where "fuel = Suc m" by (cases fuel) auto
  then show ?case using unpack_pack_u32 [of 0] by simp
next
  case (Cons c chunks)
  then obtain m where m: "fuel = Suc m" by (cases fuel) auto
  have "unpack_u32 (pack_u32 (length c)) = length c" using Cons.prems by (intro unpack_pack_u32) simp
  moreover have "length c \<noteq> 0" using Cons.prems by simp
  ultimately show ?case using Cons m by simp
qed

lemma instream_decode_request:
  assumes "\<forall>c \<in> set chunks. c \<noteq> [] \<and> length c < 2 ^ 32"
  shows "instream_decode (instream_request chunks) = Some (concat chunks, [])"
proof -
  have count: "length chunks \<le> length (concat (map (\<lambda>chunk. pack_u32 (length chunk) @ chunk) chunks))"
    by (induction chunks) auto
  have "take 10 (instream_request chunks) = ''zINSTREAM'' @ [CHR 0x00]"
    "drop 10 (instream_request chunks) =
      concat (map (\<lambda>chunk. pack_u32 (length chunk) @ chunk) chunks) @ pack_u32 0 @ []"
    by (simp_all add: instream_request_def)
  moreover have "length chunks < length (instream_request chunks)"
    using count by (simp add: instream_request_def)
  ultimately show ?thesis
    unfolding instream_decode_def by (simp only: read_chunks_frames [OF assms] if_True refl)
qed

lemma scan_ClamAV_Inr:
  assumes "scan ClamAVScanner D M k s = Inr ()"
  obtains chunks parts where "mo_get M k s = Inr chunks" and "D (instream_request chunks) = Inr parts"
    and "py_endswith (rstrip_zero (recv_reply [] parts)) ''OK''"
proof -
  obtain chunks where chunks: "mo_get M k s = Inr chunks"
    using assms by (cases "mo_get M k s") (auto simp: storage_get_def)
  let ?verdict = "\<lambda>v. if py_endswith v ''FOUND'' then Inl attachment_infected
    else if \<not> py_endswith v ''OK'' then Inl scan_invalid else Inr () :: unit result"
  show ?thesis
  proof (cases "D (instream_request chunks)")
    case (Inl e)
    with assms chunks show ?thesis
      by (cases e) (simp_all add: storage_get_def scan_response_def)
  next
    case (Inr parts)
    with assms chunks have "?verdict (rstrip_zero (recv_reply [] parts)) = Inr ()"
      by (simp add: storage_get_def scan_response_def)
    then have "py_endswith (rstrip_zero (recv_reply [] parts)) ''OK''"
      by (metis Inl_Inr_False)
    with that chunks Inr show ?thesis by blast
  qed
qed

lemma scan_ClamAV_clean:
  assumes "object_store M contents" and "scan ClamAVScanner D M k s = Inr ()"
  shows "\<exists>ob request parts. contents s k = Some ob \<and> D request = Inr parts \<and>
    instream_decode request = Some (so_bytes ob, []) \<and>
    py_endswith (rstrip_zero (recv_reply [] parts)) ''OK''"
proof -
  obtain chunks parts where got: "mo_get M k s = Inr chunks" "D (instream_request chunks) = Inr parts"
    "py_endswith (rstrip_zero (recv_reply [] parts)) ''OK''"
    using assms(2) by (rule scan_ClamAV_Inr)
  obtain ob where ob: "contents s k = Some ob" "concat chunks = so_bytes ob" "[] \<notin> set chunks"
    "\<forall>c \<in> set chunks. length c \<le> 65536"
    using object_store.get_Inr [OF assms(1) got(1)] by blast
  then have "\<forall>c \<in> set chunks. c \<noteq> [] \<and> length c < 2 ^ 32" by fastforce
  then have "instream_decode (instream_request chunks) = Some (so_bytes ob, [])"
    using ob(2) by (simp add: instream_decode_request)
  with got ob(1) show ?thesis by blast
qed

text \<open>C34: The scanner is sent exactly the object's bytes and only its clean verdict passes: if scanning an
  object with ClamAV succeeds, the daemon received a well-formed INSTREAM command whose chunks, read
  as its protocol defines them, are the object's content and nothing more, and its reply ended in
  OK.\<close>

theorem clean_scan_saw_whole_object:
  assumes "object_store M contents" and "scan ClamAVScanner D M k s = Inr ()"
  shows "\<exists>ob request parts. contents s k = Some ob \<and> D request = Inr parts \<and>
    instream_decode request = Some (so_bytes ob, []) \<and>
    py_endswith (rstrip_zero (recv_reply [] parts)) ''OK''"
  using assms by (rule scan_ClamAV_clean)

definition approving_clamd :: clamd where
  "approving_clamd request = Inr [''stream: OK'', [CHR 0x00]]"

lemma approving_scan:
  "scan ClamAVScanner approving_clamd reference_minio ''k'' [(''k'', ''hi'', None)] = Inr ()"
  by (simp add: storage_get_def scan_response_def approving_clamd_def reference_minio_def rstrip_zero_def
      py_endswith_def)

lemma clean_scan_saw_whole_object_witness:
  "\<exists>ob request parts. ref_contents [(''k'', ''hi'', None)] ''k'' = Some ob \<and>
    approving_clamd request = Inr parts \<and> instream_decode request = Some (so_bytes ob, []) \<and>
    py_endswith (rstrip_zero (recv_reply [] parts)) ''OK''"
  by (rule clean_scan_saw_whole_object [OF reference_store.object_store_axioms approving_scan])

end
