(* ===== verification/Attachments.thy ===== *)
theory Attachments
  imports Scanning Messages
begin

section \<open>The attachment service (services/attachment_service.py)\<close>

text \<open>
  Reserving an upload, completing it, authorising a download and removing abandoned uploads.  An
  upload goes by a presigned URL for a pending key, outside the service; completing it stats the
  object, scans it, copies it to its final key on condition that its etag is still the one the
  stat gave, and then commits the row.  \<open>env i\<close> is what clients do to the store between those
  steps: after the stat (0), after the scan (1) and after the copy (2).  The row is locked from
  the first query on, so the database is the one the operation read.
\<close>

subsection \<open>Names and keys\<close>

definition allowed_mime_types :: "string list" where
  "allowed_mime_types =
     [''application/pdf'', ''application/zip'', ''image/gif'', ''image/jpeg'', ''image/png'',
      ''image/webp'', ''text/plain'']"

text \<open>
  \<open>Path(filename).suffix\<close> in Python 3.12: the path's last component that is neither empty nor a
  single dot, from its last dot on unless that dot is its first or last character.
\<close>

definition path_name :: "string \<Rightarrow> string" where
  "path_name filename =
     (let parts = filter (\<lambda>p. p \<noteq> [] \<and> p \<noteq> ''.'') (py_split CHR ''/'' filename)
      in if parts = [] then [] else last parts)"

definition path_suffix :: "string \<Rightarrow> string" where
  "path_suffix filename =
     (let name = path_name filename; after = length (takeWhile (\<lambda>c. c \<noteq> CHR ''.'') (rev name))
      in if 0 < after \<and> after + 1 < length name then drop (length name - after - 1) name else [])"

definition key_suffix :: "string \<Rightarrow> string" where
  "key_suffix filename = take 16 (py_lower (path_suffix filename))"

definition pending_key :: "uuid \<Rightarrow> uuid \<Rightarrow> uuid \<Rightarrow> string \<Rightarrow> string" where
  "pending_key conversation_id uploader_id attachment_id filename =
     ''pending/'' @ uuid_str conversation_id @ ''/'' @ uuid_str uploader_id @ ''/'' @
     uuid_str attachment_id @ key_suffix filename"

definition final_key :: "uuid \<Rightarrow> uuid \<Rightarrow> uuid \<Rightarrow> string \<Rightarrow> string" where
  "final_key conversation_id uploader_id attachment_id filename =
     ''objects/'' @ uuid_str conversation_id @ ''/'' @ uuid_str uploader_id @ ''/'' @
     uuid_str attachment_id @ key_suffix filename"

abbreviation row_pending_key :: "attachment \<Rightarrow> string" where
  "row_pending_key a \<equiv> pending_key (a_conversation_id a) (a_uploader_id a) (a_id a) (a_filename a)"

abbreviation row_final_key :: "attachment \<Rightarrow> string" where
  "row_final_key a \<equiv> final_key (a_conversation_id a) (a_uploader_id a) (a_id a) (a_filename a)"

subsection \<open>Reserving\<close>

record attachment_upload_response =
  au_attachment :: attachment_response
  au_upload_url :: string
  au_upload_headers :: "(string \<times> string) list"
  au_expires_at :: instant

definition validate_metadata :: "settings \<Rightarrow> string \<Rightarrow> int \<Rightarrow> unit result" where
  "validate_metadata S mime_type file_size =
     (if mime_type \<notin> set allowed_mime_types
      then Inl (AppError 422 ''ATTACHMENT_TYPE_NOT_ALLOWED'' ''File type is not allowed'')
      else if file_size > attachment_max_bytes S
      then Inl (AppError 422 ''ATTACHMENT_TOO_LARGE'' ''File exceeds the upload limit'')
      else Inr ())"

definition new_attachment :: "uuid \<Rightarrow> instant \<Rightarrow> uuid \<Rightarrow> uuid \<Rightarrow> string \<Rightarrow> string \<Rightarrow> int \<Rightarrow> attachment" where
  "new_attachment aid now cid uploader_id filename mime_type file_size =
     \<lparr>a_id = aid, a_conversation_id = cid, a_uploader_id = uploader_id, a_message_id = None,
      a_filename = filename, a_mime_type = mime_type, a_file_size = file_size,
      a_storage_key = pending_key cid uploader_id aid filename, a_created_at = now,
      a_uploaded_at = None\<rparr>"

definition upload_window :: "int \<Rightarrow> int" where
  "upload_window n = n * 60 * 1000000"

definition reserve ::
  "settings \<Rightarrow> 's minio \<Rightarrow> uuid \<Rightarrow> instant \<Rightarrow> instant \<Rightarrow> uuid \<Rightarrow> uuid \<Rightarrow> string \<Rightarrow> string \<Rightarrow> int \<Rightarrow>
     db \<times> 's \<Rightarrow> (attachment_upload_response \<times> db) result" where
  "reserve S M aid created now cid uploader_id filename mime_type file_size = (\<lambda>(d, s).
     ebind (get_authorized d cid uploader_id) (\<lambda>_.
     ebind (validate_metadata S mime_type file_size) (\<lambda>_.
     let a = new_attachment aid created cid uploader_id filename mime_type file_size;
         expires = upload_window (attachment_upload_expire_minutes S) in
     ebind (presigned_put M (a_storage_key a) expires s) (\<lambda>upload_url.
     ebind (insert_attachment a d) (\<lambda>d'.
       Inr (\<lparr>au_attachment = attachment_to_response a, au_upload_url = upload_url,
             au_upload_headers = [(''Content-Type'', mime_type)], au_expires_at = now + expires\<rparr>, d'))))))"

subsection \<open>Completing\<close>

definition attachment_not_found :: exc where
  "attachment_not_found = AppError 404 ''ATTACHMENT_NOT_FOUND'' ''Attachment was not found''"

definition not_uploaded :: exc where
  "not_uploaded = AppError 409 ''ATTACHMENT_NOT_UPLOADED'' ''Upload has not completed''"

definition size_mismatch :: exc where
  "size_mismatch = AppError 422 ''ATTACHMENT_SIZE_MISMATCH'' ''Uploaded file size is invalid''"

definition type_mismatch :: exc where
  "type_mismatch = AppError 422 ''ATTACHMENT_TYPE_MISMATCH'' ''Uploaded file type is invalid''"

definition attachment_changed :: exc where
  "attachment_changed = AppError 409 ''ATTACHMENT_CHANGED''
     ''The uploaded file changed during verification; upload it again''"

definition plain_type :: "string \<Rightarrow> string" where
  "plain_type content_type = py_lower (py_strip (hd (py_split CHR '';'' content_type)))"

text \<open>The checks of the stat, and the commit of the row: the storage key is a unique column.\<close>

definition check_upload :: "attachment \<Rightarrow> stored_object_metadata option \<Rightarrow> stored_object_metadata result" where
  "check_upload a metadata =
     (case metadata of
        None \<Rightarrow> Inl not_uploaded
      | Some md \<Rightarrow>
          if md_size md \<noteq> a_file_size a then Inl size_mismatch
          else if plain_type (md_content_type md) \<noteq> a_mime_type a then Inl type_mismatch
          else Inr md)"

definition finalize_attachment :: "uuid \<Rightarrow> string \<Rightarrow> instant \<Rightarrow> db \<Rightarrow> db result" where
  "finalize_attachment aid key now d =
     (if \<exists>a \<in> set (attachments d). a_id a \<noteq> aid \<and> a_storage_key a = key then Inl IntegrityError
      else Inr (d\<lparr>attachments := update_where (\<lambda>a. a_id a = aid) (finalize_row (key, now)) (attachments d)\<rparr>))"

definition complete ::
  "'s minio \<Rightarrow> scanner \<Rightarrow> clamd \<Rightarrow> (nat \<Rightarrow> 's \<Rightarrow> 's) \<Rightarrow> instant \<Rightarrow> uuid \<Rightarrow> uuid \<Rightarrow> db \<times> 's \<Rightarrow>
     attachment_response result \<times> db \<times> 's" where
  "complete M scanner D env now aid current_user_id = (\<lambda>(d, s).
     case get_attachment_for_update d aid of
       Inl e \<Rightarrow> (Inl e, d, s)
     | Inr None \<Rightarrow> (Inl attachment_not_found, d, s)
     | Inr (Some a) \<Rightarrow>
         if a_uploader_id a \<noteq> current_user_id then (Inl attachment_not_found, d, s)
         else
           (case get_authorized d (a_conversation_id a) current_user_id of
              Inl e \<Rightarrow> (Inl e, d, s)
            | Inr _ \<Rightarrow>
                if a_uploaded_at a \<noteq> None then (Inr (attachment_to_response a), d, s)
                else
                  (case ebind (storage_stat M (a_storage_key a) s) (check_upload a) of
                     Inl e \<Rightarrow> (Inl e, d, s)
                   | Inr metadata \<Rightarrow>
                       let s1 = env 0 s in
                       (case scan scanner D M (a_storage_key a) s1 of
                          Inl e \<Rightarrow> (Inl e, d, s1)
                        | Inr _ \<Rightarrow>
                            (case copy_if_unchanged M (a_storage_key a) (row_final_key a) (md_etag metadata) (env 1 s1) of
                               (Inl ObjectChangedError, s2) \<Rightarrow> (Inl attachment_changed, d, s2)
                             | (Inl e, s2) \<Rightarrow> (Inl e, d, s2)
                             | (Inr _, s2) \<Rightarrow>
                                 (case finalize_attachment aid (row_final_key a) now d of
                                    Inl e \<Rightarrow> (Inl e, d, s2)
                                  | Inr d' \<Rightarrow>
                                      (Inr (attachment_to_response (finalize_row (row_final_key a, now) a)), d',
                                       snd (storage_remove M (a_storage_key a) (env 2 s2)))))))))"

subsection \<open>Downloading and cleaning up\<close>

definition authorize_download :: "db \<Rightarrow> uuid \<Rightarrow> uuid \<Rightarrow> attachment result" where
  "authorize_download d aid current_user_id =
     (case get_attachment d aid of
        None \<Rightarrow> Inl attachment_not_found
      | Some a \<Rightarrow>
          if a_message_id a = None \<or> a_uploaded_at a = None then Inl attachment_not_found
          else ebind (get_authorized d (a_conversation_id a) current_user_id) (\<lambda>_. Inr a))"

fun remove_abandoned :: "'s minio \<Rightarrow> attachment list \<Rightarrow> nat \<Rightarrow> db \<times> 's \<Rightarrow> nat \<times> db \<times> 's" where
  "remove_abandoned M [] removed (d, s) = (removed, d, s)"
| "remove_abandoned M (a # rest) removed (d, s) =
     (case storage_remove M (a_storage_key a) s of
        (Inl e, s') \<Rightarrow> remove_abandoned M rest removed (d, s')
      | (Inr _, s') \<Rightarrow> remove_abandoned M rest (removed + 1) (delete_attachment (a_id a) d, s'))"

definition cleanup_abandoned :: "'s minio \<Rightarrow> uuid set \<Rightarrow> instant \<Rightarrow> nat \<Rightarrow> db \<times> 's \<Rightarrow> nat \<times> db \<times> 's" where
  "cleanup_abandoned M locked cutoff limit = (\<lambda>(d, s).
     remove_abandoned M (list_abandoned d locked cutoff limit) 0 (d, s))"

subsection \<open>Keys\<close>

lemma length_key_suffix: "length (key_suffix filename) \<le> 16"
  by (simp add: key_suffix_def)

lemma final_key_inject:
  "final_key c u a f = final_key c' u' a' f' \<longleftrightarrow> c = c' \<and> u = u' \<and> a = a' \<and> key_suffix f = key_suffix f'"
  by (simp add: final_key_def)

lemma pending_key_inject:
  "pending_key c u a f = pending_key c' u' a' f' \<longleftrightarrow> c = c' \<and> u = u' \<and> a = a' \<and> key_suffix f = key_suffix f'"
  by (simp add: pending_key_def)

lemma key_areas [simp]:
  "py_startswith (pending_key c u a f) ''pending/''" "\<not> py_startswith (final_key c u a f) ''pending/''"
  "pending_key c u a f \<noteq> final_key c' u' a' f'" "final_key c' u' a' f' \<noteq> pending_key c u a f"
  by (simp_all add: pending_key_def final_key_def py_startswith_def)

lemma key_lengths: "length (pending_key c u a f) \<le> 134" "length (final_key c u a f) \<le> 134"
  using length_key_suffix [of f] by (simp_all add: pending_key_def final_key_def)

text \<open>A storage key names one attachment: two pending keys, or two final keys, are equal exactly for the
  same conversation, uploader, attachment and suffix, a pending key is never a final key, and every key
  fits the 512 characters of its column whatever the file name is.\<close>

theorem storage_keys_unambiguous:
  "(pending_key c u a f = pending_key c' u' a' f' \<longleftrightarrow>
      c = c' \<and> u = u' \<and> a = a' \<and> key_suffix f = key_suffix f') \<and>
   (final_key c u a f = final_key c' u' a' f' \<longleftrightarrow>
      c = c' \<and> u = u' \<and> a = a' \<and> key_suffix f = key_suffix f') \<and>
   pending_key c u a f \<noteq> final_key c' u' a' f' \<and>
   length (pending_key c u a f) \<le> 512 \<and> length (final_key c u a f) \<le> 512"
  using key_lengths [of c u a f] by (auto simp: pending_key_inject final_key_inject)

subsection \<open>What completing does\<close>

lemma complete_Inr_cases:
  assumes "complete M sc D env now aid uid (d, s) = (Inr r, d', s')"
  obtains (already) a where "get_attachment_for_update d aid = Inr (Some a)" and "a_uploader_id a = uid"
      and "is_member d (a_conversation_id a) uid" and "a_uploaded_at a \<noteq> None" and "d' = d" and "s' = s"
      and "r = attachment_to_response a"
    | (fresh) a metadata s2 where "get_attachment_for_update d aid = Inr (Some a)" and "a_uploader_id a = uid"
      and "is_member d (a_conversation_id a) uid" and "a_uploaded_at a = None"
      and "ebind (storage_stat M (a_storage_key a) s) (check_upload a) = Inr metadata"
      and "scan sc D M (a_storage_key a) (env 0 s) = Inr ()"
      and "mo_copy M (a_storage_key a) (md_etag metadata) (row_final_key a) (env 1 (env 0 s)) = (Inr (), s2)"
      and "finalize_attachment aid (row_final_key a) now d = Inr d'"
      and "s' = snd (mo_remove M (a_storage_key a) (env 2 s2))"
      and "r = attachment_to_response (finalize_row (row_final_key a, now) a)"
proof -
  obtain a where a: "get_attachment_for_update d aid = Inr (Some a)" "a_uploader_id a = uid"
    using assms by (auto simp: complete_def split: sum.splits option.splits if_splits)
  obtain c where c: "get_authorized d (a_conversation_id a) uid = Inr c"
    using assms a by (auto simp: complete_def split: sum.splits)
  then have member: "is_member d (a_conversation_id a) uid" by (simp add: gate.check_Inr)
  show thesis
  proof (cases "a_uploaded_at a")
    case (Some t)
    then show thesis using already [of a] assms a c member by (auto simp: complete_def)
  next
    case None
    obtain metadata where md: "ebind (storage_stat M (a_storage_key a) s) (check_upload a) = Inr metadata"
      using assms a c None by (auto simp: complete_def split: sum.splits)
    have scan: "scan sc D M (a_storage_key a) (env 0 s) = Inr ()"
      using assms a c None md by (auto simp: complete_def Let_def split: sum.splits)
    obtain s2 where copy: "copy_if_unchanged M (a_storage_key a) (row_final_key a) (md_etag metadata) (env 1 (env 0 s)) = (Inr (), s2)"
      using assms a c None md scan
      by (cases "copy_if_unchanged M (a_storage_key a) (row_final_key a) (md_etag metadata) (env 1 (env 0 s))")
        (auto simp: complete_def Let_def split: sum.splits exc.splits)
    show thesis
      using fresh [OF a member None md scan copy [unfolded copy_if_unchanged_ok]] assms a c None md scan copy
      by (auto simp: complete_def Let_def storage_remove_def split: sum.splits)
  qed
qed

lemma complete_eq:
  assumes "get_attachment_for_update d aid = Inr (Some a)" and "a_uploader_id a = uid"
    and "get_authorized d (a_conversation_id a) uid = Inr c" and "a_uploaded_at a = None"
    and "ebind (storage_stat M (a_storage_key a) s) (check_upload a) = Inr metadata"
    and "scan sc D M (a_storage_key a) (env 0 s) = Inr ()"
    and "mo_copy M (a_storage_key a) (md_etag metadata) (row_final_key a) (env 1 (env 0 s)) = (Inr (), s2)"
    and "finalize_attachment aid (row_final_key a) now d = Inr d'"
  shows "complete M sc D env now aid uid (d, s) =
    (Inr (attachment_to_response (finalize_row (row_final_key a, now) a)), d',
     snd (mo_remove M (a_storage_key a) (env 2 s2)))"
  unfolding complete_def
  using assms assms(7) [folded copy_if_unchanged_ok]
  by (simp add: Let_def storage_remove_def del: One_nat_def)

lemma complete_Inl_cases:
  assumes "complete M sc D env now aid uid (d, s) = (Inl e, d', s')"
  shows "d' = d \<and> (s' = s \<or> s' = env 0 s \<or> (\<exists>a et. get_attachment_for_update d aid = Inr (Some a) \<and>
    a_uploaded_at a = None \<and> s' = snd (mo_copy M (a_storage_key a) et (row_final_key a) (env 1 (env 0 s)))))"
proof (cases "get_attachment_for_update d aid")
  case (Inl x)
  then show ?thesis using assms by (simp add: complete_def)
next
  case (Inr ao)
  show ?thesis
  proof (cases ao)
    case None
    then show ?thesis using assms Inr by (simp add: complete_def)
  next
    case (Some a)
    show ?thesis
    proof (cases "a_uploader_id a = uid \<and> a_uploaded_at a = None \<and>
        (\<exists>c metadata. get_authorized d (a_conversation_id a) uid = Inr c \<and>
          ebind (storage_stat M (a_storage_key a) s) (check_upload a) = Inr metadata) \<and>
        scan sc D M (a_storage_key a) (env 0 s) = Inr ()")
      case False
      then show ?thesis using assms Inr Some
        by (auto simp: complete_def Let_def split: sum.splits if_splits)
    next
      case True
      then obtain c metadata where t: "a_uploader_id a = uid" "a_uploaded_at a = None"
        "get_authorized d (a_conversation_id a) uid = Inr c"
        "ebind (storage_stat M (a_storage_key a) s) (check_upload a) = Inr metadata"
        "scan sc D M (a_storage_key a) (env 0 s) = Inr ()" by blast
      let ?copy = "copy_if_unchanged M (a_storage_key a) (row_final_key a) (md_etag metadata) (env 1 (env 0 s))"
      obtain r2 s2 where copy: "?copy = (r2, s2)" by (cases ?copy)
      then have "s2 = snd (mo_copy M (a_storage_key a) (md_etag metadata) (row_final_key a) (env 1 (env 0 s)))"
        by (metis copy_if_unchanged_store snd_conv)
      moreover have "d' = d \<and> s' = s2"
        using assms Inr Some t copy
        by (auto simp: complete_def Let_def split: sum.splits exc.splits)
      ultimately show ?thesis using Inr Some t(2) by blast
    qed
  qed
qed

subsection \<open>Finalising what was scanned\<close>

definition content_type_of :: "stored_object \<Rightarrow> string" where
  "content_type_of ob = (case so_type ob of None \<Rightarrow> ''application/octet-stream''
     | Some t \<Rightarrow> if t = [] then ''application/octet-stream'' else t)"

lemma check_upload_stat:
  assumes "object_store M contents"
    and "ebind (storage_stat M k s) (check_upload a) = Inr metadata"
  obtains ob where "contents s k = Some ob" and "int (length (so_bytes ob)) = a_file_size a"
    and "plain_type (content_type_of ob) = a_mime_type a" and "md_etag metadata = so_etag ob"
proof -
  obtain md where md: "storage_stat M k s = Inr (Some md)" "metadata = md"
      "md_size md = a_file_size a" "plain_type (md_content_type md) = a_mime_type a"
    using assms(2) by (auto simp: ebind_Inr_iff check_upload_def split: option.splits if_splits)
  then obtain r where r: "mo_stat M k s = Inr r"
    by (cases "mo_stat M k s") (auto simp: storage_stat_def split: exc.splits if_splits)
  obtain ob where "contents s k = Some ob"
      "r = \<lparr>os_size = int (length (so_bytes ob)), os_content_type = so_type ob, os_etag = so_etag ob\<rparr>"
    using object_store.stat_Inr [OF assms(1) r] by blast
  with md r that show thesis
    by (auto simp: storage_stat_def content_type_of_def)
qed

lemma finalize_attachment_InrD:
  "finalize_attachment aid key now d = Inr d' \<Longrightarrow>
    d' = d\<lparr>attachments := update_where (\<lambda>a. a_id a = aid) (finalize_row (key, now)) (attachments d)\<rparr> \<and>
    (\<forall>a \<in> set (attachments d). a_id a \<noteq> aid \<longrightarrow> a_storage_key a \<noteq> key)"
  by (auto simp: finalize_attachment_def split: if_splits)

lemma completed_object:
  assumes store: "object_store M contents" and pending: "a_storage_key a \<noteq> row_final_key a"
    and copy: "mo_copy M (a_storage_key a) e (row_final_key a) s1 = (Inr (), s2)"
    and kept: "contents (f s2) (row_final_key a) = contents s2 (row_final_key a)"
    and s': "s' = snd (mo_remove M (a_storage_key a) (f s2))"
  obtains ob where "contents s1 (a_storage_key a) = Some ob" and "so_etag ob = e"
    and "contents s' (row_final_key a) = Some ob"
proof -
  obtain ob where ob: "contents s1 (a_storage_key a) = Some ob" "so_etag ob = e"
      "contents s2 (row_final_key a) = Some ob"
    using object_store.copy_ok [OF store copy] by auto
  have "contents s' (row_final_key a) = contents (f s2) (row_final_key a)"
    using object_store.remove_other [OF store, of "a_storage_key a" "f s2" _ s' "row_final_key a"] pending s'
    by (metis prod.collapse)
  with ob kept that show thesis by simp
qed

text \<open>C9: What completing an upload finalises is what was scanned: if clients leave the object alone
  while it is being completed, a successful completion by the uploader, a member, commits the row under its final
  key with an upload time, and the object under that key has the declared size and type and was
  approved, byte for byte, by the malware scanner.\<close>

theorem completed_upload_was_scanned:
  assumes "object_store M contents" and "wf_attachments d" and "get_attachment d aid = Some a"
    and "a_uploaded_at a = None" and "a_storage_key a = row_pending_key a"
    and "\<And>i t. i \<le> 2 \<Longrightarrow> contents (env i t) = contents t"
    and "complete M ClamAVScanner D env now aid uid (d, s) = (Inr r, d', s')"
  shows "uid = a_uploader_id a \<and> is_member d (a_conversation_id a) uid \<and>
    d' = d\<lparr>attachments := update_where (\<lambda>a. a_id a = aid) (finalize_row (row_final_key a, now)) (attachments d)\<rparr> \<and>
    (\<exists>ob request parts. contents s' (row_final_key a) = Some ob \<and>
       int (length (so_bytes ob)) = a_file_size a \<and> plain_type (content_type_of ob) = a_mime_type a \<and>
       D request = Inr parts \<and> instream_decode request = Some (so_bytes ob, []) \<and>
       py_endswith (rstrip_zero (recv_reply [] parts)) ''OK'')"
proof -
  have locked: "get_attachment_for_update d aid = Inr (Some a)"
    using assms(2,3) by (simp add: get_attachment_for_update_total)
  from assms(7) show ?thesis
  proof (cases rule: complete_Inr_cases)
    case (already b)
    with locked assms(4) show ?thesis by simp
  next
    case (fresh b metadata s2)
    with locked have [simp]: "b = a" by simp
    obtain ob0 where ob0: "contents s (a_storage_key a) = Some ob0" "int (length (so_bytes ob0)) = a_file_size a"
        "plain_type (content_type_of ob0) = a_mime_type a"
      using check_upload_stat [OF assms(1) fresh(5)] by auto
    obtain ob where ob: "contents (env 1 (env 0 s)) (a_storage_key a) = Some ob" "contents s' (row_final_key a) = Some ob"
      using completed_object [of M contents a "md_etag metadata" "env 1 (env 0 s)" s2 "env 2" s'] fresh(7,9)
        assms(1,5,6) by (metis \<open>b = a\<close> key_areas(3) order_refl)
    have same: "ob = ob0" using ob(1) ob0(1) assms(6) by simp
    obtain ob1 request parts where scanned: "contents (env 0 s) (a_storage_key a) = Some ob1"
        "D request = Inr parts" "instream_decode request = Some (so_bytes ob1, [])"
        "py_endswith (rstrip_zero (recv_reply [] parts)) ''OK''"
      using scan_ClamAV_clean [OF assms(1) fresh(6)] by auto
    have "ob1 = ob0" using scanned(1) ob0(1) assms(6) by simp
    with scanned ob same ob0 fresh(2,3) finalize_attachment_InrD [OF fresh(8)] show ?thesis
      by (metis \<open>b = a\<close>)
  qed
qed

definition upload_row :: attachment where
  "upload_row = new_attachment 81 100 9 1 ''cat.PNG'' ''image/png'' 3"

definition upload_db :: db where
  "upload_db = chat_db\<lparr>attachments := attachments chat_db @ [upload_row]\<rparr>"

definition upload_store :: object_map where
  "upload_store = [(a_storage_key upload_row, ''png'', Some ''image/png'')]"

text \<open>A daemon that refuses every stream containing the word BAD.\<close>

definition word_clamd :: clamd where
  "word_clamd request = Inr
     [case instream_decode request of
        None \<Rightarrow> ''INSTREAM: malformed''
      | Some (bytes, _) \<Rightarrow> if py_contains ''BAD'' bytes then ''stream: Word FOUND'' else ''stream: OK'', [CHR 0x00]]"

lemma upload_facts:
  "wf_db upload_db" "get_attachment upload_db 81 = Some upload_row"
  "a_uploaded_at upload_row = None" "a_storage_key upload_row = row_pending_key upload_row"
proof -
  have "insert_attachment upload_row chat_db = Inr upload_db"
    unfolding insert_attachment_Inr_iff upload_db_def
    using chat_facts(2,3) by (simp add: upload_row_def new_attachment_def chat_db_def pending_key_def)
  from insert_attachment_wf [OF this chat_facts(1)] show "wf_db upload_db" .
  show "get_attachment upload_db 81 = Some upload_row"
    by (simp add: upload_db_def chat_db_def get_attachment_def upload_row_def new_attachment_def)
qed (simp_all add: upload_row_def new_attachment_def)

lemma upload_row_fields:
  "a_uploader_id upload_row = 1" "a_conversation_id upload_row = 9" "a_file_size upload_row = 3"
  "a_mime_type upload_row = ''image/png''"
  by (simp_all add: upload_row_def new_attachment_def)

lemma upload_steps:
  "get_attachment_for_update upload_db 81 = Inr (Some upload_row)"
  "\<exists>c. get_authorized upload_db 9 1 = Inr c"
  "\<exists>d'. finalize_attachment 81 (row_final_key upload_row) 200 upload_db = Inr d' \<and>
    map_option a_uploaded_at (get_attachment d' 81) = Some (Some 200)"
proof -
  show "get_attachment_for_update upload_db 81 = Inr (Some upload_row)"
    using upload_facts by (simp add: get_attachment_for_update_total wf_dbD(7))
  have "case get_authorized upload_db 9 1 of Inl _ \<Rightarrow> False | Inr _ \<Rightarrow> True"
    by (simp add: upload_db_def chat_db_def get_authorized_def get_conversation_def is_member_iff
        with_direct_def new_direct_def new_member_def duo_db_def empty_db_def)
  then show "\<exists>c. get_authorized upload_db 9 1 = Inr c" by (auto split: sum.splits)
  have "\<forall>a \<in> set (attachments upload_db). a_id a \<noteq> 81 \<longrightarrow> a_storage_key a \<noteq> row_final_key upload_row"
    by (simp add: upload_db_def chat_db_def upload_row_def new_attachment_def final_key_def)
  then show "\<exists>d'. finalize_attachment 81 (row_final_key upload_row) 200 upload_db = Inr d' \<and>
    map_option a_uploaded_at (get_attachment d' 81) = Some (Some 200)"
    using upload_facts(2) find_SomeD [OF upload_facts(2) [unfolded get_attachment_def]]
    by (auto simp: finalize_attachment_def get_attachment_def finalized_row.find_update finalize_row_def)
qed

lemma upload_completes:
  assumes "map_of s (row_pending_key upload_row) = Some (bytes, Some ''image/png'')" and "length bytes = 3"
    and "scan ClamAVScanner word_clamd reference_minio (row_pending_key upload_row) (env 0 s) = Inr ()"
    and "map_of (env 1 (env 0 s)) (row_pending_key upload_row) = Some (bytes, t)"
    and "\<And>s. env 2 s = s"
  shows "\<exists>r d' s'. complete reference_minio ClamAVScanner word_clamd env 200 81 1 (upload_db, s) = (Inr r, d', s') \<and>
    map_option a_uploaded_at (get_attachment d' 81) = Some (Some 200) \<and>
    map_of s' (row_final_key upload_row) = Some (bytes, t)"
proof -
  obtain c where c: "get_authorized upload_db 9 1 = Inr c" using upload_steps(2) by blast
  obtain d' where d': "finalize_attachment 81 (row_final_key upload_row) 200 upload_db = Inr d'"
    "map_option a_uploaded_at (get_attachment d' 81) = Some (Some 200)" using upload_steps(3) by blast
  have "plain_type ''image/png'' = ''image/png''" by code_simp
  then have md: "ebind (storage_stat reference_minio (row_pending_key upload_row) s) (check_upload upload_row) =
      Inr \<lparr>md_size = 3, md_content_type = ''image/png'', md_etag = bytes\<rparr>"
    using assms(1,2) by (simp add: storage_stat_def check_upload_def reference_minio_def upload_row_fields)
  have copy: "mo_copy reference_minio (row_pending_key upload_row) bytes (row_final_key upload_row) (env 1 (env 0 s)) =
      (Inr (), (row_final_key upload_row, bytes, t) # env 1 (env 0 s))"
    using assms(4) by (simp add: reference_minio_def)
  let ?md = "\<lparr>md_size = 3, md_content_type = ''image/png'', md_etag = bytes\<rparr>"
  note pending = upload_facts(4)
  have "get_authorized upload_db (a_conversation_id upload_row) 1 = Inr c"
    by (simp only: upload_row_fields c)
  note run = complete_eq [where env = env, OF upload_steps(1) upload_row_fields(1) this upload_facts(3) md [folded pending]
      assms(3) [folded pending] _ d'(1)]
  have "mo_copy reference_minio (a_storage_key upload_row) (md_etag ?md) (row_final_key upload_row) (env 1 (env 0 s)) =
      (Inr (), (row_final_key upload_row, bytes, t) # env 1 (env 0 s))"
    by (simp only: pending stored_object_metadata.simps copy)
  note this = run [OF this]
  with d'(2) show ?thesis
    by (simp add: assms(5) pending reference_minio_def map_of_filter_key)
qed

lemma clean_object:
  assumes "map_of s k = Some (''png'', content_type)"
  shows "scan ClamAVScanner word_clamd reference_minio k s = Inr ()"
proof -
  have "scan_response word_clamd (ref_chunks ''png'') = Inr ''stream: OK''" by code_simp
  moreover have "storage_get reference_minio k s = Inr (ref_chunks ''png'')"
    using assms by (simp add: storage_get_def reference_minio_def)
  ultimately show ?thesis by (simp add: py_endswith_def)
qed

lemma upload_store_completes:
  "\<exists>r d' s'. complete reference_minio ClamAVScanner word_clamd (\<lambda>_. id) 200 81 1 (upload_db, upload_store) = (Inr r, d', s')"
proof -
  have "map_of upload_store (row_pending_key upload_row) = Some (''png'', Some ''image/png'')"
    by (simp add: upload_store_def upload_facts(4))
  from upload_completes [where env = "\<lambda>_. id", OF this] clean_object [OF this] this show ?thesis
    by fastforce
qed

theorem completed_upload_was_scanned_witness:
  "\<exists>r d' s' ob request. complete reference_minio ClamAVScanner word_clamd (\<lambda>_. id) 200 81 1 (upload_db, upload_store) = (Inr r, d', s') \<and>
    ref_contents s' (row_final_key upload_row) = Some ob \<and> int (length (so_bytes ob)) = 3 \<and>
    instream_decode request = Some (so_bytes ob, [])"
proof -
  obtain r d' s' where run: "complete reference_minio ClamAVScanner word_clamd (\<lambda>_. id) 200 81 1 (upload_db, upload_store) = (Inr r, d', s')"
    using upload_store_completes by blast
  have size: "a_file_size upload_row = 3" by (simp add: upload_row_def new_attachment_def)
  from completed_upload_was_scanned [OF reference_store.object_store_axioms wf_dbD(7) [OF upload_facts(1)]
      upload_facts(2,3,4) _ run] size run show ?thesis by auto
qed

text \<open>A client that uploads a refused file, shows the scanner a clean one and uploads the first again.\<close>

definition swap_upload :: "nat \<Rightarrow> object_map \<Rightarrow> object_map" where
  "swap_upload i s =
     (if i = 0 then (a_storage_key upload_row, ''png'', Some ''image/png'') # s
      else if i = 1 then (a_storage_key upload_row, ''BAD'', Some ''image/png'') # s else s)"

lemma refused_object:
  assumes "map_of s k = Some (''BAD'', content_type)"
  shows "scan ClamAVScanner word_clamd reference_minio k s = Inl attachment_infected"
proof -
  have "scan_response word_clamd (ref_chunks ''BAD'') = Inr ''stream: Word FOUND''" by code_simp
  moreover have "storage_get reference_minio k s = Inr (ref_chunks ''BAD'')"
    using assms by (simp add: storage_get_def reference_minio_def)
  ultimately show ?thesis by (simp add: py_endswith_def)
qed

text \<open>C36: Completion does not always finalise what was scanned: the etag it compares at the copy was taken
  before the scan, so a client that swaps a clean file in for the scan and its refused file back
  before the copy completes its upload, and the final object is one the scanner refuses.\<close>

theorem swapped_upload_is_finalised:
  "\<exists>r d' s'. complete reference_minio ClamAVScanner word_clamd swap_upload 200 81 1
      (upload_db, swap_upload 1 []) = (Inr r, d', s') \<and>
    scan ClamAVScanner word_clamd reference_minio (row_final_key upload_row) s' = Inl attachment_infected \<and>
    map_option a_uploaded_at (get_attachment d' 81) = Some (Some 200)"
proof -
  let ?s = "swap_upload 1 []"
  have "map_of ?s (row_pending_key upload_row) = Some (''BAD'', Some ''image/png'')"
    "map_of (swap_upload 0 ?s) (row_pending_key upload_row) = Some (''png'', Some ''image/png'')"
    "map_of (swap_upload 1 (swap_upload 0 ?s)) (row_pending_key upload_row) = Some (''BAD'', Some ''image/png'')"
    "\<And>s. swap_upload 2 s = s"
    by (simp_all add: swap_upload_def upload_facts(4))
  from upload_completes [where env = swap_upload, OF this(1) _ clean_object [OF this(2)] this(3,4)]
  obtain r d' s' where run: "complete reference_minio ClamAVScanner word_clamd swap_upload 200 81 1 (upload_db, ?s) = (Inr r, d', s')"
    "map_option a_uploaded_at (get_attachment d' 81) = Some (Some 200)"
    "map_of s' (row_final_key upload_row) = Some (''BAD'', Some ''image/png'')" by auto
  from run(1,2) refused_object [OF run(3)] show ?thesis by blast
qed

subsection \<open>Cleaning up\<close>

lemma list_abandoned_set:
  "a \<in> set (list_abandoned d locked cutoff limit) \<Longrightarrow>
    a \<in> set (attachments d) \<and> a_message_id a = None \<and> a_created_at a < cutoff \<and> a_id a \<notin> locked"
  using sort_key_take_filter_subset [of limit a_created_at
      "filter (\<lambda>a. a_message_id a = None \<and> a_created_at a < cutoff \<and> a_id a \<notin> locked) (attachments d)"]
  by (auto simp: list_abandoned_def)

lemma length_list_abandoned: "length (list_abandoned d locked cutoff limit) \<le> limit"
  by (simp add: list_abandoned_def)

lemma distinct_list_abandoned:
  assumes "wf_attachments d"
  shows "distinct (map a_id (list_abandoned d locked cutoff limit))"
proof -
  have "distinct (map a_id (filter P (attachments d)))" for P
    using assms by (simp add: wf_attachments_def distinct_map_filter)
  then have "distinct (map a_id (sort_key a_created_at (filter P (attachments d))))" for P
    by (simp add: distinct_map)
  then show ?thesis by (simp add: list_abandoned_def distinct_take flip: take_map)
qed

lemma remove_abandoned_result:
  assumes store: "object_store M contents" and "remove_abandoned M as n (d, s) = (m, d', s')"
    and "distinct (map a_storage_key as)" and "distinct (map a_id as)"
  shows "\<exists>gone. set gone \<subseteq> set as \<and> distinct (map a_id gone) \<and> m = n + length gone \<and> length gone \<le> length as \<and>
    d' = d\<lparr>attachments := filter (\<lambda>a. a_id a \<notin> a_id ` set gone) (attachments d)\<rparr> \<and>
    (\<forall>a \<in> set gone. contents s' (a_storage_key a) = None) \<and>
    (\<forall>k. k \<notin> a_storage_key ` set as \<longrightarrow> contents s' k = contents s k) \<and>
    (failed_removal_keeps M contents \<longrightarrow> (\<forall>k. k \<notin> a_storage_key ` set gone \<longrightarrow> contents s' k = contents s k))"
  using assms(2-4)
proof (induction as arbitrary: n d s)
  case Nil
  then show ?case by (intro exI [of _ "[]"]) simp
next
  case (Cons a as)
  obtain r s1 where r: "storage_remove M (a_storage_key a) s = (r, s1)" by (cases "storage_remove M (a_storage_key a) s")
  then have mo: "mo_remove M (a_storage_key a) s = (r, s1)" by (simp add: storage_remove_def)
  have others: "k \<noteq> a_storage_key a \<Longrightarrow> contents s1 k = contents s k" for k
    using object_store.remove_other [OF store mo] by blast
  have apart: "a_storage_key a \<notin> a_storage_key ` set as" "distinct (map a_storage_key as)" "distinct (map a_id as)"
    using Cons.prems(2,3) by auto
  show ?case
  proof (cases r)
    case (Inl e)
    with Cons.prems r have run: "remove_abandoned M as n (d, s1) = (m, d', s')" by simp
    from Cons.IH [OF run apart(2,3)] obtain gone where g: "set gone \<subseteq> set as" "m = n + length gone"
      "length gone \<le> length as" "d' = d\<lparr>attachments := filter (\<lambda>a. a_id a \<notin> a_id ` set gone) (attachments d)\<rparr>"
      "\<forall>a \<in> set gone. contents s' (a_storage_key a) = None"
      "\<forall>k. k \<notin> a_storage_key ` set as \<longrightarrow> contents s' k = contents s1 k"
      "failed_removal_keeps M contents \<longrightarrow> (\<forall>k. k \<notin> a_storage_key ` set gone \<longrightarrow> contents s' k = contents s1 k)"
      "distinct (map a_id gone)"
      by blast
    have "failed_removal_keeps M contents \<Longrightarrow> contents s1 = contents s"
      using mo Inl by (simp add: failed_removal_keeps_def)
    with g others show ?thesis by (intro exI [of _ gone]) auto
  next
    case (Inr u)
    with Cons.prems r have run: "remove_abandoned M as (n + 1) (delete_attachment (a_id a) d, s1) = (m, d', s')" by simp
    from Cons.IH [OF run apart(2,3)] obtain gone where g: "set gone \<subseteq> set as" "m = n + 1 + length gone"
      "length gone \<le> length as"
      "d' = delete_attachment (a_id a) d\<lparr>attachments := filter (\<lambda>a. a_id a \<notin> a_id ` set gone) (attachments (delete_attachment (a_id a) d))\<rparr>"
      "\<forall>a \<in> set gone. contents s' (a_storage_key a) = None"
      "\<forall>k. k \<notin> a_storage_key ` set as \<longrightarrow> contents s' k = contents s1 k"
      "failed_removal_keeps M contents \<longrightarrow> (\<forall>k. k \<notin> a_storage_key ` set gone \<longrightarrow> contents s' k = contents s1 k)"
      "distinct (map a_id gone)"
      by blast
    have "contents s1 (a_storage_key a) = None"
      using object_store.remove_ok [OF store] mo Inr by simp
    then have removed: "contents s' (a_storage_key a) = None" using g(6) apart(1) by simp
    have "d' = d\<lparr>attachments := filter (\<lambda>b. a_id b \<notin> a_id ` set (a # gone)) (attachments d)\<rparr>"
      using g(4) by (simp add: delete_attachment_def conj_commute)
    moreover have "a_id a \<notin> a_id ` set gone" using Cons.prems(3) g(1) by auto
    ultimately show ?thesis using g(1-3,5-8) removed others by (intro exI [of _ "a # gone"]) auto
  qed
qed

lemma filter_attachments_wf:
  "wf_db d \<Longrightarrow> wf_db (d\<lparr>attachments := filter P (attachments d)\<rparr>)"
  by (auto simp: wf_defs distinct_map_filter)

lemma distinct_keys_list_abandoned:
  assumes "wf_attachments d"
  shows "distinct (map a_storage_key (list_abandoned d locked cutoff limit))"
proof -
  have "distinct (map a_storage_key (filter P (attachments d)))" for P
    using assms by (simp add: wf_attachments_def distinct_map_filter)
  then have "distinct (map a_storage_key (sort_key a_created_at (filter P (attachments d))))" for P
    by (simp add: distinct_map)
  then show ?thesis by (simp add: list_abandoned_def flip: take_map)
qed

lemma cleanup_result:
  assumes "object_store M contents" and "wf_db d"
    and "cleanup_abandoned M locked cutoff limit (d, s) = (m, d', s')"
  shows "\<exists>gone. set gone \<subseteq> set (list_abandoned d locked cutoff limit) \<and> distinct (map a_id gone) \<and> m = length gone \<and> m \<le> limit \<and>
    d' = d\<lparr>attachments := filter (\<lambda>a. a_id a \<notin> a_id ` set gone) (attachments d)\<rparr> \<and> wf_db d' \<and>
    (\<forall>a \<in> set gone. contents s' (a_storage_key a) = None) \<and>
    (\<forall>k. k \<notin> a_storage_key ` set (list_abandoned d locked cutoff limit) \<longrightarrow> contents s' k = contents s k) \<and>
    (failed_removal_keeps M contents \<longrightarrow> (\<forall>k. k \<notin> a_storage_key ` set gone \<longrightarrow> contents s' k = contents s k))"
proof -
  from assms(3) have "remove_abandoned M (list_abandoned d locked cutoff limit) 0 (d, s) = (m, d', s')"
    by (simp add: cleanup_abandoned_def)
  from remove_abandoned_result [OF assms(1) this distinct_keys_list_abandoned [OF wf_dbD(7) [OF assms(2)]]
      distinct_list_abandoned [OF wf_dbD(7) [OF assms(2)]]]
  obtain gone where g: "set gone \<subseteq> set (list_abandoned d locked cutoff limit)" "m = 0 + length gone"
    "length gone \<le> length (list_abandoned d locked cutoff limit)"
    "d' = d\<lparr>attachments := filter (\<lambda>a. a_id a \<notin> a_id ` set gone) (attachments d)\<rparr>"
    "\<forall>a \<in> set gone. contents s' (a_storage_key a) = None"
    "\<forall>k. k \<notin> a_storage_key ` set (list_abandoned d locked cutoff limit) \<longrightarrow> contents s' k = contents s k"
    "failed_removal_keeps M contents \<longrightarrow> (\<forall>k. k \<notin> a_storage_key ` set gone \<longrightarrow> contents s' k = contents s k)"
    "distinct (map a_id gone)"
    by blast
  moreover have "m \<le> limit" using g(2,3) length_list_abandoned [of d locked cutoff limit] by linarith
  moreover have "wf_db d'" using g(4) filter_attachments_wf [OF assms(2)] by simp
  ultimately show ?thesis by (intro exI [of _ gone]) simp
qed

text \<open>Cleaning up removes abandoned uploads only: it deletes at most the limit's number of rows and
  reports their number, every deleted row was bound to no message, older than the cutoff and locked by
  nobody, its object is gone, and every other row and the object of every row not selected stay as
  they were.\<close>

theorem cleanup_removes_only_abandoned:
  assumes "object_store M contents" and "wf_db d"
    and "cleanup_abandoned M locked cutoff limit (d, s) = (m, d', s')"
  shows "length (attachments d') + m = length (attachments d) \<and> m \<le> limit \<and> wf_db d' \<and>
    set (attachments d') \<subseteq> set (attachments d) \<and>
    (\<forall>a \<in> set (attachments d). if a \<in> set (attachments d')
       then contents s' (a_storage_key a) = contents s (a_storage_key a) \<or> a_message_id a = None \<and> a_created_at a < cutoff
       else a_message_id a = None \<and> a_created_at a < cutoff \<and> a_id a \<notin> locked \<and> contents s' (a_storage_key a) = None)"
proof -
  obtain gone where g: "set gone \<subseteq> set (list_abandoned d locked cutoff limit)" "m = length gone" "m \<le> limit"
    "d' = d\<lparr>attachments := filter (\<lambda>a. a_id a \<notin> a_id ` set gone) (attachments d)\<rparr>" "wf_db d'"
    "\<forall>a \<in> set gone. contents s' (a_storage_key a) = None"
    "\<forall>k. k \<notin> a_storage_key ` set (list_abandoned d locked cutoff limit) \<longrightarrow> contents s' k = contents s k"
    "distinct (map a_id gone)"
    using cleanup_result [OF assms] by blast
  have key: "a = b" if "a \<in> set (attachments d)" "b \<in> set (attachments d)"
    "a_id a = a_id b \<or> a_storage_key a = a_storage_key b" for a b
    using that wf_dbD(7) [OF assms(2)] by (auto simp: wf_attachments_def distinct_map inj_on_def)
  have old: "a \<in> set (attachments d) \<and> a_message_id a = None \<and> a_created_at a < cutoff \<and> a_id a \<notin> locked"
    if "a \<in> set gone" for a
    using that g(1) list_abandoned_set by blast
  have survive: "a \<in> set (attachments d') \<longleftrightarrow> a \<notin> set gone" if "a \<in> set (attachments d)" for a
    using that key [of a] old g(4) by auto
  have "length (filter (\<lambda>a. a_id a \<in> a_id ` set gone) (attachments d)) = length gone"
  proof -
    have "set (filter (\<lambda>a. a_id a \<in> a_id ` set gone) (attachments d)) = set gone"
      using key old by auto
    moreover have "distinct (filter (\<lambda>a. a_id a \<in> a_id ` set gone) (attachments d))" "distinct gone"
      using wf_dbD(7) [OF assms(2)] g(8) by (auto simp: wf_attachments_def distinct_map)
    ultimately show ?thesis by (metis distinct_card)
  qed
  then have count: "length (attachments d') + m = length (attachments d)"
    using g(2,4) sum_length_filter_compl [of "\<lambda>a. a_id a \<in> a_id ` set gone" "attachments d"] by simp
  have kept: "contents s' (a_storage_key a) = contents s (a_storage_key a) \<or> a_message_id a = None \<and> a_created_at a < cutoff"
    if "a \<in> set (attachments d)" for a
    using that key [of a] g(7) list_abandoned_set [of _ d locked cutoff limit] by blast
  show ?thesis
    using count g(3,5) kept survive old g(6) g(4) by auto
qed

subsection \<open>Downloading\<close>

text \<open>An attachment is downloaded only from a message and only by a member: authorising succeeds,
  with the stored row, exactly when the attachment exists, belongs to a message, was uploaded, and
  the requester is a member of its conversation.\<close>

theorem download_authorized_iff:
  assumes "wf_db d"
  shows "authorize_download d aid uid = Inr a \<longleftrightarrow>
    a \<in> set (attachments d) \<and> a_id a = aid \<and> a_message_id a \<noteq> None \<and> a_uploaded_at a \<noteq> None \<and>
    is_member d (a_conversation_id a) uid"
proof -
  have exists: "b \<in> set (attachments d) \<Longrightarrow> \<exists>c. get_conversation d (a_conversation_id b) = Some c" for b
    using assms get_conversation_None_iff [of d "a_conversation_id b"]
    by (auto simp: wf_db_def wf_attachments_def)
  show ?thesis
  proof (cases "get_attachment d aid")
    case None
    then show ?thesis
      using get_attachment_unique [OF wf_dbD(7) [OF assms], of a] by (auto simp: authorize_download_def)
  next
    case (Some b)
    then have b: "b \<in> set (attachments d)" "a_id b = aid" using get_attachment_SomeD by blast+
    have "a \<in> set (attachments d) \<and> a_id a = aid \<longleftrightarrow> a = b"
      using b Some get_attachment_unique [OF wf_dbD(7) [OF assms]] by (metis option.inject)
    moreover obtain c where "get_conversation d (a_conversation_id b) = Some c" using exists [OF b(1)] by blast
    then have "ebind (get_authorized d (a_conversation_id b) uid) (\<lambda>_. Inr b) = Inr a \<longleftrightarrow>
        is_member d (a_conversation_id b) uid \<and> a = b"
      by (auto simp: ebind_Inr_iff gate.check_Inr)
    ultimately show ?thesis
      using Some b by (cases "a = b") (auto simp: authorize_download_def simp del: ebind.simps)
  qed
qed

definition stale_row :: attachment where
  "stale_row = upload_row\<lparr>a_id := 82, a_created_at := 50, a_storage_key := row_pending_key (upload_row\<lparr>a_id := 82\<rparr>)\<rparr>"

lemma cleanup_example:
  "wf_db (chat_db\<lparr>attachments := [stale_row]\<rparr>)"
  "cleanup_abandoned reference_minio {} 60 100 (chat_db\<lparr>attachments := [stale_row]\<rparr>, [(a_storage_key stale_row, ''png'', None)]) =
    (1, chat_db\<lparr>attachments := []\<rparr>, [])"
proof -
  have "wf_attachments (chat_db\<lparr>attachments := [stale_row]\<rparr>)"
    using chat_facts(2,3) by (simp add: wf_attachments_def stale_row_def upload_row_def new_attachment_def)
  then show "wf_db (chat_db\<lparr>attachments := [stale_row]\<rparr>)"
    using wf_dbD [OF chat_facts(1)]
    by (simp add: wf_db_def wf_users_def wf_refresh_tokens_def wf_conversations_def wf_members_def
        wf_messages_def wf_receipts_def)
  show "cleanup_abandoned reference_minio {} 60 100 (chat_db\<lparr>attachments := [stale_row]\<rparr>, [(a_storage_key stale_row, ''png'', None)]) =
    (1, chat_db\<lparr>attachments := []\<rparr>, [])"
    by (simp add: cleanup_abandoned_def list_abandoned_def stale_row_def upload_row_def new_attachment_def
        storage_remove_def reference_minio_def delete_attachment_def)
qed

theorem cleanup_removes_only_abandoned_witness:
  "length (attachments (chat_db\<lparr>attachments := []\<rparr>)) + 1 = length (attachments (chat_db\<lparr>attachments := [stale_row]\<rparr>)) \<and>
    ref_contents [] (a_storage_key stale_row) = None"
  using cleanup_removes_only_abandoned [OF reference_store.object_store_axioms cleanup_example] by simp

theorem download_authorized_iff_witness:
  "authorize_download upload_db 81 1 \<noteq> Inr upload_row \<and> wf_db upload_db"
  using download_authorized_iff [OF upload_facts(1), of 81 1 upload_row] upload_facts(1,3) by simp

end
