(* ===== verification/Lifecycle.thy ===== *)
theory Lifecycle
  imports Attachments
begin

section \<open>The life of an attachment\<close>

text \<open>
  The operations that touch attachments as one transition system over the database and the object
  store: reserving, completing, sending a message with attachments, cleaning up, and what the
  clients do to the store by themselves, which is limited to the pending keys their presigned URLs
  name.  The invariant says what a stored row promises about the store.
\<close>

definition client_only :: "('s \<Rightarrow> string \<Rightarrow> stored_object option) \<Rightarrow> ('s \<Rightarrow> 's) \<Rightarrow> bool" where
  "client_only contents f \<longleftrightarrow>
     (\<forall>t k. \<not> py_startswith k ''pending/'' \<longrightarrow> contents (f t) k = contents t k)"

inductive attachment_step ::
  "settings \<Rightarrow> 's minio \<Rightarrow> ('s \<Rightarrow> string \<Rightarrow> stored_object option) \<Rightarrow> scanner \<Rightarrow> clamd \<Rightarrow>
     db \<times> 's \<Rightarrow> db \<times> 's \<Rightarrow> bool"
  for S M contents sc D where
  reserving: "reserve S M aid created now cid uid filename mime_type file_size (d, s) = Inr (r, d') \<Longrightarrow>
    attachment_step S M contents sc D (d, s) (d', s)"
| completing: "\<forall>i. client_only contents (env i) \<Longrightarrow> complete M sc D env now aid uid (d, s) = (r, d', s') \<Longrightarrow>
    attachment_step S M contents sc D (d, s) (d', s')"
| sending: "create_message S id fr now cid uid content ids d = Inr (r, d') \<Longrightarrow>
    attachment_step S M contents sc D (d, s) (d', s)"
| cleaning: "cleanup_abandoned M locked cutoff limit (d, s) = (n, d', s') \<Longrightarrow>
    attachment_step S M contents sc D (d, s) (d', s')"
| uploading: "client_only contents f \<Longrightarrow> attachment_step S M contents sc D (d, s) (d, f s)"

definition attachment_ok :: "('s \<Rightarrow> string \<Rightarrow> stored_object option) \<Rightarrow> 's \<Rightarrow> attachment \<Rightarrow> bool" where
  "attachment_ok contents s a \<longleftrightarrow>
     (if a_uploaded_at a = None then a_message_id a = None \<and> a_storage_key a = row_pending_key a
      else a_storage_key a = row_final_key a \<and>
        (\<exists>ob. contents s (row_final_key a) = Some ob \<and> int (length (so_bytes ob)) = a_file_size a))"

definition attachments_ok :: "('s \<Rightarrow> string \<Rightarrow> stored_object option) \<Rightarrow> db \<times> 's \<Rightarrow> bool" where
  "attachments_ok contents = (\<lambda>(d, s). wf_db d \<and> (\<forall>a \<in> set (attachments d). attachment_ok contents s a))"

lemma attachment_ok_store:
  assumes "attachment_ok contents s a"
    and "a_uploaded_at a \<noteq> None \<Longrightarrow> contents s' (row_final_key a) = contents s (row_final_key a)"
  shows "attachment_ok contents s' a"
  using assms by (auto simp: attachment_ok_def split: if_splits)

lemma client_only_final: "client_only contents f \<Longrightarrow> contents (f t) (final_key c u a n) = contents t (final_key c u a n)"
  by (simp add: client_only_def)

lemma reserving_ok:
  assumes "reserve S M aid created now cid uid filename mime_type file_size (d, s) = Inr (r, d')"
    and "attachments_ok contents (d, s)"
  shows "attachments_ok contents (d', s)"
proof -
  let ?a = "new_attachment aid created cid uid filename mime_type file_size"
  have ins: "insert_attachment ?a d = Inr d'"
    using assms(1) by (auto simp: reserve_def Let_def ebind_Inr_iff)
  then have "wf_db d'" using assms(2) by (auto simp: attachments_ok_def intro: wf_intros)
  moreover have "attachments d' = attachments d @ [?a]"
    using ins by (auto simp: insert_attachment_Inr_iff)
  moreover have "attachment_ok contents s ?a"
    by (simp add: attachment_ok_def new_attachment_def)
  ultimately show ?thesis using assms(2) by (auto simp: attachments_ok_def)
qed

lemma sending_ok:
  assumes "create_message S env fr now cid uid content ids d = Inr (r, d')"
    and "wf_db (env d)" and "attachments (env d) = attachments d"
    and "attachments_ok contents (d, s)"
  shows "attachments_ok contents (d', s)"
proof -
  have wf: "wf_db d" using assms(4) by (simp add: attachments_ok_def)
  note sent = create_message_InrD [OF wf_dbD(7) [OF wf] assms(1)]
  have "wf_db d'" using commit_message_wf [OF sent(3) assms(2)] .
  moreover have "attachments d' = update_where (\<lambda>a. a_id a \<in> set ids) (bind_to_message (mf_message_id fr)) (attachments d)"
    using commit_message_InrD(1) [OF sent(3)] assms(3) by simp
  moreover have "attachment_ok contents s (bind_to_message (mf_message_id fr) a)"
    if "a \<in> set (attachments d)" "a_id a \<in> set ids" for a
  proof -
    have "a_uploaded_at a \<noteq> None"
      using sent(2) that get_attachment_unique [OF wf_dbD(7) [OF wf] that(1)]
      by (auto simp: message_acceptable_def sendable_def)
    moreover have "attachment_ok contents s a" using assms(4) that(1) by (simp add: attachments_ok_def)
    ultimately show ?thesis by (simp add: attachment_ok_def bind_to_message_def)
  qed
  ultimately show ?thesis using assms(4)
    by (auto simp: attachments_ok_def elim!: in_update_whereE)
qed

lemma cleaning_ok:
  assumes "object_store M contents" and "failed_removal_keeps M contents"
    and "cleanup_abandoned M locked cutoff limit (d, s) = (n, d', s')" and "attachments_ok contents (d, s)"
  shows "attachments_ok contents (d', s')"
proof -
  have wf: "wf_db d" using assms(4) by (simp add: attachments_ok_def)
  obtain gone where g: "set gone \<subseteq> set (list_abandoned d locked cutoff limit)" "wf_db d'"
    "d' = d\<lparr>attachments := filter (\<lambda>a. a_id a \<notin> a_id ` set gone) (attachments d)\<rparr>"
    "\<forall>k. k \<notin> a_storage_key ` set gone \<longrightarrow> contents s' k = contents s k"
    using cleanup_result [OF assms(1) wf assms(3)] assms(2) by blast
  have "attachment_ok contents s' a" if a: "a \<in> set (attachments d')" for a
  proof (rule attachment_ok_store)
    have a': "a \<in> set (attachments d)" "a_id a \<notin> a_id ` set gone" using a g(3) by auto
    then show ok: "attachment_ok contents s a" using assms(4) by (simp add: attachments_ok_def)
    assume "a_uploaded_at a \<noteq> None"
    then have "a_storage_key a = row_final_key a" using ok by (simp add: attachment_ok_def)
    moreover have "a_storage_key a \<noteq> a_storage_key b" if "b \<in> set gone" for b
    proof -
      have "b \<in> set (attachments d)" using that g(1) list_abandoned_set by blast
      moreover have "a \<noteq> b" using a'(2) that by auto
      ultimately show ?thesis using wf_dbD(7) [OF wf] a'(1) by (auto simp: wf_attachments_def distinct_map inj_on_def)
    qed
    ultimately have "row_final_key a \<notin> a_storage_key ` set gone" by (metis imageE)
    with g(4) show "contents s' (row_final_key a) = contents s (row_final_key a)" by blast
  qed
  with g(2) show ?thesis by (simp add: attachments_ok_def)
qed

lemma finalize_attachment_wf:
  assumes "finalize_attachment aid key now d = Inr d'" and "wf_db d"
  shows "wf_db d'"
proof -
  let ?as = "update_where (\<lambda>a. a_id a = aid) (finalize_row (key, now)) (attachments d)"
  have d': "d' = d\<lparr>attachments := ?as\<rparr>" and free: "\<forall>a \<in> set (attachments d). a_id a \<noteq> aid \<longrightarrow> a_storage_key a \<noteq> key"
    using finalize_attachment_InrD [OF assms(1)] by auto
  have wf: "distinct (map a_id (attachments d))" "distinct (map a_storage_key (attachments d))"
    using assms(2) by (simp_all add: wf_db_def wf_attachments_def)
  have "distinct (map a_storage_key ?as)"
    using wf free
  proof (induction "attachments d" arbitrary: d)
    case (Cons b bs)
    from Cons.hyps(1) [of "d\<lparr>attachments := bs\<rparr>"] Cons.hyps(2) [symmetric] Cons.prems
    have tail: "distinct (map a_storage_key (update_where (\<lambda>a. a_id a = aid) (finalize_row (key, now)) bs))" by simp
    have "a_id b = aid \<Longrightarrow> update_where (\<lambda>a. a_id a = aid) (finalize_row (key, now)) bs = bs"
      using Cons.prems(1) unfolding Cons.hyps(2) [symmetric] by (intro update_where_none) (auto simp: image_iff)
    moreover have "a_id b \<notin> a_id ` set bs" using Cons.prems(1) unfolding Cons.hyps(2) [symmetric] by simp
    then have "a_id b = aid \<Longrightarrow> key \<notin> a_storage_key ` set bs"
      using Cons.prems(3) unfolding Cons.hyps(2) [symmetric] by (auto simp: image_iff) (metis \<open>a_id b \<notin> a_id ` set bs\<close> image_eqI)
    moreover have "a_id b \<noteq> aid \<Longrightarrow> a_storage_key b \<notin> a_storage_key ` set (update_where (\<lambda>a. a_id a = aid) (finalize_row (key, now)) bs)"
      using Cons.prems(2,3) Cons.hyps(2) [symmetric] by (auto simp: finalize_row_def elim!: in_update_whereE split: if_splits)
    ultimately show ?case using tail Cons.hyps(2) [symmetric] by (auto simp: finalize_row_def)
  qed simp
  moreover have "a_conversation_id ` set ?as = a_conversation_id ` set (attachments d)"
    "a_uploader_id ` set ?as = a_uploader_id ` set (attachments d)"
    "a_message_id ` set ?as = a_message_id ` set (attachments d)"
    by (simp_all add: finalize_row_def)
  ultimately have "wf_attachments d'"
    using assms(2) unfolding d'
    by (simp add: wf_db_def wf_attachments_def finalized_row.distinct_update del: image_update_where)
  with assms(2) show ?thesis
    by (simp add: d' wf_db_def wf_users_def wf_refresh_tokens_def wf_conversations_def wf_members_def
        wf_messages_def wf_receipts_def)
qed

lemma client_keeps_final:
  assumes "\<forall>i. client_only contents (env i)"
  shows "contents (env i t) (final_key c u a n) = contents t (final_key c u a n)"
  by (rule client_only_final [OF spec [OF assms]])

lemma other_final_key: "a_id b \<noteq> a_id a \<Longrightarrow> row_final_key b \<noteq> row_final_key a"
  by (simp add: final_key_inject)

lemma locked_row:
  assumes "wf_db d" and "get_attachment_for_update d aid = Inr (Some a)"
  shows "a \<in> set (attachments d) \<and> a_id a = aid"
  using assms(2) get_attachment_SomeD by (simp add: get_attachment_for_update_total wf_dbD(7) [OF assms(1)])

text \<open>A completion that fails may have copied the object of a row that is not uploaded, and no other.\<close>

lemma failed_completion_ok:
  assumes store: "object_store M contents" and client: "\<forall>i. client_only contents (env i)"
    and run: "complete M sc D env now aid uid (d, s) = (Inl e, d', s')" and ok: "attachments_ok contents (d, s)"
  shows "attachments_ok contents (d', s')"
proof -
  have wf: "wf_db d" and rows: "\<And>b. b \<in> set (attachments d) \<Longrightarrow> attachment_ok contents s b"
    using ok by (simp_all add: attachments_ok_def)
  note failed = complete_Inl_cases [OF run] and env = client_keeps_final [OF client]
  have "attachment_ok contents s' b" if b: "b \<in> set (attachments d)" for b
  proof (rule attachment_ok_store [OF rows [OF b]])
    assume up: "a_uploaded_at b \<noteq> None"
    show "contents s' (row_final_key b) = contents s (row_final_key b)"
    proof (cases "s' = s \<or> s' = env 0 s")
      case True
      then show ?thesis using env by auto
    next
      case False
      then obtain a et where a: "get_attachment_for_update d aid = Inr (Some a)" "a_uploaded_at a = None"
        "s' = snd (mo_copy M (a_storage_key a) et (row_final_key a) (env 1 (env 0 s)))"
        using failed by blast
      then have "a_id b \<noteq> a_id a"
        using up b locked_row [OF wf] wf_dbD(7) [OF wf] by (metis get_attachment_unique option.inject)
      from object_store.copy_other [OF store prod.collapse [symmetric] other_final_key [OF this]] a(3) env
      show ?thesis by simp
    qed
  qed
  with failed wf show ?thesis by (simp add: attachments_ok_def)
qed

text \<open>The copy and the removal of a completion leave the final objects of other rows alone.\<close>

lemma completion_keeps_others:
  assumes store: "object_store M contents" and client: "\<forall>i. client_only contents (env i)"
    and copied: "mo_copy M (row_pending_key a) et (row_final_key a) (env 1 (env 0 s)) = (Inr (), s2)"
    and "a_id b \<noteq> a_id a"
  shows "contents (snd (mo_remove M (row_pending_key a) (env 2 s2))) (row_final_key b) = contents s (row_final_key b)"
proof -
  note env = client_keeps_final [OF client]
  have "contents (snd (mo_remove M (row_pending_key a) (env 2 s2))) (row_final_key b) = contents (env 2 s2) (row_final_key b)"
    using object_store.remove_other [OF store prod.collapse [symmetric]] by simp
  also have "\<dots> = contents s2 (row_final_key b)" by (rule env)
  also have "\<dots> = contents (env 1 (env 0 s)) (row_final_key b)"
    by (rule object_store.copy_other [OF store copied other_final_key [OF assms(4)]])
  finally show ?thesis by (simp add: env)
qed

lemma completing_ok:
  assumes store: "object_store M contents" and etags: "etags_faithful contents"
    and client: "\<forall>i. client_only contents (env i)"
    and run: "complete M sc D env now aid uid (d, s) = (r, d', s')" and ok: "attachments_ok contents (d, s)"
  shows "attachments_ok contents (d', s')"
proof (cases r)
  case (Inl e)
  from failed_completion_ok [OF store client run [unfolded Inl] ok] show ?thesis .
next
  case (Inr x)
  have wf: "wf_db d" and rows: "\<And>b. b \<in> set (attachments d) \<Longrightarrow> attachment_ok contents s b"
    using ok by (simp_all add: attachments_ok_def)
  note env = client_keeps_final [OF client]
  from run [unfolded Inr] show ?thesis
  proof (cases rule: complete_Inr_cases)
    case (already a)
    with ok show ?thesis by simp
  next
    case (fresh a metadata s2)
    note a = locked_row [OF wf fresh(1)]
    have pending: "a_storage_key a = row_pending_key a"
      using rows a fresh(4) by (auto simp: attachment_ok_def)
    have d': "d' = d\<lparr>attachments := update_where (\<lambda>a. a_id a = aid) (finalize_row (row_final_key a, now)) (attachments d)\<rparr>"
      using finalize_attachment_InrD [OF fresh(8)] by blast
    obtain ob0 where ob0: "contents s (a_storage_key a) = Some ob0" "int (length (so_bytes ob0)) = a_file_size a"
      "md_etag metadata = so_etag ob0"
      using check_upload_stat [OF store fresh(5)] by auto
    obtain ob where ob: "contents (env 1 (env 0 s)) (a_storage_key a) = Some ob" "so_etag ob = so_etag ob0"
      "contents s' (row_final_key a) = Some ob"
      using completed_object [OF store _ fresh(7), where f = "env 2" and s' = s'] pending env fresh(9) ob0(3)
      by (metis key_areas(3))
    have "so_bytes ob = so_bytes ob0" using etags ob(1,2) ob0(1) unfolding etags_faithful_def by blast
    then have "attachment_ok contents s' (finalize_row (row_final_key a, now) a)"
      using ob(3) ob0(2) by (simp add: attachment_ok_def finalize_row_def)
    moreover have "attachment_ok contents s' b" if b: "b \<in> set (attachments d)" "a_id b \<noteq> aid" for b
      using attachment_ok_store [OF rows [OF b(1)]] completion_keeps_others [OF store client fresh(7) [unfolded pending]] a b(2)
      by (simp add: fresh(9) pending)
    moreover have "b = a" if "b \<in> set (attachments d)" "a_id b = aid" for b
      using that a wf_dbD(7) [OF wf] by (metis get_attachment_unique option.inject)
    ultimately have "\<forall>b \<in> set (attachments d'). attachment_ok contents s' b"
      unfolding d' by (auto elim!: in_update_whereE)
    with finalize_attachment_wf [OF fresh(8) wf] show ?thesis by (simp add: attachments_ok_def)
  qed
qed

lemma attachment_step_ok:
  assumes "object_store M contents" and "etags_faithful contents" and "failed_removal_keeps M contents"
    and "attachment_step S M contents sc D x y" and "attachments_ok contents x"
  shows "attachments_ok contents y"
  using assms(4)
proof cases
  case (reserving aid created now cid uid filename mime_type file_size d s r d')
  show ?thesis
    unfolding reserving(2) by (rule reserving_ok [OF reserving(3) assms(5) [unfolded reserving(1)]])
next
  case (completing env now aid uid d s r d' s')
  show ?thesis
    unfolding completing(2)
    by (rule completing_ok [OF assms(1,2) completing(3,4) assms(5) [unfolded completing(1)]])
next
  case (sending fr now cid uid content ids d r d' s)
  have "wf_db (id d)" using assms(5) unfolding sending(1) by (simp add: attachments_ok_def)
  then show ?thesis
    unfolding sending(2) by (rule sending_ok [OF sending(3) _ _ assms(5) [unfolded sending(1)]]) simp
next
  case (cleaning locked cutoff limit d s n d' s')
  show ?thesis
    unfolding cleaning(2) by (rule cleaning_ok [OF assms(1,3) cleaning(3) assms(5) [unfolded cleaning(1)]])
next
  case (uploading f d s)
  have "attachment_ok contents (f s) a" if "attachment_ok contents s a" for a
    by (rule attachment_ok_store [OF that client_only_final [OF uploading(3)]])
  with assms(5) show ?thesis unfolding uploading(1,2) attachments_ok_def by simp
qed


definition stored_row :: attachment where
  "stored_row = finalize_row (row_final_key upload_row, 200) upload_row"

definition stored_db :: db where
  "stored_db = chat_db\<lparr>attachments := [stored_row]\<rparr>"

lemma stored_ok: "attachments_ok ref_contents (stored_db, [(row_final_key upload_row, ''png'', None)])"
proof -
  have "wf_attachments stored_db"
    using chat_facts(2,3)
    by (simp add: wf_attachments_def stored_db_def stored_row_def finalize_row_def upload_row_def new_attachment_def)
  then have "wf_db stored_db"
    using wf_dbD [OF chat_facts(1)]
    by (simp add: stored_db_def wf_db_def wf_users_def wf_refresh_tokens_def wf_conversations_def
        wf_members_def wf_messages_def wf_receipts_def)
  then show ?thesis
    by (simp add: attachments_ok_def attachment_ok_def stored_db_def stored_row_def finalize_row_def
        upload_row_def new_attachment_def ref_contents_def ref_object_def)
qed

lemma stored_send:
  "\<exists>r d'. create_message default_settings id chat_fresh_1 200 9 1 ''see'' [81] stored_db = Inr (r, d') \<and>
    (\<exists>a \<in> set (attachments d'). a_message_id a \<noteq> None)"
proof -
  have "case create_message default_settings id chat_fresh_1 200 9 1 ''see'' [81] stored_db of
      Inl _ \<Rightarrow> False | Inr (r, d') \<Rightarrow> \<exists>a \<in> set (attachments d'). a_message_id a \<noteq> None"
    by code_simp
  then show ?thesis by (auto split: sum.splits)
qed


end
