(* ===== verification/Api.thy ===== *)
theory Api
  imports Lifecycle Auth JsonWrite
begin

section \<open>The HTTP API (api/, core/errors.py)\<close>

text \<open>
  One request against the database and the object store: authentication, validation of what the
  route takes, the route's handler, and the exception handlers that make responses of errors.  An
  exception without a handler is re-raised to the server, which answers 500: \<open>Crash\<close>.  What the
  framework says of invalid input (\<open>RequestValidationError.errors()\<close>) is a parameter.  FastAPI
  resolves the authentication dependency before it reports invalid input.
\<close>

subsection \<open>Responses and errors\<close>

datatype 'tok body =
    TokenBody "'tok token_response"
  | OwnUserBody user_response
  | UserBody user_public_response
  | UsersBody "user_public_response list"
  | ConversationBody conversation_response
  | ConversationsBody "conversation_response list"
  | PageBody message_page
  | MessageBody message_response
  | UploadBody attachment_upload_response
  | AttachmentBody attachment_response
  | StreamBody "string list" string "(string \<times> string) list" \<comment> \<open>chunks, media type, headers\<close>
  | NoBody
  | ErrorBody json

datatype 'tok http = Response (http_status: int) (http_body: "'tok body") | Crash exc

definition error_body :: "string \<Rightarrow> string \<Rightarrow> json option \<Rightarrow> json" where
  "error_body code msg details =
     JObj [(''error'', JObj ([(''code'', JStr code), (''message'', JStr msg)] @
       (case details of None \<Rightarrow> [] | Some v \<Rightarrow> [(''details'', v)])))]"

fun join_dots :: "string list \<Rightarrow> string" where
  "join_dots [] = []"
| "join_dots [s] = s"
| "join_dots (s # ss) = s @ ''.'' @ join_dots ss"

definition validation_error_handler :: "(string list \<times> string) list \<Rightarrow> 'tok http" where
  "validation_error_handler errors = Response 422 (ErrorBody (error_body ''VALIDATION_ERROR'' ''The request is invalid''
     (Some (JArr (map (\<lambda>(loc, msg). JObj [(''field'', JStr (join_dots (tl loc))), (''message'', JStr msg)]) errors)))))"

fun error_response :: "exc \<Rightarrow> 'tok http" where
  "error_response (AppError status code msg) = Response status (ErrorBody (error_body code msg None))"
| "error_response e = Crash e"

subsection \<open>Routes\<close>

record ('tok, 's) api =
  ax_lib :: "'tok token_lib"
  ax_settings :: settings
  ax_minio :: "'s minio"
  ax_scanner :: scanner
  ax_clamd :: clamd
  ax_valid_email :: "string \<Rightarrow> string option"
  ax_server_offset :: int

text \<open>\<open>attachment_scanner\<close>, chosen once from the settings.\<close>

definition attachment_scanner :: "settings \<Rightarrow> scanner" where
  "attachment_scanner S = (if attachment_scan_mode S = ''clamav'' then ClamAVScanner else DisabledScanner)"

text \<open>The clock, the fresh identifiers, and what others do while the request runs.\<close>

record 's moment =
  mx_now :: instant
  mx_created :: instant
  mx_uuid :: uuid
  mx_auth :: auth_fresh
  mx_message :: message_fresh
  mx_env :: "db \<Rightarrow> db"
  mx_store_env :: "nat \<Rightarrow> 's \<Rightarrow> 's"

type_synonym ('tok, 's) route = "db \<times> 's \<Rightarrow> 'tok http \<times> db \<times> 's"

text \<open>A handler that commits or fails, and one that only reads.\<close>

definition committing :: "int \<Rightarrow> (db \<Rightarrow> db) \<Rightarrow> ('a \<Rightarrow> 'tok body) \<Rightarrow> (db \<Rightarrow> ('a \<times> db) result) \<Rightarrow> ('tok, 's) route" where
  "committing status env body f = (\<lambda>(d, s).
     case f d of
       Inl e \<Rightarrow> (error_response e, env d, s)
     | Inr (x, d') \<Rightarrow> (Response status (body x), d', s))"

definition reading :: "('a \<Rightarrow> 'tok body) \<Rightarrow> (db \<Rightarrow> 'a result) \<Rightarrow> ('tok, 's) route" where
  "reading body f = committing 200 id body (\<lambda>d. ebind (f d) (\<lambda>x. Inr (x, d)))"

definition register_route :: "('tok, 's) api \<Rightarrow> 's moment \<Rightarrow> register_request \<Rightarrow> ('tok, 's) route" where
  "register_route A F data = committing 201 (mx_env F) TokenBody
     (register (ax_lib A) (ax_settings A) (mx_env F) (mx_auth F) (mx_now F) data)"

definition login_route :: "('tok, 's) api \<Rightarrow> 's moment \<Rightarrow> login_request \<Rightarrow> ('tok, 's) route" where
  "login_route A F data = committing 200 id TokenBody (login (ax_lib A) (ax_settings A) (mx_auth F) (mx_now F) data)"

definition refresh_route :: "('tok, 's) api \<Rightarrow> 's moment \<Rightarrow> 'tok \<Rightarrow> ('tok, 's) route" where
  "refresh_route A F token = committing 200 (mx_env F) TokenBody
     (refresh (ax_lib A) (ax_settings A) (mx_env F) (mx_auth F) (mx_now F) token)"

definition logout_route :: "('tok, 's) api \<Rightarrow> 's moment \<Rightarrow> 'tok \<Rightarrow> ('tok, 's) route" where
  "logout_route A F token = committing 204 id (\<lambda>_. NoBody)
     (\<lambda>d. ebind (logout (ax_lib A) (ax_settings A) (mx_now F) token d) (\<lambda>d'. Inr ((), d')))"

definition me_route :: "user \<Rightarrow> ('tok, 's) route" where
  "me_route current_user = reading OwnUserBody (\<lambda>_. Inr (own_user current_user))"

definition search_users_route :: "user \<Rightarrow> string \<Rightarrow> int \<Rightarrow> ('tok, 's) route" where
  "search_users_route current_user q limit =
     reading UsersBody (\<lambda>d. Inr (search_users d q (u_id current_user) (nat limit)))"

definition get_user_route :: "uuid \<Rightarrow> ('tok, 's) route" where
  "get_user_route uid = reading UserBody (\<lambda>d. get_user d uid)"

definition create_conversation_route :: "'s moment \<Rightarrow> user \<Rightarrow> uuid \<Rightarrow> ('tok, 's) route" where
  "create_conversation_route F current_user participant_id = committing 201 (mx_env F) ConversationBody
     (create_direct (mx_env F) (mx_uuid F) (mx_now F) (u_id current_user) participant_id)"

definition list_conversations_route :: "user \<Rightarrow> ('tok, 's) route" where
  "list_conversations_route current_user =
     reading ConversationsBody (\<lambda>d. list_conversations d (u_id current_user))"

definition get_conversation_route :: "user \<Rightarrow> uuid \<Rightarrow> ('tok, 's) route" where
  "get_conversation_route current_user cid =
     reading ConversationBody (\<lambda>d. show_conversation d cid (u_id current_user))"

definition list_messages_route ::
  "('tok, 's) api \<Rightarrow> user \<Rightarrow> uuid \<Rightarrow> int \<Rightarrow> string option \<Rightarrow> string option \<Rightarrow> ('tok, 's) route" where
  "list_messages_route A current_user cid limit before after =
     reading PageBody (\<lambda>d. list_messages (ax_server_offset A) d cid (u_id current_user) (nat limit) before after)"

definition create_message_route ::
  "('tok, 's) api \<Rightarrow> 's moment \<Rightarrow> user \<Rightarrow> uuid \<Rightarrow> message_create_request \<Rightarrow> ('tok, 's) route" where
  "create_message_route A F current_user cid data = committing 201 (mx_env F) MessageBody
     (create_message (ax_settings A) (mx_env F) (mx_message F) (mx_now F) cid (u_id current_user)
        (mc_content data) (mc_attachment_ids data))"

definition reserve_attachment_route ::
  "('tok, 's) api \<Rightarrow> 's moment \<Rightarrow> user \<Rightarrow> uuid \<Rightarrow> attachment_reserve_request \<Rightarrow> ('tok, 's) route" where
  "reserve_attachment_route A F current_user cid data = (\<lambda>(d, s). committing 201 id UploadBody
     (\<lambda>d. reserve (ax_settings A) (ax_minio A) (mx_uuid F) (mx_created F) (mx_now F) cid (u_id current_user)
        (arq_filename data) (arq_mime_type data) (arq_file_size data) (d, s)) (d, s))"

definition complete_attachment_route ::
  "('tok, 's) api \<Rightarrow> 's moment \<Rightarrow> user \<Rightarrow> uuid \<Rightarrow> ('tok, 's) route" where
  "complete_attachment_route A F current_user aid x =
     (case complete (ax_minio A) (ax_scanner A) (ax_clamd A) (mx_store_env F) (mx_now F) aid (u_id current_user) x of
        (Inl e, y) \<Rightarrow> (error_response e, y)
      | (Inr r, y) \<Rightarrow> (Response 200 (AttachmentBody r), y))"

text \<open>\<open>urllib.parse.quote\<close>: the UTF-8 bytes, the unreserved ones and the slash as they are.\<close>

definition quote_safe :: "char \<Rightarrow> bool" where
  "quote_safe c \<longleftrightarrow> (let n = (of_char c :: nat) in
     (65 \<le> n \<and> n \<le> 90) \<or> (97 \<le> n \<and> n \<le> 122) \<or> (48 \<le> n \<and> n \<le> 57) \<or> c \<in> set ''_.-~/'')"

definition upper_hex :: "nat \<Rightarrow> char" where
  "upper_hex n = (if n < 10 then char_of (48 + n) else char_of (55 + n))"

definition percent :: "nat \<Rightarrow> string" where
  "percent n = [CHR ''%'', upper_hex (n div 16), upper_hex (n mod 16)]"

definition quote_char :: "char \<Rightarrow> string" where
  "quote_char c = (let n = (of_char c :: nat) in
     if quote_safe c then [c]
     else if n < 128 then percent n
     else percent (192 + n div 64) @ percent (128 + n mod 64))"

definition url_quote :: "string \<Rightarrow> string" where
  "url_quote s = concat (map quote_char s)"

definition download_headers :: "attachment \<Rightarrow> (string \<times> string) list" where
  "download_headers a =
     (let disposition = (if py_startswith (a_mime_type a) ''image/'' then ''inline'' else ''attachment'') in
      [(''Content-Length'', int_str (a_file_size a)),
       (''Content-Disposition'', disposition @ ''; filename*=UTF-8'' @ [CHR 0x27, CHR 0x27] @ url_quote (a_filename a)),
       (''Cache-Control'', ''private, max-age=300''),
       (''X-Content-Type-Options'', ''nosniff'')])"

definition download_attachment_route :: "('tok, 's) api \<Rightarrow> user \<Rightarrow> uuid \<Rightarrow> ('tok, 's) route" where
  "download_attachment_route A current_user aid = (\<lambda>(d, s).
     reading (\<lambda>(a, chunks). StreamBody chunks (a_mime_type a) (download_headers a))
       (\<lambda>d. ebind (authorize_download d aid (u_id current_user)) (\<lambda>a.
            ebind (storage_get (ax_minio A) (a_storage_key a) s) (\<lambda>chunks. Inr (a, chunks)))) (d, s))"

text \<open>
  The body's generator: the chunks of the store's response, as many as are asked for, until there are
  no more or reading one raises; in every case the response is closed and its connection released.
\<close>

record object_response =
  or_chunks :: "string result list"
  or_open :: bool
  or_connection_held :: bool

fun stream_chunks :: "nat \<Rightarrow> string result list \<Rightarrow> string list \<times> unit result" where
  "stream_chunks 0 cs = ([], Inr ())"
| "stream_chunks (Suc n) [] = ([], Inr ())"
| "stream_chunks (Suc n) (Inl e # cs) = ([], Inl e)"
| "stream_chunks (Suc n) (Inr c # cs) = (case stream_chunks n cs of (out, r) \<Rightarrow> (c # out, r))"

definition stream_object :: "nat \<Rightarrow> object_response \<Rightarrow> string list \<times> unit result \<times> object_response" where
  "stream_object asked response =
     (case stream_chunks asked (or_chunks response) of
        (out, r) \<Rightarrow> (out, r, response\<lparr>or_open := False, or_connection_held := False\<rparr>))"

text \<open>What is sent is a prefix of the chunks, all of them when none fails and the client asks on.\<close>

lemma stream_chunks_prefix: "stream_chunks n cs = (out, r) \<Longrightarrow> \<exists>rest. cs = map Inr out @ rest"
  by (induction n cs arbitrary: out rule: stream_chunks.induct) (auto split: prod.splits)

lemma stream_chunks_all: "length cs \<le> n \<Longrightarrow> stream_chunks n (map Inr cs) = (cs, Inr ())"
proof (induction cs arbitrary: n)
  case Nil
  show ?case by (cases n) simp_all
next
  case (Cons c cs)
  then show ?case by (cases n) auto
qed

lemma stream_object_releases:
  assumes "stream_object asked response = (out, r, response')"
  shows "\<not> or_open response'" and "\<not> or_connection_held response'" and "\<exists>rest. or_chunks response = map Inr out @ rest"
  using assms stream_chunks_prefix by (auto simp: stream_object_def split: prod.splits)

subsection \<open>The requests\<close>

datatype 'tok request =
    Register string string string
  | Login string string
  | Refresh 'tok
  | Logout 'tok
  | Me
  | SearchUsers string int
  | GetUser uuid
  | CreateConversation uuid
  | ListConversations
  | GetConversation uuid
  | ListMessages uuid int "string option" "string option"
  | CreateMessage uuid string "uuid list"
  | ReserveAttachment uuid string string int
  | CompleteAttachment uuid
  | DownloadAttachment uuid

text \<open>Input that the models or the query bounds refuse, with what the framework says of it.\<close>

type_synonym invalid_input = "(string list \<times> string) list"

definition given :: "invalid_input \<Rightarrow> 'a option \<Rightarrow> ('a \<Rightarrow> ('tok, 's) route) \<Rightarrow> ('tok, 's) route" where
  "given errors parsed route x =
     (case parsed of None \<Rightarrow> (validation_error_handler errors, x) | Some data \<Rightarrow> route data x)"

definition bounded :: "invalid_input \<Rightarrow> bool \<Rightarrow> ('tok, 's) route \<Rightarrow> ('tok, 's) route" where
  "bounded errors ok route = given errors (if ok then Some () else None) (\<lambda>_. route)"

definition cursor_fits :: "string option \<Rightarrow> bool" where
  "cursor_fits c \<longleftrightarrow> (case c of None \<Rightarrow> True | Some s \<Rightarrow> length s \<le> 512)"

definition with_user ::
  "('tok, 's) api \<Rightarrow> 's moment \<Rightarrow> 'tok option \<Rightarrow> (user \<Rightarrow> ('tok, 's) route) \<Rightarrow> ('tok, 's) route" where
  "with_user A F credentials route = (\<lambda>(d, s).
     case get_current_user (ax_lib A) (ax_settings A) (mx_now F) credentials d of
       Inl e \<Rightarrow> (error_response e, d, s)
     | Inr u \<Rightarrow> route u (d, s))"

fun serve ::
  "('tok, 's) api \<Rightarrow> invalid_input \<Rightarrow> 's moment \<Rightarrow> 'tok option \<Rightarrow> 'tok request \<Rightarrow> ('tok, 's) route" where
  "serve A V F cred (Register username email password) =
     given V (parse_register_request (ax_valid_email A) username email password) (register_route A F)"
| "serve A V F cred (Login name password) = given V (parse_login_request name password) (login_route A F)"
| "serve A V F cred (Refresh token) = refresh_route A F token"
| "serve A V F cred (Logout token) = logout_route A F token"
| "serve A V F cred Me = with_user A F cred me_route"
| "serve A V F cred (SearchUsers q limit) = with_user A F cred (\<lambda>u.
     bounded V (length q \<le> 64 \<and> 1 \<le> limit \<and> limit \<le> 50) (search_users_route u q limit))"
| "serve A V F cred (GetUser uid) = with_user A F cred (\<lambda>_. get_user_route uid)"
| "serve A V F cred (CreateConversation uid) = with_user A F cred (\<lambda>u. create_conversation_route F u uid)"
| "serve A V F cred ListConversations = with_user A F cred list_conversations_route"
| "serve A V F cred (GetConversation cid) = with_user A F cred (\<lambda>u. get_conversation_route u cid)"
| "serve A V F cred (ListMessages cid limit before after) = with_user A F cred (\<lambda>u.
     bounded V (1 \<le> limit \<and> limit \<le> 100 \<and> cursor_fits before \<and> cursor_fits after)
       (list_messages_route A u cid limit before after))"
| "serve A V F cred (CreateMessage cid content ids) = with_user A F cred (\<lambda>u.
     given V (parse_message_create content ids) (create_message_route A F u cid))"
| "serve A V F cred (ReserveAttachment cid filename mime_type file_size) = with_user A F cred (\<lambda>u.
     given V (parse_reserve_request filename mime_type file_size) (reserve_attachment_route A F u cid))"
| "serve A V F cred (CompleteAttachment aid) = with_user A F cred (\<lambda>u. complete_attachment_route A F u aid)"
| "serve A V F cred (DownloadAttachment aid) = with_user A F cred (\<lambda>u. download_attachment_route A u aid)"

fun open_request :: "'tok request \<Rightarrow> bool" where
  "open_request (Register _ _ _) = True"
| "open_request (Login _ _) = True"
| "open_request (Refresh _) = True"
| "open_request (Logout _) = True"
| "open_request _ = False"

subsection \<open>Authentication and atomicity\<close>

lemma given_cases:
  obtains (refused) "parsed = None" "given errors parsed route x = (validation_error_handler errors, x)"
    | (passed) data where "parsed = Some data" "given errors parsed route x = route data x"
  by (cases parsed) (auto simp: given_def)

lemma with_user_cases:
  obtains (refused) e where "get_current_user (ax_lib A) (ax_settings A) (mx_now F) cred d = Inl e"
      "with_user A F cred route (d, s) = (error_response e, d, s)"
    | (passed) u where "get_current_user (ax_lib A) (ax_settings A) (mx_now F) cred d = Inr u"
      "with_user A F cred route (d, s) = route u (d, s)"
  by (cases "get_current_user (ax_lib A) (ax_settings A) (mx_now F) cred d") (auto simp: with_user_def)

lemma serve_protected:
  assumes "\<not> open_request req"
  obtains route where "serve A V F cred req = with_user A F cred route"
  using assms by (cases req) auto

end
