(* ===== verification/Requests.thy ===== *)
theory Requests
  imports Api
begin

section \<open>What requests do to the database\<close>

text \<open>
  Each route commits once or not at all: it keeps the declared constraints, and one that answers
  with an error leaves the database as others left it.  The lemmas are per route; the properties
  follow by cases over the request.
\<close>

fun refused :: "'tok http \<Rightarrow> bool" where
  "refused (Response _ (ErrorBody _)) = True"
| "refused (Response _ _) = False"
| "refused (Crash _) = True"

definition safe_route :: "(db \<Rightarrow> db) \<Rightarrow> ('tok, 's) route \<Rightarrow> bool" where
  "safe_route env route \<longleftrightarrow> (\<forall>d s resp d' s'. wf_db d \<longrightarrow> route (d, s) = (resp, d', s') \<longrightarrow>
     wf_db d' \<and> (refused resp \<longrightarrow> d' = d \<or> d' = env d))"

lemma safe_routeD:
  "safe_route env route \<Longrightarrow> wf_db d \<Longrightarrow> route (d, s) = (resp, d', s') \<Longrightarrow>
    wf_db d' \<and> (refused resp \<longrightarrow> d' = d \<or> d' = env d)"
  unfolding safe_route_def by blast

lemma refused_error [simp]: "refused (error_response e)" "refused (validation_error_handler V)"
  by (cases e) (auto simp: validation_error_handler_def)

lemma safe_committing:
  assumes "\<And>d. wf_db d \<Longrightarrow> wf_db (env d)" and "env' = id \<or> env' = env"
    and "\<And>d x d'. wf_db d \<Longrightarrow> f d = Inr (x, d') \<Longrightarrow> wf_db d'" and "\<And>x. \<not> refused (Response status (body x))"
  shows "safe_route env (committing status env' body f)"
  using assms by (auto simp: safe_route_def committing_def split: sum.splits)

lemma safe_reading: "(\<And>x. \<not> refused (Response 200 (body x))) \<Longrightarrow> safe_route env (reading body f)"
  by (auto simp: safe_route_def reading_def committing_def ebind_Inr_iff split: sum.splits)

lemma safe_given: "(\<And>x. parsed = Some x \<Longrightarrow> safe_route env (route x)) \<Longrightarrow> safe_route env (given V parsed route)"
  by (cases parsed) (auto simp: safe_route_def given_def)

lemma safe_bounded: "safe_route env route \<Longrightarrow> safe_route env (bounded V ok route)"
  by (simp add: bounded_def safe_given)

lemma safe_with_user: "(\<And>u. safe_route env (route u)) \<Longrightarrow> safe_route env (with_user A F cred route)"
  by (auto simp: safe_route_def with_user_def split: sum.splits)

subsection \<open>The services keep the constraints\<close>

lemma register_wf:
  assumes "register L S env fr now data d = Inr (r, d')" and "wf_db (env d)"
  shows "wf_db d'"
  using assms by (auto simp: register_def Let_def split: if_splits sum.splits exc.splits
      intro: issue_token_pair_wf insert_user_wf)

lemma login_wf: "login L S fr now data d = Inr (r, d') \<Longrightarrow> wf_db d \<Longrightarrow> wf_db d'"
  by (auto simp: login_def ebind_Inr_iff split: option.splits if_splits intro: issue_token_pair_wf)

lemma refresh_wf: "refresh L S env fr now tok d = Inr (r, d') \<Longrightarrow> wf_db (env d) \<Longrightarrow> wf_db d'"
  by (elim refresh_InrD) (auto intro: issue_token_pair_wf revoke_token_wf)

lemma logout_wf: "logout L S now tok d = Inr d' \<Longrightarrow> wf_db d \<Longrightarrow> wf_db d'"
  using logout_InrD [of L S now tok d d'] by (auto intro: revoke_token_wf)

lemma create_direct_wf:
  assumes "create_direct env cid now a b d = Inr (r, d')" and "wf_db d" and "wf_db (env d)"
  shows "wf_db d'"
proof -
  let ?key = "direct_key a b"
  let ?insert = "ebind (insert_conversation (new_direct cid now a b) (env d))
    (insert_all insert_member [new_member cid now a, new_member cid now b])"
  obtain existing where look: "get_direct_by_key d ?key = Inr existing"
    using assms(1) by (auto simp: create_direct_def Let_def ebind_Inr_iff split: if_split_asm)
  show ?thesis
  proof (cases existing)
    case (Some c)
    with assms(1,2) look show ?thesis
      by (auto simp: create_direct_def Let_def ebind_Inr_iff split: if_split_asm)
  next
    case None
    show ?thesis
    proof (cases ?insert)
      case (Inr d1)
      have "wf_db d1" by (rule insert_direct_wf [OF Inr assms(3)])
      with assms(1) look None Inr show ?thesis
        by (auto simp: create_direct_def Let_def ebind_Inr_iff simp del: insert_all.simps
            split: if_split_asm option.split_asm)
    next
      case (Inl e)
      show ?thesis
      proof (cases "e = IntegrityError")
        case True
        with assms(1,3) look None Inl obtain found where "get_direct_by_key (env d) ?key = Inr found"
          by (auto simp: create_direct_def Let_def ebind_Inr_iff simp del: insert_all.simps split: if_split_asm)
        with assms(1,3) look None Inl True show ?thesis
          by (cases found) (auto simp: create_direct_def Let_def ebind_Inr_iff simp del: insert_all.simps split: if_split_asm)
      next
        case False
        with assms(1) look None Inl show ?thesis
          by (cases e) (auto simp: create_direct_def Let_def simp del: insert_all.simps split: if_split_asm)
      qed
    qed
  qed
qed

lemma create_message_wf:
  assumes "create_message S env fr now cid s content ids d = Inr (r, d')" and "wf_db d" and "wf_db (env d)"
  shows "wf_db d'"
  using commit_message_wf [OF create_message_InrD(3) [OF wf_dbD(7) [OF assms(2)] assms(1)] assms(3)] .

lemma reserve_wf:
  assumes "reserve S M aid created now cid uid filename mime_type file_size (d, s) = Inr (r, d')" and "wf_db d"
  shows "wf_db d'"
  using assms by (auto simp: reserve_def Let_def ebind_Inr_iff intro: insert_attachment_wf)

lemma complete_database:
  assumes "complete M sc D env now aid uid (d, s) = (r, d', s')"
  shows "(d' = d \<or> (\<exists>key x. r = Inr x \<and> finalize_attachment aid key now d = Inr d'))"
proof (cases r)
  case (Inl e)
  from complete_Inl_cases [OF assms [unfolded Inl]] show ?thesis by auto
next
  case (Inr x)
  from assms [unfolded Inr] show ?thesis
    by (cases rule: complete_Inr_cases) (use Inr in auto)
qed

lemma safe_complete: "safe_route env (complete_attachment_route A F u aid)"
  unfolding safe_route_def
proof (intro allI impI)
  fix d s resp d' s'
  assume wf: "wf_db d" and run: "complete_attachment_route A F u aid (d, s) = (resp, d', s')"
  obtain r d1 s1 where c: "complete (ax_minio A) (ax_scanner A) (ax_clamd A) (mx_store_env F) (mx_now F) aid (u_id u) (d, s) = (r, d1, s1)"
    by (cases "complete (ax_minio A) (ax_scanner A) (ax_clamd A) (mx_store_env F) (mx_now F) aid (u_id u) (d, s)")
  from run c have "d' = d1" and "refused resp \<longrightarrow> (\<exists>e. r = Inl e)"
    by (cases r; auto simp: complete_attachment_route_def)+
  with complete_database [OF c] wf show "wf_db d' \<and> (refused resp \<longrightarrow> d' = d \<or> d' = env d)"
    by (auto intro: finalize_attachment_wf)
qed

lemma safe_serve:
  assumes "\<And>d. wf_db d \<Longrightarrow> wf_db (mx_env F d)"
  shows "safe_route (mx_env F) (serve A V F cred req)"
proof (cases req)
  case (CompleteAttachment aid)
  then show ?thesis by (simp add: safe_with_user safe_complete)
next
  case (ReserveAttachment cid filename mime_type file_size)
  have "safe_route (mx_env F) (reserve_attachment_route A F u cid data)" for u data
    by (auto simp: safe_route_def reserve_attachment_route_def committing_def split: sum.splits dest: reserve_wf)
  with ReserveAttachment show ?thesis by (simp add: safe_with_user safe_given)
next
  case (DownloadAttachment aid)
  have "safe_route (mx_env F) (download_attachment_route A u aid)" for u
    by (auto simp: safe_route_def download_attachment_route_def reading_def committing_def ebind_Inr_iff split: sum.splits)
  with DownloadAttachment show ?thesis by (simp add: safe_with_user)
qed (auto simp: register_route_def login_route_def refresh_route_def logout_route_def me_route_def
    search_users_route_def get_user_route_def create_conversation_route_def list_conversations_route_def
    get_conversation_route_def list_messages_route_def create_message_route_def ebind_Inr_iff
    intro!: safe_with_user safe_given safe_bounded safe_reading safe_committing assms
    intro: register_wf login_wf refresh_wf logout_wf create_direct_wf create_message_wf)

subsection \<open>Properties of the API\<close>

fun serve_all ::
  "('tok, 's) api \<Rightarrow> (invalid_input \<times> 's moment \<times> 'tok option \<times> 'tok request) list \<Rightarrow> db \<times> 's \<Rightarrow> db \<times> 's" where
  "serve_all A [] x = x"
| "serve_all A ((V, F, cred, req) # rest) x = serve_all A rest (snd (serve A V F cred req x))"

lemma serve_wf:
  assumes "\<And>d. wf_db d \<Longrightarrow> wf_db (mx_env F d)" and "wf_db (fst x)"
  shows "wf_db (fst (snd (serve A V F cred req x)))"
proof -
  obtain d s where x: "x = (d, s)" by (cases x)
  obtain resp d' s' where run: "serve A V F cred req (d, s) = (resp, d', s')" by (cases "serve A V F cred req (d, s)")
  from safe_routeD [OF safe_serve [OF assms(1)] _ run] run assms(2) x
  show ?thesis by simp
qed

text \<open>The declared constraints of the database hold after any sequence of requests, whatever they carry and
  whatever others commit while they run, as long as the others keep the constraints too.\<close>

theorem requests_keep_constraints:
  assumes "wf_db d" and "\<forall>(V, F, cred, req) \<in> set requests. \<forall>c. wf_db c \<longrightarrow> wf_db (mx_env F c)"
  shows "wf_db (fst (serve_all A requests (d, s)))"
proof -
  have "wf_db (fst x) \<Longrightarrow> wf_db (fst (serve_all A requests x))" for x
    using assms(2)
  proof (induction requests arbitrary: x)
    case (Cons r rest)
    obtain V F cred req where r: "r = (V, F, cred, req)" by (cases r)
    have "wf_db (fst (snd (serve A V F cred req x)))"
    proof (rule serve_wf)
      show "wf_db (mx_env F d)" if "wf_db d" for d
        using Cons.prems(2) r that by simp
    qed (rule Cons.prems(1))
    then show ?case using Cons.IH Cons.prems(2) r by simp
  qed simp
  with assms(1) show ?thesis by simp
qed


text \<open>C2: Everything but registering, logging in, refreshing and logging out needs a user: a request whose credentials
  do not name one is answered with what authentication says, a 401 when there is no token or the
  token is no valid access token of a stored user, and touches neither the database nor the store,
  whatever else it carries.\<close>

theorem protected_request_needs_user:
  assumes "\<not> open_request req"
    and "\<And>u. get_current_user (ax_lib A) (ax_settings A) (mx_now F) cred d \<noteq> Inr u"
  shows "\<exists>e. serve A V F cred req (d, s) = (error_response e, d, s) \<and>
    get_current_user (ax_lib A) (ax_settings A) (mx_now F) cred d = Inl e \<and>
    (cred = None \<longrightarrow> e = AppError 401 ''AUTHENTICATION_REQUIRED'' ''Authentication is required'') \<and>
    (\<forall>token. cred = Some token \<longrightarrow>
      (case decode_token (ax_lib A) (ax_settings A) token ''access'' (mx_now F) of
         Inr payload \<Rightarrow> get_user_by_id d (tp_subject payload) = None
       | Inl e' \<Rightarrow> e' = InvalidTokenError) \<longrightarrow> e = invalid_access_token)"
proof -
  obtain e where e: "get_current_user (ax_lib A) (ax_settings A) (mx_now F) cred d = Inl e"
    using assms(2) by (cases "get_current_user (ax_lib A) (ax_settings A) (mx_now F) cred d") auto
  obtain route where "serve A V F cred req = with_user A F cred route" by (rule serve_protected [OF assms(1)])
  then have "serve A V F cred req (d, s) = (error_response e, d, s)"
    using e by (simp add: with_user_def)
  moreover have "cred = None \<longrightarrow> e = AppError 401 ''AUTHENTICATION_REQUIRED'' ''Authentication is required''"
    using e by (auto simp: get_current_user_def)
  moreover have "e = invalid_access_token" if "cred = Some token"
    "case decode_token (ax_lib A) (ax_settings A) token ''access'' (mx_now F) of
       Inr payload \<Rightarrow> get_user_by_id d (tp_subject payload) = None | Inl e' \<Rightarrow> e' = InvalidTokenError" for token
    using e that by (auto simp: get_current_user_def split: sum.splits)
  ultimately show ?thesis using e by (intro exI [of _ e]) blast
qed

subsection \<open>At a concrete server\<close>

definition sample_api :: "(claims \<times> string \<times> string, object_map) api" where
  "sample_api = \<lparr>ax_lib = reference_lib, ax_settings = default_settings, ax_minio = reference_minio,
     ax_scanner = DisabledScanner, ax_clamd = word_clamd, ax_valid_email = Some, ax_server_offset = 0\<rparr>"

definition sample_moment :: "object_map moment" where
  "sample_moment = \<lparr>mx_now = 200, mx_created = 200, mx_uuid = 91, mx_auth = sample_fresh 20, mx_message = chat_fresh_1,
     mx_env = id, mx_store_env = (\<lambda>_. id)\<rparr>"

theorem requests_keep_constraints_witness:
  "wf_db (fst (serve_all sample_api [([], sample_moment, None, Register ''bob'' ''bob@x.org'' ''password1''), ([], sample_moment, None, Me)]
     (chat_db, [])))"
  by (rule requests_keep_constraints) (auto simp: chat_facts(1) sample_moment_def)


theorem protected_request_needs_user_witness:
  "\<exists>code msg. serve sample_api [] sample_moment None (CreateMessage 9 ''hi'' []) (chat_db, []) =
     (Response 401 (ErrorBody (error_body code msg None)), chat_db, [])"
proof -
  have "\<not> open_request (CreateMessage 9 ''hi'' [] :: (claims \<times> string \<times> string) request)" by simp
  moreover have "get_current_user (ax_lib sample_api) (ax_settings sample_api) (mx_now sample_moment) None chat_db \<noteq> Inr u" for u
    by (simp add: get_current_user_def)
  ultimately show ?thesis
    using protected_request_needs_user [where A = sample_api and F = sample_moment and cred = None and d = chat_db and V = "[]" and s = "[]"
        and req = "CreateMessage 9 ''hi'' []"] by fastforce
qed

end
