(* ===== verification/System.thy ===== *)
theory System
  imports Endpoint Requests
begin

section \<open>The whole backend\<close>

text \<open>
  Everything that changes the database, the object store or the connection table as one transition
  system: HTTP requests, the phases of WebSocket connections, presence that ran out, frames from other
  instances, the clean-up, and what clients and the network do by themselves.  A step is one request,
  one event or one phase of a connection; what other transactions commit inside it is part of the
  step.  The invariant is the conjunction of what the components promise of their state.
\<close>

type_synonym ('b, 's) backend_state = "'b world \<times> 's"

text \<open>
  What others may commit while a transaction runs: anything that keeps the constraints and the
  receipts sound and leaves the attachment rows, which the transactions that use them lock, alone.
\<close>

definition leaves_rows :: "(db \<Rightarrow> db) \<Rightarrow> bool" where
  "leaves_rows f \<longleftrightarrow> (\<forall>d. (wf_db d \<longrightarrow> wf_db (f d)) \<and> (receipts_ok d \<longrightarrow> receipts_ok (f d)) \<and>
     attachments (f d) = attachments d)"

inductive system_step ::
  "('tok, 's) api \<Rightarrow> ('s \<Rightarrow> string \<Rightarrow> stored_object option) \<Rightarrow> (string \<Rightarrow> uuid option) \<Rightarrow> (instant \<Rightarrow> string) \<Rightarrow>
     'b backend \<Rightarrow> ('b, 's) backend_state \<Rightarrow> ('b, 's) backend_state \<Rightarrow> bool"
  for A contents pu dt B where
  requests: "leaves_rows (mx_env F) \<Longrightarrow> \<forall>i. client_only contents (mx_store_env F i) \<Longrightarrow>
    serve A V F cred req (wd_db w, s) = (resp, d', s') \<Longrightarrow>
    system_step A contents pu dt B (w, s) (w\<lparr>wd_db := d'\<rparr>, s')"
| connects: "on_manager (connect B accepted uid ws) w = (r, w') \<Longrightarrow> system_step A contents pu dt B (w, s) (w', s)"
| greets: "greet dt B now uid ws became_online w = (r, w') \<Longrightarrow> system_step A contents pu dt B (w, s) (w', s)"
| sends: "\<forall>i. leaves_rows (hd_env h i) \<Longrightarrow> dispatch_event (ax_settings A) pu dt B h uid payload w = (r, w') \<Longrightarrow>
    system_step A contents pu dt B (w, s) (w', s)"
| hangs_up: "leaves_rows env \<Longrightarrow> hang_up B env now uid ws w = (r, w') \<Longrightarrow> system_step A contents pu dt B (w, s) (w', s)"
| expires: "leaves_rows env \<Longrightarrow> mark_user_offline B env seen now uid w = (r, w') \<Longrightarrow>
    system_step A contents pu dt B (w, s) (w', s)"
| delivers: "on_manager (deliver_to_users_local B us event) w = (r, w') \<Longrightarrow> system_step A contents pu dt B (w, s) (w', s)"
| stops_typing: "on_manager (tracker_expire B now key) w = (r, w') \<Longrightarrow> system_step A contents pu dt B (w, s) (w', s)"
| cleans_up: "cleanup_abandoned (ax_minio A) locked cutoff limit (wd_db w, s) = (n, d', s') \<Longrightarrow>
    system_step A contents pu dt B (w, s) (w\<lparr>wd_db := d'\<rparr>, s')"
| uploads: "client_only contents f \<Longrightarrow> system_step A contents pu dt B (w, s) (w, f s)"
| network: "system_step A contents pu dt B (w, s)
    (w\<lparr>wd_manager := (wd_manager w)\<lparr>mg_net := net, mg_backend := backend\<rparr>\<rparr>, s)"

definition stored_sound :: "('s \<Rightarrow> string \<Rightarrow> stored_object option) \<Rightarrow> db \<times> 's \<Rightarrow> bool" where
  "stored_sound contents x \<longleftrightarrow> attachments_ok contents x \<and> receipts_ok (fst x)"

definition sound :: "('s \<Rightarrow> string \<Rightarrow> stored_object option) \<Rightarrow> ('b, 's) backend_state \<Rightarrow> bool" where
  "sound contents = (\<lambda>(w, s). stored_sound contents (wd_db w, s) \<and> manager_ok (wd_manager w))"

lemma sound_empty: "sound contents (\<lparr>wd_db = empty_db, wd_manager = new_manager net, wd_events = [], wd_connections = 0\<rparr>, s)"
  using wf_empty_db
  by (simp add: sound_def stored_sound_def attachments_ok_def receipts_ok_def manager_ok_def new_manager_def)
    (simp add: empty_db_def)

subsection \<open>Transactions keep the stored state sound\<close>

definition same_rows :: "db \<Rightarrow> db \<Rightarrow> bool" where
  "same_rows d d' \<longleftrightarrow> attachments d' = attachments d \<and> receipts d' = receipts d"

lemma stored_sound_same:
  "stored_sound contents (d, s) \<Longrightarrow> wf_db d' \<Longrightarrow> same_rows d d' \<Longrightarrow> stored_sound contents (d', s)"
  by (simp add: stored_sound_def attachments_ok_def receipts_ok_def same_rows_def)

lemma stored_sound_others: "leaves_rows f \<Longrightarrow> stored_sound contents (d, s) \<Longrightarrow> stored_sound contents (f d, s)"
  by (simp add: stored_sound_def attachments_ok_def leaves_rows_def)

lemma stored_sound_wf: "stored_sound contents (d, s) \<Longrightarrow> wf_db d"
  by (simp add: stored_sound_def attachments_ok_def)

lemma leaves_rows_wf: "leaves_rows f \<Longrightarrow> wf_db d \<Longrightarrow> wf_db (f d)"
  by (simp add: leaves_rows_def)

lemma register_rows: "register L S env fr now data d = Inr (r, d') \<Longrightarrow> same_rows (env d) d'"
  by (auto simp: register_def Let_def insert_user_Inr_iff same_rows_def split: if_splits sum.splits exc.splits
      dest!: issue_token_pair_InrD(4))

lemma login_rows: "login L S fr now data d = Inr (r, d') \<Longrightarrow> same_rows d d'"
  by (auto simp: same_rows_def elim!: login_InrD dest!: issue_token_pair_InrD(4))

lemma revoke_rows [simp]: "attachments (revoke_token now t d) = attachments d" "receipts (revoke_token now t d) = receipts d"
  by (simp_all add: revoke_token_def)

lemma refresh_rows: "refresh L S env fr now tok d = Inr (r, d') \<Longrightarrow> same_rows (env d) d'"
  by (auto simp: same_rows_def elim!: refresh_InrD dest!: issue_token_pair_InrD(4))

lemma logout_rows: "logout L S now tok d = Inr d' \<Longrightarrow> same_rows d d'"
  using logout_InrD [of L S now tok d d'] by (auto simp: same_rows_def)

lemma insert_members_rows: "insert_all insert_member ms d = Inr d' \<Longrightarrow> same_rows d d'"
  by (induction ms arbitrary: d) (auto simp: ebind_Inr_iff insert_member_Inr_iff same_rows_def)

lemma create_direct_rows:
  "create_direct env cid now a b d = Inr (r, d') \<Longrightarrow> same_rows d d' \<or> same_rows (env d) d'"
  by (auto simp: create_direct_def Let_def ebind_Inr_iff insert_conversation_Inr_iff same_rows_def simp del: insert_all.simps
      split: if_split_asm option.split_asm sum.split_asm exc.split_asm dest!: insert_members_rows)

lemma created_message_sound:
  assumes "create_message S env fr now cid uid content ids d = Inr (r, d')" and "leaves_rows env"
    and "stored_sound contents (d, s)"
  shows "stored_sound contents (d', s)"
proof -
  have wf: "wf_db d" by (rule stored_sound_wf [OF assms(3)])
  have "attachments_ok contents (d', s)"
    by (rule sending_ok [OF assms(1)])
      (use assms(2,3) wf in \<open>simp_all add: leaves_rows_def stored_sound_def\<close>)
  moreover have "receipts d' = receipts (env d) @ new_receipts fr (recipients_of d cid uid)"
    using commit_message_InrD(1) [OF create_message_InrD(3) [OF wf_dbD(7) [OF wf] assms(1)]] by simp
  then have "receipts_ok d'"
    using assms(2,3) by (auto simp: receipts_ok_def stored_sound_def leaves_rows_def dest: new_receipts_set)
  ultimately show ?thesis by (simp add: stored_sound_def)
qed

lemma marked_sound:
  assumes "receipt_step S d d'" and "attachments d' = attachments d" and "stored_sound contents (d, s)"
  shows "stored_sound contents (d', s)"
  using receipt_step_grows [OF assms(1)] assms(2,3) receipts_grow_ok
  by (auto simp: stored_sound_def attachments_ok_def)

lemma mark_delivered_sound:
  "mark_delivered now mid us d = Inr (es, d') \<Longrightarrow> stored_sound contents (d, s) \<Longrightarrow> stored_sound contents (d', s)"
  by (rule marked_sound [OF receipt_step.delivered])
    (auto simp: mark_delivered_eq mark_rows_def dest!: report_Inr)

lemma mark_pending_sound:
  "mark_pending_delivered now uid d = Inr (es, d') \<Longrightarrow> stored_sound contents (d, s) \<Longrightarrow> stored_sound contents (d', s)"
  by (rule marked_sound [OF receipt_step.pending])
    (auto simp: mark_pending_delivered_def mark_pending_rows_def mark_rows_def dest!: report_Inr)

lemma mark_read_sound:
  "mark_read now cid mid uid d = Inr (es, d') \<Longrightarrow> stored_sound contents (d, s) \<Longrightarrow> stored_sound contents (d', s)"
  by (rule marked_sound [OF receipt_step.read]) (auto elim!: mark_read_InrD)

lemma reserved_sound:
  assumes "reserve S M aid created now cid uid filename mime_type file_size (d, s) = Inr (r, d')" and "stored_sound contents (d, s)"
  shows "stored_sound contents (d', s)"
proof -
  have "receipts d' = receipts d"
    using assms(1) by (auto simp: reserve_def Let_def ebind_Inr_iff insert_attachment_Inr_iff)
  with reserving_ok [OF assms(1)] assms(2) show ?thesis by (simp add: stored_sound_def receipts_ok_def)
qed

lemma completed_sound:
  assumes "object_store M contents" and "etags_faithful contents" and "\<forall>i. client_only contents (env i)"
    and "complete M sc D env now aid uid (d, s) = (r, d', s')" and "stored_sound contents (d, s)"
  shows "stored_sound contents (d', s')"
proof -
  have "receipts d' = receipts d"
    using complete_database [OF assms(4)] finalize_attachment_InrD by fastforce
  with completing_ok [OF assms(1-4)] assms(5) show ?thesis by (simp add: stored_sound_def receipts_ok_def)
qed

lemma cleaned_sound:
  assumes "object_store M contents" and "failed_removal_keeps M contents"
    and "cleanup_abandoned M locked cutoff limit (d, s) = (n, d', s')" and "stored_sound contents (d, s)"
  shows "stored_sound contents (d', s')"
proof -
  have "receipts d' = receipts d"
    using cleanup_result [OF assms(1) stored_sound_wf [OF assms(4)] assms(3)] by auto
  with cleaning_ok [OF assms(1-3)] assms(4) show ?thesis by (simp add: stored_sound_def receipts_ok_def)
qed

subsection \<open>Requests\<close>

definition sound_route :: "('s \<Rightarrow> string \<Rightarrow> stored_object option) \<Rightarrow> ('tok, 's) route \<Rightarrow> bool" where
  "sound_route contents route \<longleftrightarrow> (\<forall>x. stored_sound contents x \<longrightarrow> stored_sound contents (snd (route x)))"

lemma sound_committing:
  assumes "env' = id \<or> leaves_rows env'"
    and "\<And>d x d' s. stored_sound contents (d, s) \<Longrightarrow> f d = Inr (x, d') \<Longrightarrow> stored_sound contents (d', s)"
  shows "sound_route contents (committing status env' body f)"
  using assms by (auto simp: sound_route_def committing_def intro: stored_sound_others split: sum.splits)

lemma sound_reading: "sound_route contents (reading body f)"
  unfolding reading_def by (rule sound_committing) (auto simp: ebind_Inr_iff)

lemma sound_given: "(\<And>x. sound_route contents (route x)) \<Longrightarrow> sound_route contents (given V parsed route)"
  by (auto simp: sound_route_def given_def split: option.splits)

lemma sound_bounded: "sound_route contents route \<Longrightarrow> sound_route contents (bounded V ok route)"
  by (simp add: bounded_def sound_given)

lemma sound_with_user: "(\<And>u. sound_route contents (route u)) \<Longrightarrow> sound_route contents (with_user A F cred route)"
  by (auto simp: sound_route_def with_user_def split: sum.splits)

lemma sound_reserve_route: "sound_route contents (reserve_attachment_route A F u cid data)"
  by (auto simp: sound_route_def reserve_attachment_route_def committing_def split: sum.splits dest: reserved_sound)

lemma sound_download_route: "sound_route contents (download_attachment_route A u aid)"
  unfolding sound_route_def download_attachment_route_def
  by (clarify, rule sound_reading [unfolded sound_route_def, rule_format])

lemma sound_complete_route:
  assumes "object_store (ax_minio A) contents" and "etags_faithful contents" and "\<forall>i. client_only contents (mx_store_env F i)"
  shows "sound_route contents (complete_attachment_route A F u aid)"
  using completed_sound [OF assms]
  by (auto simp: sound_route_def complete_attachment_route_def split: prod.splits sum.splits)

lemma kept_rows_sound:
  assumes "leaves_rows env" and "stored_sound contents (d, s)" and "wf_db d'" and "same_rows d d' \<or> same_rows (env d) d'"
  shows "stored_sound contents (d', s)"
  using assms(4)
proof
  assume "same_rows d d'"
  then show ?thesis by (rule stored_sound_same [OF assms(2,3)])
next
  assume "same_rows (env d) d'"
  then show ?thesis by (rule stored_sound_same [OF stored_sound_others [OF assms(1,2)] assms(3)])
qed

lemma committed_sound:
  assumes "leaves_rows env" and "stored_sound contents (d, s)"
  shows "register L S env fr now data d = Inr (r, d') \<Longrightarrow> stored_sound contents (d', s)"
    and "login L S fr now cred d = Inr (r, d') \<Longrightarrow> stored_sound contents (d', s)"
    and "refresh L S env fr now tok d = Inr (r, d') \<Longrightarrow> stored_sound contents (d', s)"
    and "logout L S now tok d = Inr d' \<Longrightarrow> stored_sound contents (d', s)"
    and "create_direct env cid now a b d = Inr (c, d') \<Longrightarrow> stored_sound contents (d', s)"
proof -
  note keep = kept_rows_sound [OF assms]
  note wf = stored_sound_wf [OF assms(2)] leaves_rows_wf [OF assms(1) stored_sound_wf [OF assms(2)]]
  show "register L S env fr now data d = Inr (r, d') \<Longrightarrow> stored_sound contents (d', s)"
    by (rule keep, erule register_wf, rule wf(2), rule disjI2, erule register_rows)
  show "login L S fr now cred d = Inr (r, d') \<Longrightarrow> stored_sound contents (d', s)"
    by (rule keep, erule login_wf, rule wf(1), rule disjI1, erule login_rows)
  show "refresh L S env fr now tok d = Inr (r, d') \<Longrightarrow> stored_sound contents (d', s)"
    by (rule keep, erule refresh_wf, rule wf(2), rule disjI2, erule refresh_rows)
  show "logout L S now tok d = Inr d' \<Longrightarrow> stored_sound contents (d', s)"
    by (rule keep, erule logout_wf, rule wf(1), rule disjI1, erule logout_rows)
  show "create_direct env cid now a b d = Inr (c, d') \<Longrightarrow> stored_sound contents (d', s)"
    by (rule keep, erule create_direct_wf, rule wf(1), rule wf(2), erule create_direct_rows)
qed

lemma sound_serve:
  fixes A :: "('tok, 's) api"
  assumes "object_store (ax_minio A) contents" and "etags_faithful contents" and env: "leaves_rows (mx_env F)"
    and "\<forall>i. client_only contents (mx_store_env F i)"
  shows "sound_route contents (serve A V F cred req)"
proof -
  note rules = sound_with_user sound_given sound_bounded sound_reading
    sound_reserve_route sound_download_route sound_complete_route [OF assms(1,2,4)]
  have "sound_route contents (register_route A F data)" for data
    unfolding register_route_def by (rule sound_committing) (use env committed_sound(1) [OF env] in auto)
  moreover have "sound_route contents (login_route A F data)" for data
    unfolding login_route_def by (rule sound_committing) (use committed_sound(2) [OF env] in auto)
  moreover have "sound_route contents (refresh_route A F tok)" for tok
    unfolding refresh_route_def by (rule sound_committing) (use env committed_sound(3) [OF env] in auto)
  moreover have "sound_route contents (logout_route A F tok)" for tok
    unfolding logout_route_def
    by (rule sound_committing) (use committed_sound(4) [OF env] in \<open>auto simp: ebind_Inr_iff\<close>)
  moreover have "sound_route contents (create_conversation_route F u uid :: ('tok, 's) route)" for u uid
    unfolding create_conversation_route_def by (rule sound_committing) (use env committed_sound(5) [OF env] in auto)
  moreover have "sound_route contents (create_message_route A F u cid data)" for u cid data
    unfolding create_message_route_def by (rule sound_committing) (use env created_message_sound [OF _ env] in auto)
  ultimately show ?thesis
    by (cases req) (simp_all add: me_route_def search_users_route_def get_user_route_def list_conversations_route_def
        get_conversation_route_def list_messages_route_def rules)
qed

subsection \<open>Connections and their events\<close>

definition keeps_stored :: "('s \<Rightarrow> string \<Rightarrow> stored_object option) \<Rightarrow> 's \<Rightarrow> 'b world \<Rightarrow> 'b world \<Rightarrow> bool" where
  "keeps_stored contents s w w' \<longleftrightarrow> (stored_sound contents (wd_db w, s) \<longrightarrow> stored_sound contents (wd_db w', s))"

interpretation stored_effects: effects "keeps_stored contents s"
  by unfold_locales (auto simp: keeps_stored_def)

lemma stored_on_manager: "op_within (keeps_stored contents s) (on_manager f)"
  by (simp add: op_within_def on_manager_def keeps_stored_def case_prod_unfold Let_def)

lemma stored_asking: "op_within (keeps_stored contents s) (asking f)"
  by (simp add: asking_def stored_on_manager)

lemma stored_session:
  assumes "env = id \<or> leaves_rows env"
    and "\<And>d x d'. stored_sound contents (d, s) \<Longrightarrow> f d = Inr (x, d') \<Longrightarrow> stored_sound contents (d', s)"
  shows "op_within (keeps_stored contents s) (in_session env f)"
  using assms by (auto simp: op_within_def in_session_def keeps_stored_def intro: stored_sound_others split: sum.splits)

lemma stored_others: "leaves_rows f \<Longrightarrow> op_within (keeps_stored contents s) (interleave (\<lambda>w. w\<lparr>wd_db := f (wd_db w)\<rparr>))"
  by (simp add: op_within_def interleave_def keeps_stored_def stored_sound_others)

lemmas stored_rules = stored_effects.within_rules stored_on_manager stored_asking stored_others

lemma stored_message_send:
  assumes "\<forall>i. leaves_rows (hd_env h i)"
  shows "op_within (keeps_stored contents s) (handle_message_send S dt B h uid rid cid content ids)"
proof -
  have "op_within (keeps_stored contents s) (in_session (hd_env h 0) (\<lambda>d.
      ebind (create_message S (hd_env h 0) (hd_fresh h) (hd_now h) cid uid content ids d)
        (\<lambda>(message, d'). Inr ((message, member_ids d' cid), d'))))"
    by (rule stored_session) (use assms in \<open>auto simp: ebind_Inr_iff intro: created_message_sound\<close>)
  moreover have "op_within (keeps_stored contents s) (in_session id (mark_delivered now mid us))" for now mid us
    by (rule stored_session) (auto intro: mark_delivered_sound)
  ultimately show ?thesis
    unfolding handle_message_send_def using assms
    by (auto intro!: stored_rules split: prod.splits)
qed

lemma stored_message_read: "op_within (keeps_stored contents s) (handle_message_read dt B h uid rid cid mid)"
proof -
  have "op_within (keeps_stored contents s) (in_session id (\<lambda>d. ebind (mark_read (hd_now h) cid mid uid d)
      (\<lambda>(receipts, d'). Inr ((receipts, member_ids d' cid), d'))))"
    by (rule stored_session) (auto simp: ebind_Inr_iff intro: mark_read_sound)
  then show ?thesis
    unfolding handle_message_read_def by (auto intro!: stored_rules split: prod.splits)
qed

lemma stored_typing: "op_within (keeps_stored contents s) (handle_typing B h uid starting cid)"
proof -
  have "op_within (keeps_stored contents s) (in_session id (\<lambda>d.
      if \<not> is_member d cid uid then Inl conversation_forbidden else Inr (member_ids d cid, d)))"
    by (rule stored_session) (auto split: if_splits)
  then show ?thesis
    unfolding handle_typing_def by (auto simp: Let_def intro!: stored_rules)
qed

lemma stored_handle_event:
  "\<forall>i. leaves_rows (hd_env h i) \<Longrightarrow> op_within (keeps_stored contents s) (handle_event S dt B h uid event)"
  by (cases event) (auto simp: limited_def intro!: stored_rules stored_message_send stored_message_read stored_typing)

lemma stored_dispatch:
  assumes "\<forall>i. leaves_rows (hd_env h i)" and "dispatch_event S pu dt B h uid payload w = (r, w')"
    and "stored_sound contents (wd_db w, s)"
  shows "stored_sound contents (wd_db w', s)"
proof (cases "event_type_label payload")
  case (Inl e)
  then show ?thesis using assms(2,3) by (simp add: dispatch_event_def)
next
  case (Inr label)
  obtain r1 w1 where body: "event_body S pu dt B h uid payload w = (r1, w1)"
    by (cases "event_body S pu dt B h uid payload w")
  have first: "stored_sound contents (wd_db w1, s)"
  proof (cases "validate_client_event pu payload")
    case (Inr event)
    then show ?thesis
      using body stored_handle_event [OF assms(1), of contents s S dt B uid event] assms(3)
      by (auto simp: event_body_def op_within_def keeps_stored_def dest!: spec [of _ w])
  qed (use body assms(3) in \<open>simp add: event_body_def\<close>)
  from Inr body show ?thesis
  proof (cases rule: dispatch_cases)
    case accepted
    with first assms(2) show ?thesis by (auto simp: count_event_def)
  next
    case (refused outcome code msg)
    have "wd_db (snd (reply_error B uid payload label outcome code msg w1)) = wd_db w1"
      by (simp add: reply_error_def on_manager_def count_event_def case_prod_unfold Let_def)
    with refused(2) assms(2) have "wd_db w' = wd_db w1" by (metis snd_conv)
    with first show ?thesis by simp
  qed
qed

lemma stored_greet: "op_within (keeps_stored contents s) (greet dt B now uid ws b)"
proof -
  have "op_within (keeps_stored contents s) (in_session id (\<lambda>d.
      let peers = peer_ids d uid
      in ebind (mark_pending_delivered now uid d) (\<lambda>(pending, d').
           Inr ((peers, pending, map (\<lambda>r. (re_conversation_id r, member_ids d' (re_conversation_id r))) pending), d'))))"
    by (rule stored_session) (auto simp: Let_def ebind_Inr_iff intro: mark_pending_sound)
  then show ?thesis
    unfolding greet_def by (auto intro!: stored_rules split: prod.splits option.splits)
qed

lemma stored_offline:
  assumes "leaves_rows env"
  shows "op_within (keeps_stored contents s) (mark_user_offline B env seen now uid)"
proof -
  have "stored_sound contents (set_last_seen uid seen now d, s)" if "stored_sound contents (d, s)" for d
    by (rule stored_sound_same [OF that set_last_seen_wf [OF stored_sound_wf [OF that]]])
      (simp add: same_rows_def set_last_seen_frame)
  then have "op_within (keeps_stored contents s) (in_session id (\<lambda>d.
      let d' = set_last_seen uid seen now d in Inr (peer_ids d' uid, d')))"
    by (intro stored_session) (auto simp: Let_def)
  with assms show ?thesis
    unfolding mark_user_offline_def by (auto intro!: stored_rules)
qed

lemma stored_hang_up:
  assumes "leaves_rows env" and "hang_up B env now uid ws w = (r, w')" and "stored_sound contents (wd_db w, s)"
  shows "stored_sound contents (wd_db w', s)"
proof -
  have "op_within (keeps_stored contents s) (obind (asking (disconnect B uid ws)) (\<lambda>became_offline.
      if became_offline then mark_user_offline B env now now uid else oreturn ()))"
    using stored_offline [OF assms(1)] by (auto intro!: stored_rules)
  with assms(2,3) show ?thesis
    by (auto simp: hang_up_def op_within_def keeps_stored_def dest!: spec [of _ "w\<lparr>wd_connections := wd_connections w - 1\<rparr>"])
qed

subsection \<open>Every step keeps the backend sound\<close>

lemma offline_table:
  "op_within keeps_table (mark_user_offline B env seen now uid)"
  unfolding mark_user_offline_def
  by (rule keeps_wtells [of UNIV])
    (intro world_effects.within_bind wtells_others wtells_session wtells_send_anyone)

lemma table_step:
  "op_within keeps_table f \<Longrightarrow> f w = (r, w') \<Longrightarrow> manager_ok (wd_manager w) \<Longrightarrow> manager_ok (wd_manager w')"
  by (auto simp: op_within_def keeps_table_def dest!: spec [of _ w])

lemma stored_step:
  "op_within (keeps_stored contents s) f \<Longrightarrow> f w = (r, w') \<Longrightarrow> stored_sound contents (wd_db w, s) \<Longrightarrow>
    stored_sound contents (wd_db w', s)"
  by (auto simp: op_within_def keeps_stored_def dest!: spec [of _ w])

lemma connect_keeps: "op_within keeps_table (on_manager (connect B accepted uid ws))"
proof -
  have "manager_ok (snd (connect B accepted uid ws m))" if "manager_ok m" for m
    by (cases accepted; cases "connect B accepted uid ws m")
      (use that connect_connections(1) [OF that] in \<open>auto simp: connect_def\<close>)
  then show ?thesis
    by (simp add: op_within_def keeps_table_def on_manager_def case_prod_unfold Let_def)
qed

lemma deliver_keeps: "op_within keeps_table (on_manager (deliver_to_users_local B us event))"
proof -
  have "op_within (tells UNIV) (deliver_to_users_local B us event)" by (simp add: op_within_def tells_deliver)
  then show ?thesis by (rule keeps_wtells [OF wtells_on_manager])
qed

lemma expire_keeps: "op_within keeps_table (on_manager (tracker_expire B now key))"
proof -
  have "tells UNIV m (snd (tracker_expire B now key m))" for m
    by (auto simp: tracker_expire_def tells_refl split: option.splits
        intro: tells_trans [OF tells_tasks] tells_send_to_users [unfolded op_within_def, rule_format])
  then have "op_within (tells UNIV) (tracker_expire B now key)" by (simp add: op_within_def)
  then show ?thesis by (rule keeps_wtells [OF wtells_on_manager])
qed

lemma soundI: "stored_sound contents (wd_db w, s) \<Longrightarrow> manager_ok (wd_manager w) \<Longrightarrow> sound contents (w, s)"
  by (simp add: sound_def)

lemma soundD:
  assumes "sound contents x" and "x = (w, s)"
  shows "stored_sound contents (wd_db w, s)" and "manager_ok (wd_manager w)"
  using assms by (simp_all add: sound_def)

lemma sound_op:
  assumes "sound contents (w, s)" and "f w = (r, w')" and "op_within (keeps_stored contents s) f" and "op_within keeps_table f"
  shows "sound contents (w', s)"
  using soundD [OF assms(1) HOL.refl] stored_step [OF assms(3,2)] table_step [OF assms(4,2)] by (intro soundI)

lemma system_step_sound:
  assumes "object_store (ax_minio A) contents" and "etags_faithful contents" and "failed_removal_keeps (ax_minio A) contents"
    and "system_step A contents pu dt B x y" and "sound contents x"
  shows "sound contents y"
  using assms(4)
proof cases
  case (requests F V cred req w s resp d' s')
  note before = soundD [OF assms(5) requests(1)]
  have "sound_route contents (serve A V F cred req)" by (rule sound_serve [OF assms(1,2) requests(3,4)])
  with requests(5) before(1) have "stored_sound contents (d', s')"
    unfolding sound_route_def by (metis snd_conv)
  with requests(2) before(2) show ?thesis by (simp add: soundI)
next
  case (connects accepted uid ws w r w' s)
  show ?thesis unfolding connects(2)
    by (rule sound_op [OF assms(5) [unfolded connects(1)] connects(3) stored_on_manager connect_keeps])
next
  case (greets now uid ws became_online w r w' s)
  show ?thesis unfolding greets(2)
    by (rule sound_op [OF assms(5) [unfolded greets(1)] greets(3) stored_greet greet_keeps])
next
  case (sends h uid payload w r w' s)
  note before = soundD [OF assms(5) sends(1)]
  show ?thesis
    unfolding sends(2)
    by (rule soundI [OF stored_dispatch [OF sends(3,4) before(1)] table_step [OF dispatch_keeps sends(4) before(2)]])
next
  case (hangs_up env now uid ws w r w' s)
  note before = soundD [OF assms(5) hangs_up(1)]
  show ?thesis
    unfolding hangs_up(2)
    by (rule soundI [OF stored_hang_up [OF hangs_up(3,4) before(1)] conjunct1 [OF hang_up_releases [OF before(2) hangs_up(4)]]])
next
  case (expires env seen now uid w r w' s)
  show ?thesis unfolding expires(2)
    by (rule sound_op [OF assms(5) [unfolded expires(1)] expires(4) stored_offline [OF expires(3)] offline_table])
next
  case (delivers us event w r w' s)
  show ?thesis unfolding delivers(2)
    by (rule sound_op [OF assms(5) [unfolded delivers(1)] delivers(3) stored_on_manager deliver_keeps])
next
  case (stops_typing now key w r w' s)
  show ?thesis unfolding stops_typing(2)
    by (rule sound_op [OF assms(5) [unfolded stops_typing(1)] stops_typing(3) stored_on_manager expire_keeps])
next
  case (cleans_up locked cutoff limit w s n d' s')
  note before = soundD [OF assms(5) cleans_up(1)]
  show ?thesis
    unfolding cleans_up(2)
    by (rule soundI) (use cleaned_sound [OF assms(1,3) cleans_up(3) before(1)] before(2) in simp_all)
next
  case (uploads f w s)
  note before = soundD [OF assms(5) uploads(1)]
  have "attachment_ok contents (f s) a" if "attachment_ok contents s a" for a
    by (rule attachment_ok_store [OF that client_only_final [OF uploads(3)]])
  with before uploads(2) show ?thesis by (simp add: soundI stored_sound_def attachments_ok_def)
next
  case (network w s net backend)
  note before = soundD [OF assms(5) network(1)]
  then show ?thesis unfolding network(2) by (intro soundI) (simp_all add: manager_ok_def)
qed


subsection \<open>At a concrete state\<close>

definition stored_world :: "unit realtime world" where
  "stored_world = \<lparr>wd_db = stored_db, wd_manager = two_sockets, wd_events = [], wd_connections = 3\<rparr>"

definition sample_parse :: "string \<Rightarrow> uuid option" where
  "sample_parse s = (if s = ''c'' then Some 9 else if s = ''a'' then Some 81 else None)"

definition send_payload :: json where
  "send_payload = JObj [(''type'', JStr ''message.send''), (''conversation_id'', JStr ''c''), (''content'', JStr ''see''),
     (''attachment_ids'', JArr [JStr ''a''])]"

lemma stored_world_sends:
  "\<exists>a \<in> set (attachments (wd_db (snd (dispatch_event default_settings sample_parse isoformat idle_backend chat_handling 1 send_payload stored_world)))).
     a_message_id a \<noteq> None"
  by code_simp


end
