(* ===== verification/Schema.thy ===== *)
theory Schema
  imports Database
begin

section \<open>Tables, their constraints, and the statements that build them\<close>

text \<open>
  What a table is declared to be: its columns, its constraints and its indexes, with the DDL
  statements Alembic's operations emit, and what PostgreSQL makes of them.  A statement that names
  a table, a column or an index that is not there, or one that is there already, is refused:
  \<open>None\<close>.  Then what the SQLAlchemy models declare, as a mapped class is written, and the table each
  declaration stands for; last, when stored rows meet the constraints of a schema.
\<close>

subsection \<open>Tables\<close>

datatype sql_type = SqlUuid | SqlString nat | SqlBigInteger | SqlDateTime

datatype on_delete = Cascade | Restrict

record column =
  co_name :: string
  co_type :: sql_type
  co_nullable :: bool
  co_server_default :: "string option"

text \<open>The only check of the schema says that a column has one of some values.\<close>

datatype table_constraint =
    PrimaryKeyConstraint "string list"
  | UniqueConstraint "string option" "string list"
  | ForeignKeyConstraint "string list" string "string list" on_delete
  | CheckInConstraint string string "string list"

record table_index =
  ix_name :: string
  ix_columns :: "string list"
  ix_unique :: bool

record table_def =
  td_columns :: "column list"
  td_constraints :: "table_constraint list"
  td_indexes :: "table_index list"

type_synonym schema = "(string \<times> table_def) list"

abbreviation column_names :: "table_def \<Rightarrow> string list" where
  "column_names T \<equiv> map co_name (td_columns T)"

abbreviation table_names :: "schema \<Rightarrow> string list" where
  "table_names s \<equiv> map fst s"

definition index_names :: "schema \<Rightarrow> string list" where
  "index_names s = concat (map (\<lambda>(_, T). map ix_name (td_indexes T)) s)"

definition alter_table :: "string \<Rightarrow> (table_def \<Rightarrow> table_def) \<Rightarrow> schema \<Rightarrow> schema" where
  "alter_table t f s = map (\<lambda>(n, T). (n, if n = t then f T else T)) s"

text \<open>Columns a foreign key may refer to: a key of the table.\<close>

definition key_of_table :: "table_def \<Rightarrow> string list \<Rightarrow> bool" where
  "key_of_table T cols \<longleftrightarrow>
     (\<exists>k \<in> set (td_constraints T). case k of
        PrimaryKeyConstraint cs \<Rightarrow> cs = cols
      | UniqueConstraint _ cs \<Rightarrow> cs = cols
      | _ \<Rightarrow> False) \<or>
     (\<exists>i \<in> set (td_indexes T). ix_unique i \<and> ix_columns i = cols)"

fun constraint_columns :: "table_constraint \<Rightarrow> string list" where
  "constraint_columns (PrimaryKeyConstraint cols) = cols"
| "constraint_columns (UniqueConstraint _ cols) = cols"
| "constraint_columns (ForeignKeyConstraint cols _ _ _) = cols"
| "constraint_columns (CheckInConstraint _ col _) = [col]"

fun target_ok :: "schema \<Rightarrow> table_constraint \<Rightarrow> bool" where
  "target_ok s (ForeignKeyConstraint cols t cols' _) \<longleftrightarrow> length cols = length cols' \<and>
     (case map_of s t of None \<Rightarrow> False | Some T \<Rightarrow> key_of_table T cols')"
| "target_ok s _ \<longleftrightarrow> True"

definition table_ok :: "schema \<Rightarrow> table_def \<Rightarrow> bool" where
  "table_ok s T \<longleftrightarrow> distinct (column_names T) \<and>
     (\<forall>k \<in> set (td_constraints T). set (constraint_columns k) \<subseteq> set (column_names T) \<and> target_ok s k) \<and>
     (\<forall>i \<in> set (td_indexes T). set (ix_columns i) \<subseteq> set (column_names T))"

definition wf_schema :: "schema \<Rightarrow> bool" where
  "wf_schema s \<longleftrightarrow> distinct (table_names s) \<and> (\<forall>(_, T) \<in> set s. table_ok s T)"

subsection \<open>Statements\<close>

datatype ddl =
    CreateTable string "column list" "table_constraint list"
  | CreateIndex string string "string list" bool
  | AddColumn string column
  | DropTable string
  | DropColumn string string

fun refers_to :: "string \<Rightarrow> table_constraint \<Rightarrow> bool" where
  "refers_to t (ForeignKeyConstraint _ t' _ _) \<longleftrightarrow> t' = t"
| "refers_to t _ \<longleftrightarrow> False"

fun refers_to_column :: "string \<Rightarrow> string \<Rightarrow> table_constraint \<Rightarrow> bool" where
  "refers_to_column t c (ForeignKeyConstraint _ t' cols _) \<longleftrightarrow> t' = t \<and> c \<in> set cols"
| "refers_to_column t c _ \<longleftrightarrow> False"

text \<open>Another table has a foreign key with the property.\<close>

definition others_refer :: "schema \<Rightarrow> string \<Rightarrow> (table_constraint \<Rightarrow> bool) \<Rightarrow> bool" where
  "others_refer s t P \<longleftrightarrow> (\<exists>(n, T) \<in> set s. n \<noteq> t \<and> (\<exists>k \<in> set (td_constraints T). P k))"

text \<open>Dropping a column drops what involves it on its own table, and is refused for another's foreign key.\<close>

definition without_column :: "string \<Rightarrow> string \<Rightarrow> table_def \<Rightarrow> table_def" where
  "without_column t c T =
     \<lparr>td_columns = filter (\<lambda>x. co_name x \<noteq> c) (td_columns T),
      td_constraints = filter (\<lambda>k. c \<notin> set (constraint_columns k) \<and> \<not> refers_to_column t c k) (td_constraints T),
      td_indexes = filter (\<lambda>i. c \<notin> set (ix_columns i)) (td_indexes T)\<rparr>"

fun apply_ddl :: "ddl \<Rightarrow> schema \<Rightarrow> schema option" where
  "apply_ddl (CreateTable t cols cs) s =
     (let T = \<lparr>td_columns = cols, td_constraints = cs, td_indexes = []\<rparr>
      in if t \<notin> set (table_names s) \<and> t \<notin> set (index_names s) \<and> table_ok (s @ [(t, T)]) T
         then Some (s @ [(t, T)]) else None)"
| "apply_ddl (CreateIndex name t cols unique) s =
     (case map_of s t of
        None \<Rightarrow> None
      | Some T \<Rightarrow>
          if cols \<noteq> [] \<and> set cols \<subseteq> set (column_names T) \<and> name \<notin> set (index_names s) \<and> name \<notin> set (table_names s)
          then Some (alter_table t (\<lambda>T. T\<lparr>td_indexes := td_indexes T @
                 [\<lparr>ix_name = name, ix_columns = cols, ix_unique = unique\<rparr>]\<rparr>) s)
          else None)"
| "apply_ddl (AddColumn t c) s =
     (case map_of s t of
        None \<Rightarrow> None
      | Some T \<Rightarrow>
          if co_name c \<notin> set (column_names T) \<and> (co_nullable c \<or> co_server_default c \<noteq> None)
          then Some (alter_table t (\<lambda>T. T\<lparr>td_columns := td_columns T @ [c]\<rparr>) s)
          else None)"
| "apply_ddl (DropTable t) s =
     (if t \<in> set (table_names s) \<and> \<not> others_refer s t (refers_to t)
      then Some (filter (\<lambda>(n, _). n \<noteq> t) s) else None)"
| "apply_ddl (DropColumn t c) s =
     (case map_of s t of
        None \<Rightarrow> None
      | Some T \<Rightarrow>
          if c \<in> set (column_names T) \<and> \<not> others_refer s t (refers_to_column t c)
          then Some (alter_table t (without_column t c) s) else None)"

fun run_ddl :: "ddl list \<Rightarrow> schema \<Rightarrow> schema option" where
  "run_ddl [] s = Some s"
| "run_ddl (x # xs) s = Option.bind (apply_ddl x s) (run_ddl xs)"

subsection \<open>Statements keep schemas sound\<close>

lemma table_names_alter [simp]: "map fst (alter_table t f s) = map fst s"
  by (induction s) (auto simp: alter_table_def)

lemma map_of_alter [simp]: "map_of (alter_table t f s) u = (if u = t then map_option f (map_of s u) else map_of s u)"
  by (induction s) (auto simp: alter_table_def)

lemma alter_absent: "t \<notin> set (table_names s) \<Longrightarrow> alter_table t f s = s"
  unfolding alter_table_def by (rule map_idI) force

lemma alter_append [simp]: "alter_table t f (s @ s') = alter_table t f s @ alter_table t f s'"
  by (simp add: alter_table_def)

lemma alter_single [simp]: "alter_table t f [(u, T)] = [(u, if u = t then f T else T)]"
  by (simp add: alter_table_def)

lemma in_alter_tableE:
  assumes "(u, T) \<in> set (alter_table t f s)"
  obtains T' where "(u, T') \<in> set s" "T = (if u = t then f T' else T')"
  using assms by (force simp: alter_table_def)

lemma target_ok_mono:
  assumes "target_ok s k"
    and "\<And>cols u cols' rule T. k = ForeignKeyConstraint cols u cols' rule \<Longrightarrow> map_of s u = Some T \<Longrightarrow> key_of_table T cols' \<Longrightarrow>
      \<exists>T'. map_of s' u = Some T' \<and> key_of_table T' cols'"
  shows "target_ok s' k"
  using assms by (cases k) (fastforce split: option.splits)+

lemma key_of_table_columns: "table_ok s T \<Longrightarrow> key_of_table T cols \<Longrightarrow> set cols \<subseteq> set (column_names T)"
  unfolding table_ok_def key_of_table_def by (fastforce split: table_constraint.splits)

lemma wf_schemaD:
  assumes "wf_schema s" and "(t, T) \<in> set s"
  shows "table_ok s T" and "map_of s t = Some T"
  using assms by (auto simp: wf_schema_def)

lemma no_reference_to_absent:
  assumes "wf_schema s" and "t \<notin> set (table_names s)"
  shows "\<not> others_refer s u (refers_to t)"
proof
  assume "others_refer s u (refers_to t)"
  then obtain n T k where T: "(n, T) \<in> set s" and k: "k \<in> set (td_constraints T)" "refers_to t k"
    by (auto simp: others_refer_def)
  then have "target_ok s k" using wf_schemaD(1) [OF assms(1) T] by (auto simp: table_ok_def)
  moreover have "map_of s t = None" using assms(2) by (simp add: map_of_eq_None_iff)
  ultimately show False using k(2) by (cases k) auto
qed

lemma table_ok_altered:
  assumes "table_ok s T" and "\<And>k. k \<in> set (td_constraints T') \<Longrightarrow> k \<in> set (td_constraints T) \<and> target_ok s' k"
    and "distinct (column_names T')"
    and "\<And>k. k \<in> set (td_constraints T') \<Longrightarrow> set (constraint_columns k) \<subseteq> set (column_names T')"
    and "\<And>i. i \<in> set (td_indexes T') \<Longrightarrow> set (ix_columns i) \<subseteq> set (column_names T')"
  shows "table_ok s' T'"
  using assms by (simp add: table_ok_def)

lemma wf_alter:
  assumes "wf_schema s" and T: "map_of s t = Some T" and "distinct (column_names (f T))"
    and cons: "\<And>k. k \<in> set (td_constraints (f T)) \<Longrightarrow> k \<in> set (td_constraints T) \<and> set (constraint_columns k) \<subseteq> set (column_names (f T))"
    and idx: "\<And>i. i \<in> set (td_indexes (f T)) \<Longrightarrow> set (ix_columns i) \<subseteq> set (column_names (f T))"
    and keys: "\<And>u U k cols cols' rule. (u, U) \<in> set (alter_table t f s) \<Longrightarrow> k \<in> set (td_constraints U) \<Longrightarrow>
      k = ForeignKeyConstraint cols t cols' rule \<Longrightarrow> key_of_table T cols' \<Longrightarrow> key_of_table (f T) cols'"
  shows "wf_schema (alter_table t f s)"
proof -
  have "table_ok (alter_table t f s) U" if U: "(u, U) \<in> set (alter_table t f s)" for u U
  proof -
    obtain U' where U': "(u, U') \<in> set s" "U = (if u = t then f U' else U')" using U by (rule in_alter_tableE)
    have ok: "table_ok s U'" "map_of s u = Some U'" using wf_schemaD [OF assms(1) U'(1)] by auto
    have sub: "k \<in> set (td_constraints U) \<Longrightarrow> k \<in> set (td_constraints U')" for k
      using U'(2) ok(2) T cons by (auto split: if_splits)
    have tgt: "target_ok (alter_table t f s) k" if "k \<in> set (td_constraints U)" for k
    proof (rule target_ok_mono)
      show "target_ok s k" using ok(1) sub [OF that] by (simp add: table_ok_def)
    qed (use keys [OF U that] T in auto)
    show ?thesis
    proof (cases "u = t")
      case True
      then have "U = f T" using U'(2) ok(2) T by simp
      then show ?thesis using tgt assms(3) cons idx by (simp add: table_ok_def)
    next
      case False
      then show ?thesis using U'(2) ok(1) tgt by (simp add: table_ok_def)
    qed
  qed
  then show ?thesis using assms(1) by (auto simp: wf_schema_def)
qed

lemma filter_tables:
  assumes "wf_schema s" and "\<not> others_refer s t (refers_to t)"
  shows "wf_schema (filter (\<lambda>(n, _). n \<noteq> t) s)"
proof -
  let ?s = "filter (\<lambda>(n, _). n \<noteq> t) s"
  have map_of: "u \<noteq> t \<Longrightarrow> map_of ?s u = map_of s u" for u by (induction s) auto
  have "table_ok ?s U" if U: "(u, U) \<in> set ?s" for u U
  proof -
    have ok: "table_ok s U" "u \<noteq> t" "(u, U) \<in> set s" using wf_schemaD [OF assms(1)] U by auto
    have "target_ok ?s k" if k: "k \<in> set (td_constraints U)" for k
    proof (rule target_ok_mono)
      show "target_ok s k" using ok(1) k by (simp add: table_ok_def)
      show "\<exists>T'. map_of ?s v = Some T' \<and> key_of_table T' cols'"
        if "k = ForeignKeyConstraint cols v cols' rule" "map_of s v = Some T" "key_of_table T cols'" for cols v cols' rule T
      proof -
        have "\<not> refers_to t k" using assms(2) ok(2,3) k by (auto simp: others_refer_def)
        then have "v \<noteq> t" using that(1) by simp
        with that map_of show ?thesis by simp
      qed
    qed
    then show ?thesis using ok(1) by (simp add: table_ok_def)
  qed
  moreover have "distinct (table_names ?s)" using assms(1) by (simp add: wf_schema_def distinct_map_filter)
  ultimately show ?thesis by (auto simp: wf_schema_def)
qed

lemma append_table:
  assumes "wf_schema s" and "t \<notin> set (table_names s)" and "table_ok (s @ [(t, T)]) T"
  shows "wf_schema (s @ [(t, T)])"
proof -
  have "target_ok (s @ [(t, T)]) k" if "target_ok s k" for k
    by (rule target_ok_mono [OF that]) simp
  then have "table_ok s U \<Longrightarrow> table_ok (s @ [(t, T)]) U" for U by (simp add: table_ok_def)
  then show ?thesis using assms by (auto simp: wf_schema_def)
qed

lemma key_of_table_grow:
  assumes "key_of_table T cols" and "set (td_constraints T) \<subseteq> set (td_constraints T')" and "set (td_indexes T) \<subseteq> set (td_indexes T')"
  shows "key_of_table T' cols"
  using assms unfolding key_of_table_def by blast

lemma key_of_table_without:
  "key_of_table T cols \<Longrightarrow> c \<notin> set cols \<Longrightarrow> key_of_table (without_column t c T) cols"
  unfolding key_of_table_def without_column_def by (fastforce split: table_constraint.splits)

lemma drop_column_wf:
  assumes "wf_schema s" and T: "map_of s t = Some T" and "\<not> others_refer s t (refers_to_column t c)"
  shows "wf_schema (alter_table t (without_column t c) s)"
proof (rule wf_alter [OF assms(1) T])
  have ok: "table_ok s T" using wf_schemaD(1) [OF assms(1) map_of_SomeD [OF T]] .
  show "distinct (column_names (without_column t c T))"
    using ok by (simp add: table_ok_def without_column_def distinct_map_filter)
  show "k \<in> set (td_constraints T) \<and> set (constraint_columns k) \<subseteq> set (column_names (without_column t c T))"
    if "k \<in> set (td_constraints (without_column t c T))" for k
    using ok that by (fastforce simp: table_ok_def without_column_def)
  show "set (ix_columns i) \<subseteq> set (column_names (without_column t c T))"
    if "i \<in> set (td_indexes (without_column t c T))" for i
    using ok that by (fastforce simp: table_ok_def without_column_def)
  show "key_of_table (without_column t c T) cols'"
    if U: "(u, U) \<in> set (alter_table t (without_column t c) s)" and k: "k \<in> set (td_constraints U)"
      "k = ForeignKeyConstraint cols t cols' rule" and key: "key_of_table T cols'" for u U k cols cols' rule
  proof (rule key_of_table_without [OF key])
    obtain U' where U': "(u, U') \<in> set s" "U = (if u = t then without_column t c U' else U')"
      using U by (rule in_alter_tableE)
    show "c \<notin> set cols'"
    proof (cases "u = t")
      case True
      then show ?thesis using U'(2) k by (simp add: without_column_def)
    next
      case False
      with U' have "(u, U) \<in> set s" by simp
      then have "\<not> refers_to_column t c k" using assms(3) False k(1) by (auto simp: others_refer_def)
      then show ?thesis using k(2) by simp
    qed
  qed
qed

lemma apply_ddl_wf:
  assumes "wf_schema s" and "apply_ddl x s = Some s'"
  shows "wf_schema s'"
proof (cases x)
  case (CreateTable t cols cs)
  then show ?thesis
    using assms(2) append_table [OF assms(1), of t "\<lparr>td_columns = cols, td_constraints = cs, td_indexes = []\<rparr>"]
    by (auto simp: Let_def split: if_splits)
next
  case (CreateIndex name t cols u)
  let ?f = "\<lambda>T. T\<lparr>td_indexes := td_indexes T @ [\<lparr>ix_name = name, ix_columns = cols, ix_unique = u\<rparr>]\<rparr>"
  obtain T where T: "map_of s t = Some T" "set cols \<subseteq> set (column_names T)" "s' = alter_table t ?f s"
    using assms(2) CreateIndex by (auto split: option.splits if_splits)
  have ok: "table_ok s T" using wf_schemaD(1) [OF assms(1) map_of_SomeD [OF T(1)]] .
  show ?thesis unfolding T(3)
  proof (rule wf_alter [OF assms(1) T(1)])
    show "key_of_table (?f T) cols'" if "key_of_table T cols'" for cols'
      by (rule key_of_table_grow [OF that]) auto
  qed (use ok T(2) in \<open>auto simp: table_ok_def\<close>)
next
  case (AddColumn t c)
  let ?f = "\<lambda>T. T\<lparr>td_columns := td_columns T @ [c]\<rparr>"
  obtain T where T: "map_of s t = Some T" "co_name c \<notin> set (column_names T)" "s' = alter_table t ?f s"
    using assms(2) AddColumn by (auto split: option.splits if_splits)
  have ok: "table_ok s T" using wf_schemaD(1) [OF assms(1) map_of_SomeD [OF T(1)]] .
  show ?thesis unfolding T(3)
  proof (rule wf_alter [OF assms(1) T(1)])
    show "key_of_table (?f T) cols'" if "key_of_table T cols'" for cols'
      by (rule key_of_table_grow [OF that]) auto
  qed (use ok T(2) in \<open>auto simp: table_ok_def\<close>)
next
  case (DropTable t)
  then show ?thesis using assms filter_tables by (auto split: if_splits)
next
  case (DropColumn t c)
  then show ?thesis using assms drop_column_wf by (auto split: option.splits if_splits)
qed

lemma run_ddl_wf: "wf_schema s \<Longrightarrow> run_ddl xs s = Some s' \<Longrightarrow> wf_schema s'"
  by (induction xs arbitrary: s) (auto simp: bind_eq_Some_conv dest: apply_ddl_wf)

subsection \<open>Declarations of mapped classes\<close>

text \<open>
  A column as a mapped class declares it: its annotation, with \<open>Optional\<close> or without, and the
  arguments of \<open>mapped_column\<close>.  Without a \<open>nullable\<close> the annotation decides.
\<close>

record mapped_column =
  mc_name :: string
  mc_type :: sql_type
  mc_optional :: bool
  mc_nullable :: "bool option"
  mc_primary_key :: bool
  mc_unique :: bool
  mc_index :: bool
  mc_foreign_key :: "(string \<times> string \<times> on_delete) option"
  mc_server_default :: "string option"

record model =
  md_tablename :: string
  md_constraints :: "table_constraint list"
  md_indexes :: "(string \<times> string list) list"
  md_columns :: "mapped_column list"

definition mapped :: "string \<Rightarrow> sql_type \<Rightarrow> mapped_column" where
  "mapped name type = \<lparr>mc_name = name, mc_type = type, mc_optional = False, mc_nullable = None,
     mc_primary_key = False, mc_unique = False, mc_index = False, mc_foreign_key = None, mc_server_default = None\<rparr>"

definition nullable_column :: "mapped_column \<Rightarrow> mapped_column" where
  "nullable_column c = c\<lparr>mc_optional := True, mc_nullable := Some True\<rparr>"

definition primary_column :: "mapped_column \<Rightarrow> mapped_column" where
  "primary_column c = c\<lparr>mc_primary_key := True\<rparr>"

definition unique_column :: "mapped_column \<Rightarrow> mapped_column" where
  "unique_column c = c\<lparr>mc_unique := True\<rparr>"

definition index_column :: "mapped_column \<Rightarrow> mapped_column" where
  "index_column c = c\<lparr>mc_index := True\<rparr>"

definition reference_column :: "string \<Rightarrow> string \<Rightarrow> on_delete \<Rightarrow> mapped_column \<Rightarrow> mapped_column" where
  "reference_column t col rule c = c\<lparr>mc_foreign_key := Some (t, col, rule)\<rparr>"

text \<open>A time column the server fills in; \<open>func.now()\<close> and \<open>text("now()")\<close> render the same.\<close>

definition server_time :: "string \<Rightarrow> mapped_column" where
  "server_time name = (mapped name SqlDateTime)\<lparr>mc_nullable := Some False, mc_server_default := Some ''now()''\<rparr>"

definition column_of :: "mapped_column \<Rightarrow> column" where
  "column_of c = \<lparr>co_name = mc_name c, co_type = mc_type c,
     co_nullable = (\<not> mc_primary_key c \<and> (case mc_nullable c of Some b \<Rightarrow> b | None \<Rightarrow> mc_optional c)),
     co_server_default = mc_server_default c\<rparr>"

definition constraints_of :: "mapped_column \<Rightarrow> table_constraint list" where
  "constraints_of c =
     (case mc_foreign_key c of None \<Rightarrow> [] | Some (t, col, rule) \<Rightarrow> [ForeignKeyConstraint [mc_name c] t [col] rule]) @
     (if mc_unique c \<and> \<not> mc_index c then [UniqueConstraint None [mc_name c]] else [])"

definition index_of :: "string \<Rightarrow> mapped_column \<Rightarrow> table_index list" where
  "index_of t c =
     (if mc_index c
      then [\<lparr>ix_name = ''ix_'' @ t @ ''_'' @ mc_name c, ix_columns = [mc_name c], ix_unique = mc_unique c\<rparr>] else [])"

definition table_of_model :: "model \<Rightarrow> string \<times> table_def" where
  "table_of_model m = (md_tablename m,
     \<lparr>td_columns = map column_of (md_columns m),
      td_constraints = PrimaryKeyConstraint (map mc_name (filter mc_primary_key (md_columns m))) #
        md_constraints m @ concat (map constraints_of (md_columns m)),
      td_indexes = map (\<lambda>(n, cols). \<lparr>ix_name = n, ix_columns = cols, ix_unique = False\<rparr>) (md_indexes m) @
        concat (map (index_of (md_tablename m)) (md_columns m))\<rparr>)"

subsection \<open>The models (models/)\<close>

definition user_model :: model where
  "user_model = \<lparr>md_tablename = ''users'', md_constraints = [], md_indexes = [], md_columns =
    [primary_column (mapped ''id'' SqlUuid),
     unique_column (index_column (mapped ''username'' (SqlString 32))),
     unique_column (index_column (mapped ''email'' (SqlString 320))),
     mapped ''password_hash'' (SqlString 255),
     server_time ''created_at'',
     server_time ''updated_at'',
     nullable_column (mapped ''last_seen'' SqlDateTime)]\<rparr>"

definition refresh_token_model :: model where
  "refresh_token_model = \<lparr>md_tablename = ''refresh_tokens'', md_constraints = [], md_indexes = [], md_columns =
    [primary_column (mapped ''id'' SqlUuid),
     unique_column (index_column (mapped ''jti'' SqlUuid)),
     index_column (reference_column ''users'' ''id'' Cascade (mapped ''user_id'' SqlUuid)),
     mapped ''expires_at'' SqlDateTime,
     nullable_column (mapped ''revoked_at'' SqlDateTime),
     server_time ''created_at'']\<rparr>"

definition conversation_model :: model where
  "conversation_model = \<lparr>md_tablename = ''conversations'',
     md_constraints = [CheckInConstraint ''ck_conversations_type'' ''type'' [''direct'']], md_indexes = [], md_columns =
    [primary_column (mapped ''id'' SqlUuid),
     mapped ''type'' (SqlString 16),
     nullable_column (mapped ''name'' (SqlString 120)),
     nullable_column (unique_column (mapped ''direct_key'' (SqlString 73))),
     index_column (reference_column ''users'' ''id'' Restrict (mapped ''created_by'' SqlUuid)),
     server_time ''created_at'',
     server_time ''updated_at'']\<rparr>"

definition conversation_member_model :: model where
  "conversation_member_model = \<lparr>md_tablename = ''conversation_members'', md_constraints = [], md_indexes = [], md_columns =
    [primary_column (reference_column ''conversations'' ''id'' Cascade (mapped ''conversation_id'' SqlUuid)),
     primary_column (index_column (reference_column ''users'' ''id'' Cascade (mapped ''user_id'' SqlUuid))),
     mapped ''role'' (SqlString 16),
     server_time ''joined_at'']\<rparr>"

definition message_model :: model where
  "message_model = \<lparr>md_tablename = ''messages'', md_constraints = [],
     md_indexes = [(''ix_messages_conversation_created_id'', [''conversation_id'', ''created_at'', ''id''])], md_columns =
    [primary_column (mapped ''id'' SqlUuid),
     index_column (reference_column ''conversations'' ''id'' Cascade (mapped ''conversation_id'' SqlUuid)),
     index_column (reference_column ''users'' ''id'' Restrict (mapped ''sender_id'' SqlUuid)),
     mapped ''content'' (SqlString 4000),
     server_time ''created_at'',
     nullable_column (mapped ''edited_at'' SqlDateTime),
     nullable_column (mapped ''deleted_at'' SqlDateTime)]\<rparr>"

definition message_receipt_model :: model where
  "message_receipt_model = \<lparr>md_tablename = ''message_receipts'',
     md_constraints = [UniqueConstraint (Some ''uq_message_receipts_message_user'') [''message_id'', ''user_id'']],
     md_indexes = [], md_columns =
    [primary_column (mapped ''id'' SqlUuid),
     index_column (reference_column ''messages'' ''id'' Cascade (mapped ''message_id'' SqlUuid)),
     index_column (reference_column ''users'' ''id'' Cascade (mapped ''user_id'' SqlUuid)),
     nullable_column (mapped ''delivered_at'' SqlDateTime),
     nullable_column (mapped ''read_at'' SqlDateTime)]\<rparr>"

definition attachment_model :: model where
  "attachment_model = \<lparr>md_tablename = ''attachments'', md_constraints = [],
     md_indexes = [(''ix_attachments_pending_cleanup'', [''message_id'', ''created_at''])], md_columns =
    [primary_column (mapped ''id'' SqlUuid),
     index_column (reference_column ''conversations'' ''id'' Cascade (mapped ''conversation_id'' SqlUuid)),
     index_column (reference_column ''users'' ''id'' Cascade (mapped ''uploader_id'' SqlUuid)),
     nullable_column (index_column (reference_column ''messages'' ''id'' Cascade (mapped ''message_id'' SqlUuid))),
     mapped ''filename'' (SqlString 255),
     mapped ''mime_type'' (SqlString 120),
     mapped ''file_size'' SqlBigInteger,
     unique_column (mapped ''storage_key'' (SqlString 512)),
     server_time ''created_at'',
     nullable_column (mapped ''uploaded_at'' SqlDateTime)]\<rparr>"

definition models :: "model list" where
  "models = [attachment_model, conversation_model, conversation_member_model, message_model,
     message_receipt_model, refresh_token_model, user_model]"

subsection \<open>Rows that meet the constraints\<close>

datatype cell = Null | CUuid uuid | CText string | CInt int | CTime instant

type_synonym row = "string \<Rightarrow> cell"

fun fits :: "sql_type \<Rightarrow> cell \<Rightarrow> bool" where
  "fits SqlUuid (CUuid _) \<longleftrightarrow> True"
| "fits (SqlString n) (CText s) \<longleftrightarrow> length s \<le> n"
| "fits SqlBigInteger (CInt i) \<longleftrightarrow> - (2 ^ 63) \<le> i \<and> i < 2 ^ 63"
| "fits SqlDateTime (CTime _) \<longleftrightarrow> True"
| "fits _ _ \<longleftrightarrow> False"

text \<open>A uniqueness constraint does not compare rows with a null among its columns.\<close>

fun holds :: "(string \<Rightarrow> row list) \<Rightarrow> string \<Rightarrow> table_constraint \<Rightarrow> bool" where
  "holds rows t (PrimaryKeyConstraint cols) \<longleftrightarrow>
     distinct (map (\<lambda>r. map r cols) (rows t)) \<and> (\<forall>r \<in> set (rows t). Null \<notin> set (map r cols))"
| "holds rows t (UniqueConstraint _ cols) \<longleftrightarrow>
     distinct (filter (\<lambda>cells. Null \<notin> set cells) (map (\<lambda>r. map r cols) (rows t)))"
| "holds rows t (ForeignKeyConstraint cols t' cols' _) \<longleftrightarrow>
     (\<forall>r \<in> set (rows t). Null \<in> set (map r cols) \<or> map r cols \<in> set (map (\<lambda>r'. map r' cols') (rows t')))"
| "holds rows t (CheckInConstraint _ col vs) \<longleftrightarrow>
     (\<forall>r \<in> set (rows t). r col = Null \<or> r col \<in> set (map CText vs))"

definition constraints_hold :: "schema \<Rightarrow> (string \<Rightarrow> row list) \<Rightarrow> bool" where
  "constraints_hold s rows \<longleftrightarrow> (\<forall>(t, T) \<in> set s.
     (\<forall>k \<in> set (td_constraints T). holds rows t k) \<and>
     (\<forall>i \<in> set (td_indexes T). ix_unique i \<longrightarrow> holds rows t (UniqueConstraint None (ix_columns i))))"

definition cells_fit :: "schema \<Rightarrow> (string \<Rightarrow> row list) \<Rightarrow> bool" where
  "cells_fit s rows \<longleftrightarrow> (\<forall>(t, T) \<in> set s. \<forall>r \<in> set (rows t). \<forall>c \<in> set (td_columns T).
     co_nullable c \<and> r (co_name c) = Null \<or> fits (co_type c) (r (co_name c)))"

text \<open>The stored rows, as the mapped classes name their columns.\<close>

definition cells :: "(string \<times> cell) list \<Rightarrow> row" where
  "cells kvs c = (case map_of kvs c of None \<Rightarrow> Null | Some v \<Rightarrow> v)"

definition or_null :: "('a \<Rightarrow> cell) \<Rightarrow> 'a option \<Rightarrow> cell" where
  "or_null f x = (case x of None \<Rightarrow> Null | Some v \<Rightarrow> f v)"

definition user_cells :: "user \<Rightarrow> row" where
  "user_cells u = cells [(''id'', CUuid (u_id u)), (''username'', CText (u_username u)), (''email'', CText (u_email u)),
     (''password_hash'', CText (u_password_hash u)), (''created_at'', CTime (u_created_at u)),
     (''updated_at'', CTime (u_updated_at u)), (''last_seen'', or_null CTime (u_last_seen u))]"

definition refresh_token_cells :: "refresh_token \<Rightarrow> row" where
  "refresh_token_cells t = cells [(''id'', CUuid (rt_id t)), (''jti'', CUuid (rt_jti t)), (''user_id'', CUuid (rt_user_id t)),
     (''expires_at'', CTime (rt_expires_at t)), (''revoked_at'', or_null CTime (rt_revoked_at t)),
     (''created_at'', CTime (rt_created_at t))]"

definition conversation_cells :: "conversation \<Rightarrow> row" where
  "conversation_cells c = cells [(''id'', CUuid (c_id c)), (''type'', CText (c_type c)), (''name'', or_null CText (c_name c)),
     (''direct_key'', or_null CText (c_direct_key c)), (''created_by'', CUuid (c_created_by c)),
     (''created_at'', CTime (c_created_at c)), (''updated_at'', CTime (c_updated_at c))]"

definition member_cells :: "conversation_member \<Rightarrow> row" where
  "member_cells m = cells [(''conversation_id'', CUuid (cm_conversation_id m)), (''user_id'', CUuid (cm_user_id m)),
     (''role'', CText (cm_role m)), (''joined_at'', CTime (cm_joined_at m))]"

definition message_cells :: "message \<Rightarrow> row" where
  "message_cells m = cells [(''id'', CUuid (m_id m)), (''conversation_id'', CUuid (m_conversation_id m)),
     (''sender_id'', CUuid (m_sender_id m)), (''content'', CText (m_content m)), (''created_at'', CTime (m_created_at m)),
     (''edited_at'', or_null CTime (m_edited_at m)), (''deleted_at'', or_null CTime (m_deleted_at m))]"

definition receipt_cells :: "message_receipt \<Rightarrow> row" where
  "receipt_cells r = cells [(''id'', CUuid (r_id r)), (''message_id'', CUuid (r_message_id r)), (''user_id'', CUuid (r_user_id r)),
     (''delivered_at'', or_null CTime (r_delivered_at r)), (''read_at'', or_null CTime (r_read_at r))]"

definition attachment_cells :: "attachment \<Rightarrow> row" where
  "attachment_cells a = cells [(''id'', CUuid (a_id a)), (''conversation_id'', CUuid (a_conversation_id a)),
     (''uploader_id'', CUuid (a_uploader_id a)), (''message_id'', or_null CUuid (a_message_id a)),
     (''filename'', CText (a_filename a)), (''mime_type'', CText (a_mime_type a)), (''file_size'', CInt (a_file_size a)),
     (''storage_key'', CText (a_storage_key a)), (''created_at'', CTime (a_created_at a)),
     (''uploaded_at'', or_null CTime (a_uploaded_at a))]"

definition rows_of :: "db \<Rightarrow> string \<Rightarrow> row list" where
  "rows_of d t = (case map_of
     [(''users'', map user_cells (users d)), (''refresh_tokens'', map refresh_token_cells (refresh_tokens d)),
      (''conversations'', map conversation_cells (conversations d)), (''conversation_members'', map member_cells (members d)),
      (''messages'', map message_cells (messages d)), (''message_receipts'', map receipt_cells (receipts d)),
      (''attachments'', map attachment_cells (attachments d))] t of None \<Rightarrow> [] | Some rows \<Rightarrow> rows)"

lemmas cell_defs = user_cells_def refresh_token_cells_def conversation_cells_def member_cells_def message_cells_def
  receipt_cells_def attachment_cells_def cells_def or_null_def

lemmas model_defs = user_model_def refresh_token_model_def conversation_model_def conversation_member_model_def
  message_model_def message_receipt_model_def attachment_model_def table_of_model_def column_of_def constraints_of_def
  index_of_def mapped_def nullable_column_def primary_column_def unique_column_def index_column_def
  reference_column_def server_time_def

end
