(* ===== verification/Migrations.thy ===== *)
theory Migrations
  imports Schema Settings
begin

section \<open>The migrations (alembic/)\<close>

text \<open>
  The four revisions as the statements their \<open>upgrade\<close> and \<open>downgrade\<close> run, and Alembic's walk from the
  stored version along \<open>down_revision\<close> to the newest, in one transaction.  The properties: the
  migrations build exactly what the models declare, a downgrade undoes its upgrade, and the
  constraints of the migrated tables are those the rest of the development relies on.
\<close>

subsection \<open>The revisions\<close>

definition col :: "string \<Rightarrow> sql_type \<Rightarrow> bool \<Rightarrow> column" where
  "col name type nullable = \<lparr>co_name = name, co_type = type, co_nullable = nullable, co_server_default = None\<rparr>"

definition time_col :: "string \<Rightarrow> column" where
  "time_col name = \<lparr>co_name = name, co_type = SqlDateTime, co_nullable = False, co_server_default = Some ''now()''\<rparr>"

definition upgrade_0001 :: "ddl list" where
  "upgrade_0001 =
    [CreateTable ''users''
       [col ''id'' SqlUuid False,
        col ''username'' (SqlString 32) False,
        col ''email'' (SqlString 320) False,
        col ''password_hash'' (SqlString 255) False,
        time_col ''created_at'',
        time_col ''updated_at'']
       [PrimaryKeyConstraint [''id'']],
     CreateIndex ''ix_users_email'' ''users'' [''email''] True,
     CreateIndex ''ix_users_username'' ''users'' [''username''] True,
     CreateTable ''refresh_tokens''
       [col ''id'' SqlUuid False,
        col ''jti'' SqlUuid False,
        col ''user_id'' SqlUuid False,
        col ''expires_at'' SqlDateTime False,
        col ''revoked_at'' SqlDateTime True,
        time_col ''created_at'']
       [ForeignKeyConstraint [''user_id''] ''users'' [''id''] Cascade,
        PrimaryKeyConstraint [''id'']],
     CreateIndex ''ix_refresh_tokens_jti'' ''refresh_tokens'' [''jti''] True,
     CreateIndex ''ix_refresh_tokens_user_id'' ''refresh_tokens'' [''user_id''] False]"

definition downgrade_0001 :: "ddl list" where
  "downgrade_0001 = [DropTable ''refresh_tokens'', DropTable ''users'']"

definition upgrade_0002 :: "ddl list" where
  "upgrade_0002 =
    [CreateTable ''conversations''
       [col ''id'' SqlUuid False,
        col ''type'' (SqlString 16) False,
        col ''name'' (SqlString 120) True,
        col ''direct_key'' (SqlString 73) True,
        col ''created_by'' SqlUuid False,
        time_col ''created_at'',
        time_col ''updated_at'']
       [CheckInConstraint ''ck_conversations_type'' ''type'' [''direct''],
        ForeignKeyConstraint [''created_by''] ''users'' [''id''] Restrict,
        PrimaryKeyConstraint [''id''],
        UniqueConstraint None [''direct_key'']],
     CreateIndex ''ix_conversations_created_by'' ''conversations'' [''created_by''] False,
     CreateTable ''conversation_members''
       [col ''conversation_id'' SqlUuid False,
        col ''user_id'' SqlUuid False,
        col ''role'' (SqlString 16) False,
        time_col ''joined_at'']
       [ForeignKeyConstraint [''conversation_id''] ''conversations'' [''id''] Cascade,
        ForeignKeyConstraint [''user_id''] ''users'' [''id''] Cascade,
        PrimaryKeyConstraint [''conversation_id'', ''user_id'']],
     CreateIndex ''ix_conversation_members_user_id'' ''conversation_members'' [''user_id''] False,
     CreateTable ''messages''
       [col ''id'' SqlUuid False,
        col ''conversation_id'' SqlUuid False,
        col ''sender_id'' SqlUuid False,
        col ''content'' (SqlString 4000) False,
        time_col ''created_at'',
        col ''edited_at'' SqlDateTime True,
        col ''deleted_at'' SqlDateTime True]
       [ForeignKeyConstraint [''conversation_id''] ''conversations'' [''id''] Cascade,
        ForeignKeyConstraint [''sender_id''] ''users'' [''id''] Restrict,
        PrimaryKeyConstraint [''id'']],
     CreateIndex ''ix_messages_conversation_id'' ''messages'' [''conversation_id''] False,
     CreateIndex ''ix_messages_sender_id'' ''messages'' [''sender_id''] False,
     CreateIndex ''ix_messages_conversation_created_id'' ''messages'' [''conversation_id'', ''created_at'', ''id''] False]"

definition downgrade_0002 :: "ddl list" where
  "downgrade_0002 = [DropTable ''messages'', DropTable ''conversation_members'', DropTable ''conversations'']"

definition upgrade_0003 :: "ddl list" where
  "upgrade_0003 =
    [AddColumn ''users'' (col ''last_seen'' SqlDateTime True),
     CreateTable ''message_receipts''
       [col ''id'' SqlUuid False,
        col ''message_id'' SqlUuid False,
        col ''user_id'' SqlUuid False,
        col ''delivered_at'' SqlDateTime True,
        col ''read_at'' SqlDateTime True]
       [ForeignKeyConstraint [''message_id''] ''messages'' [''id''] Cascade,
        ForeignKeyConstraint [''user_id''] ''users'' [''id''] Cascade,
        PrimaryKeyConstraint [''id''],
        UniqueConstraint (Some ''uq_message_receipts_message_user'') [''message_id'', ''user_id'']],
     CreateIndex ''ix_message_receipts_message_id'' ''message_receipts'' [''message_id''] False,
     CreateIndex ''ix_message_receipts_user_id'' ''message_receipts'' [''user_id''] False]"

definition downgrade_0003 :: "ddl list" where
  "downgrade_0003 = [DropTable ''message_receipts'', DropColumn ''users'' ''last_seen'']"

definition upgrade_0004 :: "ddl list" where
  "upgrade_0004 =
    [CreateTable ''attachments''
       [col ''id'' SqlUuid False,
        col ''conversation_id'' SqlUuid False,
        col ''uploader_id'' SqlUuid False,
        col ''message_id'' SqlUuid True,
        col ''filename'' (SqlString 255) False,
        col ''mime_type'' (SqlString 120) False,
        col ''file_size'' SqlBigInteger False,
        col ''storage_key'' (SqlString 512) False,
        time_col ''created_at'',
        col ''uploaded_at'' SqlDateTime True]
       [ForeignKeyConstraint [''conversation_id''] ''conversations'' [''id''] Cascade,
        ForeignKeyConstraint [''message_id''] ''messages'' [''id''] Cascade,
        ForeignKeyConstraint [''uploader_id''] ''users'' [''id''] Cascade,
        PrimaryKeyConstraint [''id''],
        UniqueConstraint None [''storage_key'']],
     CreateIndex ''ix_attachments_conversation_id'' ''attachments'' [''conversation_id''] False,
     CreateIndex ''ix_attachments_message_id'' ''attachments'' [''message_id''] False,
     CreateIndex ''ix_attachments_uploader_id'' ''attachments'' [''uploader_id''] False,
     CreateIndex ''ix_attachments_pending_cleanup'' ''attachments'' [''message_id'', ''created_at''] False]"

definition downgrade_0004 :: "ddl list" where
  "downgrade_0004 = [DropTable ''attachments'']"

record revision =
  rv_revision :: string
  rv_down_revision :: "string option"
  rv_upgrade :: "ddl list"
  rv_downgrade :: "ddl list"

definition revision_0001 :: revision where
  "revision_0001 = \<lparr>rv_revision = ''20260905_0001'', rv_down_revision = None,
     rv_upgrade = upgrade_0001, rv_downgrade = downgrade_0001\<rparr>"

definition revision_0002 :: revision where
  "revision_0002 = \<lparr>rv_revision = ''20260905_0002'', rv_down_revision = Some ''20260905_0001'',
     rv_upgrade = upgrade_0002, rv_downgrade = downgrade_0002\<rparr>"

definition revision_0003 :: revision where
  "revision_0003 = \<lparr>rv_revision = ''20260905_0003'', rv_down_revision = Some ''20260905_0002'',
     rv_upgrade = upgrade_0003, rv_downgrade = downgrade_0003\<rparr>"

definition revision_0004 :: revision where
  "revision_0004 = \<lparr>rv_revision = ''20261105_0004'', rv_down_revision = Some ''20260905_0003'',
     rv_upgrade = upgrade_0004, rv_downgrade = downgrade_0004\<rparr>"

definition revisions :: "revision list" where
  "revisions = [revision_0001, revision_0002, revision_0003, revision_0004]"

subsection \<open>Running them\<close>

text \<open>
  The upgrades that lead on from a stored version; as many steps as there are revisions are enough,
  as each is taken at most once.  A stored version no script declares is refused.
\<close>

fun upgrade_path :: "nat \<Rightarrow> revision list \<Rightarrow> string option \<Rightarrow> revision list" where
  "upgrade_path 0 rs v = []"
| "upgrade_path (Suc n) rs v =
     (case List.find (\<lambda>r. rv_down_revision r = v) rs of
        None \<Rightarrow> []
      | Some r \<Rightarrow> r # upgrade_path n rs (Some (rv_revision r)))"

fun run_revisions :: "revision list \<Rightarrow> string option \<times> schema \<Rightarrow> (string option \<times> schema) option" where
  "run_revisions [] x = Some x"
| "run_revisions (r # rs) (v, s) =
     (case run_ddl (rv_upgrade r) s of
        None \<Rightarrow> None
      | Some s' \<Rightarrow> run_revisions rs (Some (rv_revision r), s'))"

text \<open>One transaction around all of it: what is refused on the way leaves the database as it was.\<close>

definition do_run_migrations :: "string option \<times> schema \<Rightarrow> bool \<times> string option \<times> schema" where
  "do_run_migrations x =
     (if fst x \<noteq> None \<and> fst x \<notin> set (map (Some \<circ> rv_revision) revisions) then (False, x)
      else case run_revisions (upgrade_path (length revisions) revisions (fst x)) x of
        None \<Rightarrow> (False, x)
      | Some y \<Rightarrow> (True, y))"

text \<open>
  Offline, the statements of all revisions are written out for the configured database instead of
  being run; online they run over a connection, when there is one (\<open>connected\<close>).
\<close>

definition run_migrations_offline :: "settings \<Rightarrow> string \<times> ddl list" where
  "run_migrations_offline S =
     (database_url S, concat (map rv_upgrade (upgrade_path (length revisions) revisions None)))"

definition run_async_migrations :: "unit result \<Rightarrow> string option \<times> schema \<Rightarrow> bool \<times> string option \<times> schema" where
  "run_async_migrations connected x = (case connected of Inl _ \<Rightarrow> (False, x) | Inr _ \<Rightarrow> do_run_migrations x)"

definition run_environment ::
  "settings \<Rightarrow> bool \<Rightarrow> unit result \<Rightarrow> string option \<times> schema \<Rightarrow> (string \<times> ddl list) option \<times> bool \<times> string option \<times> schema" where
  "run_environment S offline connected x =
     (if offline then (Some (run_migrations_offline S), True, x) else (None, run_async_migrations connected x))"

lemmas revision_defs = revisions_def revision_0001_def revision_0002_def revision_0003_def revision_0004_def

lemmas upgrade_defs = upgrade_0001_def upgrade_0002_def upgrade_0003_def upgrade_0004_def

lemmas downgrade_defs = downgrade_0001_def downgrade_0002_def downgrade_0003_def downgrade_0004_def

subsection \<open>Building the tables\<close>

definition same_table :: "table_def \<Rightarrow> table_def \<Rightarrow> bool" where
  "same_table T T' \<longleftrightarrow> td_columns T = td_columns T' \<and> set (td_constraints T) = set (td_constraints T') \<and>
     set (td_indexes T) = set (td_indexes T')"

text \<open>The same tables, with their columns in order and their constraints and indexes in any order.\<close>

definition same_schema :: "schema \<Rightarrow> schema \<Rightarrow> bool" where
  "same_schema s s' \<longleftrightarrow> set (table_names s) = set (table_names s') \<and>
     (\<forall>(t, T) \<in> set s. case map_of s' t of None \<Rightarrow> False | Some T' \<Rightarrow> same_table T T')"

definition released :: "nat \<Rightarrow> (string option \<times> schema) option" where
  "released k = run_revisions (take k revisions) (None, [])"

lemma run_ddl_append: "run_ddl (xs @ ys) s = Option.bind (run_ddl xs s) (run_ddl ys)"
  by (induction xs arbitrary: s) (auto split: Option.bind_splits)

lemma all_upgrades:
  "case run_ddl (upgrade_0001 @ upgrade_0002 @ upgrade_0003 @ upgrade_0004) [] of None \<Rightarrow> False
   | Some s \<Rightarrow> same_schema s (map table_of_model models)"
  by code_simp

lemma upgrade_paths:
  "upgrade_path (length revisions) revisions None = revisions"
  "upgrade_path (length revisions) revisions (Some ''20260905_0001'') = [revision_0002, revision_0003, revision_0004]"
  "upgrade_path (length revisions) revisions (Some ''20260905_0002'') = [revision_0003, revision_0004]"
  "upgrade_path (length revisions) revisions (Some ''20260905_0003'') = [revision_0004]"
  "upgrade_path (length revisions) revisions (Some ''20261105_0004'') = []"
  by (simp_all add: revision_defs)

lemma upgrade_chain:
  obtains s1 s2 s3 s4 where "run_ddl upgrade_0001 [] = Some s1" "run_ddl upgrade_0002 s1 = Some s2"
    "run_ddl upgrade_0003 s2 = Some s3" "run_ddl upgrade_0004 s3 = Some s4" "same_schema s4 (map table_of_model models)"
  using all_upgrades unfolding run_ddl_append by (auto simp: bind_eq_Some_conv split: option.splits Option.bind_splits)

lemma migrate_from:
  assumes "run_ddl upgrade_0001 [] = Some s1" "run_ddl upgrade_0002 s1 = Some s2"
    "run_ddl upgrade_0003 s2 = Some s3" "run_ddl upgrade_0004 s3 = Some s4"
  shows "do_run_migrations (None, []) = (True, Some ''20261105_0004'', s4)"
    "do_run_migrations (Some ''20260905_0001'', s1) = (True, Some ''20261105_0004'', s4)"
    "do_run_migrations (Some ''20260905_0002'', s2) = (True, Some ''20261105_0004'', s4)"
    "do_run_migrations (Some ''20260905_0003'', s3) = (True, Some ''20261105_0004'', s4)"
    "do_run_migrations (Some ''20261105_0004'', s4) = (True, Some ''20261105_0004'', s4)"
  by (simp_all add: do_run_migrations_def upgrade_paths assms del: upgrade_path.simps) (simp_all add: revision_defs assms)

text \<open>Running the offline script on an empty database gives what the online migration gives.\<close>

lemma offline_script_equals_online:
  "\<exists>s. run_ddl (snd (run_migrations_offline S)) [] = Some s \<and>
    run_async_migrations (Inr ()) (None, []) = (True, Some ''20261105_0004'', s)"
proof -
  obtain s1 s2 s3 s4 where chain: "run_ddl upgrade_0001 [] = Some s1" "run_ddl upgrade_0002 s1 = Some s2"
    "run_ddl upgrade_0003 s2 = Some s3" "run_ddl upgrade_0004 s3 = Some s4"
    using upgrade_chain by metis
  then have "run_ddl (upgrade_0001 @ upgrade_0002 @ upgrade_0003 @ upgrade_0004) [] = Some s4"
    by (simp add: run_ddl_append)
  moreover have "snd (run_migrations_offline S) = upgrade_0001 @ upgrade_0002 @ upgrade_0003 @ upgrade_0004"
    unfolding run_migrations_offline_def upgrade_paths by (simp add: revision_defs)
  ultimately show ?thesis using migrate_from(1) [OF chain] by (simp add: run_async_migrations_def)
qed

subsection \<open>Undoing an upgrade\<close>

lemma others_refer_append: "others_refer (s @ s') t P \<longleftrightarrow> others_refer s t P \<or> others_refer s' t P"
  by (auto simp: others_refer_def)

lemma drop_appended: "t \<notin> set (table_names s) \<Longrightarrow> filter (\<lambda>(n, _). n \<noteq> t) s = s"
  by (force simp: filter_id_conv)

text \<open>What statements that only create tables, and indexes on those, add to a schema.\<close>

fun builds :: "ddl list \<Rightarrow> string list \<Rightarrow> bool" where
  "builds [] ts \<longleftrightarrow> True"
| "builds (CreateTable t _ _ # xs) ts \<longleftrightarrow> builds xs (ts @ [t])"
| "builds (CreateIndex _ t _ _ # xs) ts \<longleftrightarrow> t \<in> set ts \<and> builds xs ts"
| "builds _ ts \<longleftrightarrow> False"

fun built :: "ddl list \<Rightarrow> schema \<Rightarrow> schema" where
  "built (CreateTable t cols cs # xs) new =
     built xs (new @ [(t, \<lparr>td_columns = cols, td_constraints = cs, td_indexes = []\<rparr>)])"
| "built (CreateIndex name t cols unique # xs) new =
     built xs (alter_table t (\<lambda>T. T\<lparr>td_indexes := td_indexes T @ [\<lparr>ix_name = name, ix_columns = cols, ix_unique = unique\<rparr>]\<rparr>) new)"
| "built _ new = new"

lemma run_builds:
  assumes "run_ddl xs (s @ new) = Some s'" and "builds xs (table_names new)"
    and "set (table_names s) \<inter> set (table_names new) = {}"
  shows "s' = s @ built xs new \<and> set (table_names s) \<inter> set (table_names (built xs new)) = {}"
  using assms
proof (induction xs arbitrary: new)
  case (Cons x xs)
  then show ?case
  proof (cases x)
    case (CreateTable t cols cs)
    let ?new = "new @ [(t, \<lparr>td_columns = cols, td_constraints = cs, td_indexes = []\<rparr>)]"
    have "t \<notin> set (table_names (s @ new))" "run_ddl xs (s @ ?new) = Some s'"
      using Cons.prems(1) CreateTable by (auto simp: bind_eq_Some_conv Let_def split: if_splits)
    then show ?thesis
      using Cons.IH [of ?new] Cons.prems(2,3) CreateTable by auto
  next
    case (CreateIndex name t cols u)
    let ?f = "\<lambda>T. T\<lparr>td_indexes := td_indexes T @ [\<lparr>ix_name = name, ix_columns = cols, ix_unique = u\<rparr>]\<rparr>"
    have "t \<notin> set (table_names s)" using Cons.prems(2,3) CreateIndex by auto
    then have "run_ddl xs (s @ alter_table t ?f new) = Some s'"
      using Cons.prems(1) CreateIndex by (auto simp: bind_eq_Some_conv alter_absent split: if_splits option.splits)
    then show ?thesis
      using Cons.IH [of "alter_table t ?f new"] Cons.prems(2,3) CreateIndex by simp
  qed simp_all
qed simp

lemma drop_built:
  assumes "wf_schema s" and "set (table_names s) \<inter> set (table_names new) = {}"
    and "run_ddl (map DropTable ts) new = Some []"
  shows "run_ddl (map DropTable ts) (s @ new) = Some s"
  using assms(2,3)
proof (induction ts arbitrary: new)
  case (Cons t ts)
  let ?new = "filter (\<lambda>(n, _). n \<noteq> t) new"
  have t: "t \<in> set (table_names new)" "\<not> others_refer new t (refers_to t)" and run: "run_ddl (map DropTable ts) ?new = Some []"
    using Cons.prems(2) by (auto simp: bind_eq_Some_conv split: if_splits)
  have absent: "t \<notin> set (table_names s)" using t(1) Cons.prems(1) by auto
  have "run_ddl (map DropTable ts) (s @ ?new) = Some s"
    by (rule Cons.IH [OF _ run]) (use Cons.prems(1) in auto)
  then show ?case
    using t no_reference_to_absent [OF assms(1) absent] drop_appended [OF absent] by (simp add: others_refer_append)
qed simp

lemma undo_tables:
  assumes "wf_schema s" and "run_ddl xs s = Some s'" and "builds xs []" and "run_ddl (map DropTable ts) (built xs []) = Some []"
  shows "run_ddl (map DropTable ts) s' = Some s"
  using run_builds [of xs s "[]"] drop_built [OF assms(1)] assms(2-4) by auto

lemma undo_added_column:
  assumes "wf_schema s" and "apply_ddl (AddColumn t c) s = Some s'"
  shows "apply_ddl (DropColumn t (co_name c)) s' = Some s"
proof -
  obtain T where T: "map_of s t = Some T" "co_name c \<notin> set (column_names T)"
    and s': "s' = alter_table t (\<lambda>T. T\<lparr>td_columns := td_columns T @ [c]\<rparr>) s"
    using assms(2) by (auto split: option.splits if_splits)
  have ok: "table_ok s T" using wf_schemaD(1) [OF assms(1) map_of_SomeD [OF T(1)]] .
  have untouched: "\<not> refers_to_column t (co_name c) k" if "(u, U) \<in> set s" "k \<in> set (td_constraints U)" for u U k
  proof -
    have "target_ok s k" using wf_schemaD(1) [OF assms(1) that(1)] that(2) by (simp add: table_ok_def)
    moreover have "co_name c \<notin> set cols" if "key_of_table T cols" for cols
      using key_of_table_columns [OF ok that] T(2) by auto
    ultimately show ?thesis using T(1) by (cases k) auto
  qed
  then have "\<not> others_refer s' t (refers_to_column t (co_name c))"
    unfolding s' others_refer_def by (auto elim!: in_alter_tableE)
  moreover have "without_column t (co_name c) (T\<lparr>td_columns := td_columns T @ [c]\<rparr>) = T"
  proof -
    have "filter (\<lambda>x. co_name x \<noteq> co_name c) (td_columns T) = td_columns T"
    proof (rule filter_True)
      show "\<forall>x \<in> set (td_columns T). co_name x \<noteq> co_name c" using T(2) by (metis image_eqI set_map)
    qed
    moreover have "filter (\<lambda>k. co_name c \<notin> set (constraint_columns k) \<and> \<not> refers_to_column t (co_name c) k) (td_constraints T) =
        td_constraints T"
      using ok T(2) untouched [OF map_of_SomeD [OF T(1)]] by (auto simp: filter_id_conv table_ok_def)
    moreover have "filter (\<lambda>i. co_name c \<notin> set (ix_columns i)) (td_indexes T) = td_indexes T"
      using ok T(2) by (auto simp: filter_id_conv table_ok_def)
    ultimately show ?thesis by (simp add: without_column_def)
  qed
  moreover have "alter_table t (without_column t (co_name c)) s' = s"
    if "without_column t (co_name c) (T\<lparr>td_columns := td_columns T @ [c]\<rparr>) = T"
  proof -
    have "(n, if n = t then without_column t (co_name c) (U\<lparr>td_columns := td_columns U @ [c]\<rparr>) else U) = (n, U)"
      if "(n, U) \<in> set s" for n U
      using that \<open>without_column t (co_name c) (T\<lparr>td_columns := td_columns T @ [c]\<rparr>) = T\<close> T(1)
        wf_schemaD(2) [OF assms(1) that] by auto
    then have "map (\<lambda>(n, U). (n, if n = t then without_column t (co_name c) (U\<lparr>td_columns := td_columns U @ [c]\<rparr>) else U)) s = s"
      by (intro map_idI) auto
    moreover have "alter_table t (without_column t (co_name c)) s' =
        map (\<lambda>(n, U). (n, if n = t then without_column t (co_name c) (U\<lparr>td_columns := td_columns U @ [c]\<rparr>) else U)) s"
      unfolding s' alter_table_def by auto
    ultimately show ?thesis by simp
  qed
  ultimately show ?thesis using T(1) by (simp add: s')
qed

lemma created_tables_drop:
  "builds upgrade_0001 []" "run_ddl (map DropTable [''refresh_tokens'', ''users'']) (built upgrade_0001 []) = Some []"
  "builds upgrade_0002 []"
  "run_ddl (map DropTable [''messages'', ''conversation_members'', ''conversations'']) (built upgrade_0002 []) = Some []"
  "builds (tl upgrade_0003) []" "run_ddl (map DropTable [''message_receipts'']) (built (tl upgrade_0003) []) = Some []"
  "builds upgrade_0004 []" "run_ddl (map DropTable [''attachments'']) (built upgrade_0004 []) = Some []"
  by code_simp+

lemma undo_0003:
  assumes "wf_schema s" and "run_ddl upgrade_0003 s = Some s'"
  shows "run_ddl downgrade_0003 s' = Some s"
proof -
  let ?c = "col ''last_seen'' SqlDateTime True"
  obtain s1 where s1: "apply_ddl (AddColumn ''users'' ?c) s = Some s1" "run_ddl (tl upgrade_0003) s1 = Some s'"
    using assms(2) that by (auto simp: upgrade_0003_def bind_eq_Some_conv simp del: apply_ddl.simps)
  have tables: "run_ddl (map DropTable [''message_receipts'']) s' = Some s1"
    by (rule undo_tables [OF apply_ddl_wf [OF assms(1) s1(1)] s1(2) created_tables_drop(5,6)])
  have column: "apply_ddl (DropColumn ''users'' ''last_seen'') s1 = Some s"
    using undo_added_column [OF assms(1) s1(1)] by (simp add: col_def)
  have parts: "downgrade_0003 = map DropTable [''message_receipts''] @ [DropColumn ''users'' ''last_seen'']"
    by (simp add: downgrade_0003_def)
  show ?thesis
    unfolding parts run_ddl_append tables by (simp add: column del: apply_ddl.simps)
qed

subsection \<open>The constraints of the migrated tables\<close>

lemma distinct_map_via:
  assumes "\<And>x y. f x = f y \<longleftrightarrow> g x = g y"
  shows "distinct (map f xs) \<longleftrightarrow> distinct (map g xs)"
  using assms by (simp add: distinct_map inj_on_def)

lemma same_schema_holds:
  assumes "same_schema s s'" and "distinct (table_names s)" and "distinct (table_names s')"
  shows "constraints_hold s rows \<longleftrightarrow> constraints_hold s' rows"
proof -
  define ok where "ok t T \<longleftrightarrow> (\<forall>k \<in> set (td_constraints T). holds rows t k) \<and>
    (\<forall>i \<in> set (td_indexes T). ix_unique i \<longrightarrow> holds rows t (UniqueConstraint None (ix_columns i)))" for t and T :: table_def
  have eq: "ok t T = ok t T'" if "same_table T T'" for t and T T' :: table_def using that by (simp add: ok_def same_table_def)
  have pair: "\<exists>T'. (t, T') \<in> set s' \<and> ok t T = ok t T'" if "(t, T) \<in> set s" for t T
    using assms(1) that eq by (fastforce simp: same_schema_def split: option.splits dest: map_of_SomeD)
  have converse: "\<exists>T. (t, T) \<in> set s \<and> ok t T = ok t T'" if T': "(t, T') \<in> set s'" for t T'
  proof -
    have "t \<in> set (table_names s)" using assms(1) T' by (force simp: same_schema_def)
    then obtain T where T: "(t, T) \<in> set s" by auto
    then obtain T'' where "(t, T'') \<in> set s'" "ok t T = ok t T''" using pair by blast
    moreover have "T'' = T'" using assms(3) T' calculation(1) by (metis map_of_is_SomeI option.inject)
    ultimately show ?thesis using T by blast
  qed
  have "constraints_hold s rows \<longleftrightarrow> (\<forall>(t, T) \<in> set s. ok t T)" by (simp add: constraints_hold_def ok_def)
  also have "\<dots> \<longleftrightarrow> (\<forall>(t, T) \<in> set s'. ok t T)" using pair converse by fast
  finally show ?thesis by (simp add: constraints_hold_def ok_def)
qed

lemma or_null_facts:
  "(or_null CText k = Null) = (k = None)" "(Null = or_null CText k) = (k = None)"
  "(or_null CUuid i = Null) = (i = None)" "(Null = or_null CUuid i) = (i = None)"
  "(or_null CText k = or_null CText k') = (k = k')" "(or_null CUuid i = CUuid j) = (i = Some j)"
  by (auto simp: or_null_def split: option.splits)

lemma key_cells:
  "user_cells u ''id'' = CUuid (u_id u)" "user_cells u ''username'' = CText (u_username u)" "user_cells u ''email'' = CText (u_email u)"
  "refresh_token_cells t ''id'' = CUuid (rt_id t)" "refresh_token_cells t ''jti'' = CUuid (rt_jti t)"
  "refresh_token_cells t ''user_id'' = CUuid (rt_user_id t)"
  "conversation_cells c ''id'' = CUuid (c_id c)" "conversation_cells c ''type'' = CText (c_type c)"
  "conversation_cells c ''direct_key'' = or_null CText (c_direct_key c)" "conversation_cells c ''created_by'' = CUuid (c_created_by c)"
  "member_cells m ''conversation_id'' = CUuid (cm_conversation_id m)" "member_cells m ''user_id'' = CUuid (cm_user_id m)"
  "message_cells x ''id'' = CUuid (m_id x)" "message_cells x ''conversation_id'' = CUuid (m_conversation_id x)"
  "message_cells x ''sender_id'' = CUuid (m_sender_id x)"
  "receipt_cells r ''id'' = CUuid (r_id r)" "receipt_cells r ''message_id'' = CUuid (r_message_id r)"
  "receipt_cells r ''user_id'' = CUuid (r_user_id r)"
  "attachment_cells a ''id'' = CUuid (a_id a)" "attachment_cells a ''storage_key'' = CText (a_storage_key a)"
  "attachment_cells a ''conversation_id'' = CUuid (a_conversation_id a)" "attachment_cells a ''uploader_id'' = CUuid (a_uploader_id a)"
  "attachment_cells a ''message_id'' = or_null CUuid (a_message_id a)"
  by (simp_all add: cell_defs)

lemma rows_of_tables:
  "rows_of d ''users'' = map user_cells (users d)"
  "rows_of d ''refresh_tokens'' = map refresh_token_cells (refresh_tokens d)"
  "rows_of d ''conversations'' = map conversation_cells (conversations d)"
  "rows_of d ''conversation_members'' = map member_cells (members d)"
  "rows_of d ''messages'' = map message_cells (messages d)"
  "rows_of d ''message_receipts'' = map receipt_cells (receipts d)"
  "rows_of d ''attachments'' = map attachment_cells (attachments d)"
  by (simp_all add: rows_of_def)

text \<open>Keys of cells are keys of the values in them.\<close>

lemma distinct_cells:
  "distinct (map (\<lambda>x. [CUuid (f x)]) xs) \<longleftrightarrow> distinct (map f xs)"
  "distinct (map (\<lambda>x. [CText (g x)]) xs) \<longleftrightarrow> distinct (map g xs)"
  "distinct (map (\<lambda>x. [CUuid (f x), CUuid (h x)]) xs) \<longleftrightarrow> distinct (map (\<lambda>x. (f x, h x)) xs)"
  by (auto simp: distinct_map inj_on_def)

lemma filter_cells:
  "filter (\<lambda>cells. Null \<notin> set cells) (map (\<lambda>x. [CUuid (f x)]) xs) = map (\<lambda>x. [CUuid (f x)]) xs"
  "filter (\<lambda>cells. Null \<notin> set cells) (map (\<lambda>x. [CText (g x)]) xs) = map (\<lambda>x. [CText (g x)]) xs"
  "filter (\<lambda>cells. Null \<notin> set cells) (map (\<lambda>x. [CUuid (f x), CUuid (h x)]) xs) = map (\<lambda>x. [CUuid (f x), CUuid (h x)]) xs"
  by (auto intro!: filter_True)

lemma distinct_nullable:
  "distinct (filter (\<lambda>cells. Null \<notin> set cells) (map (\<lambda>x. [or_null CText (f x)]) xs)) \<longleftrightarrow>
    distinct (filter (\<lambda>k. k \<noteq> None) (map f xs))"
  by (auto simp: filter_map o_def or_null_facts distinct_map inj_on_def)

definition table_holds :: "db \<Rightarrow> model \<Rightarrow> bool" where
  "table_holds d m = constraints_hold [table_of_model m] (rows_of d)"

lemmas holds_simps = table_holds_def constraints_hold_def model_defs rows_of_tables key_cells or_null_facts
  o_def distinct_cells filter_cells distinct_nullable image_subset_iff image_iff

lemma tables_hold:
  "table_holds d user_model \<longleftrightarrow> wf_users d"
  "table_holds d refresh_token_model \<longleftrightarrow> wf_refresh_tokens d"
  "table_holds d conversation_model \<longleftrightarrow> wf_conversations d"
  "table_holds d conversation_member_model \<longleftrightarrow> wf_members d"
  "table_holds d message_model \<longleftrightarrow> wf_messages d"
  "table_holds d message_receipt_model \<longleftrightarrow> wf_receipts d"
  by (simp_all add: holds_simps wf_users_def wf_refresh_tokens_def wf_conversations_def wf_members_def wf_messages_def
      wf_receipts_def conj_ac)

lemma attachments_hold: "table_holds d attachment_model \<longleftrightarrow> wf_attachments d"
proof -
  have "(\<forall>a \<in> set (attachments d). a_message_id a = None \<or> (\<exists>m \<in> set (messages d). a_message_id a = Some (m_id m))) \<longleftrightarrow>
      a_message_id ` set (attachments d) \<subseteq> insert None (Some ` message_ids d)" by auto
  then show ?thesis by (simp add: holds_simps wf_attachments_def conj_ac)
qed

lemma models_hold: "constraints_hold (map table_of_model models) (rows_of d) \<longleftrightarrow> wf_db d"
proof -
  have "constraints_hold (map table_of_model models) (rows_of d) \<longleftrightarrow> (\<forall>m \<in> set models. table_holds d m)"
    by (auto simp: table_holds_def constraints_hold_def)
  also have "\<dots> \<longleftrightarrow> wf_db d"
    by (simp add: models_def tables_hold attachments_hold wf_db_def conj_ac)
  finally show ?thesis .
qed

subsection \<open>Properties\<close>

text \<open>C17: The migrations build what the models declare: from the empty database, and from every version that was
  ever released, running them ends at the newest revision with the same tables, and those have exactly the columns,
  constraints and indexes of the models.  Running them again there changes nothing.\<close>

theorem migrations_build_models:
  "\<exists>s. map (\<lambda>k. map_option do_run_migrations (released k)) [0, 1, 2, 3, 4] =
      replicate 5 (Some (True, Some ''20261105_0004'', s)) \<and>
    same_schema s (map table_of_model models)"
proof -
  obtain s1 s2 s3 s4 where s: "run_ddl upgrade_0001 [] = Some s1" "run_ddl upgrade_0002 s1 = Some s2"
      "run_ddl upgrade_0003 s2 = Some s3" "run_ddl upgrade_0004 s3 = Some s4"
    and same: "same_schema s4 (map table_of_model models)" by (rule upgrade_chain)
  have "released 0 = Some (None, [])" "released 1 = Some (Some ''20260905_0001'', s1)"
    "released 2 = Some (Some ''20260905_0002'', s2)" "released 3 = Some (Some ''20260905_0003'', s3)"
    "released 4 = Some (Some ''20261105_0004'', s4)"
    by (simp_all add: released_def revision_defs s)
  then show ?thesis using same migrate_from [OF s] by (intro exI [of _ s4]) (simp add: numeral_eq_Suc)
qed

text \<open>C23: A downgrade undoes its upgrade: wherever a revision's upgrade goes through, on any sound schema, whatever
  other tables it holds, the schema stays sound and the downgrade gives back exactly what there was.\<close>

theorem downgrade_undoes_upgrade:
  assumes "wf_schema s" and "r \<in> set revisions" and "run_ddl (rv_upgrade r) s = Some s'"
  shows "run_ddl (rv_downgrade r) s' = Some s \<and> wf_schema s'"
proof
  show "wf_schema s'" using run_ddl_wf [OF assms(1,3)] .
  have r: "r = revision_0001 \<or> r = revision_0002 \<or> r = revision_0003 \<or> r = revision_0004"
    using assms(2) by (auto simp: revisions_def)
  note undo = undo_tables [OF assms(1)]
  show "run_ddl (rv_downgrade r) s' = Some s"
    using r assms(3) undo [OF _ created_tables_drop(1,2)] undo [OF _ created_tables_drop(3,4)] undo_0003 [OF assms(1)]
      undo [OF _ created_tables_drop(7,8)]
    by (elim disjE) (simp_all add: revision_0001_def revision_0002_def revision_0003_def revision_0004_def
        downgrade_0001_def downgrade_0002_def downgrade_0004_def del: run_ddl.simps apply_ddl.simps)
qed

text \<open>C11: The constraints the development relies on are those of the deployed database: stored rows meet every primary
  key, uniqueness constraint, unique index, foreign key and check of the migrated tables exactly when wf_db holds
  of them.\<close>

theorem constraints_are_migrated:
  "\<exists>s. do_run_migrations (None, []) = (True, Some ''20261105_0004'', s) \<and>
    (\<forall>d. constraints_hold s (rows_of d) \<longleftrightarrow> wf_db d)"
proof -
  obtain s1 s2 s3 s4 where s: "run_ddl upgrade_0001 [] = Some s1" "run_ddl upgrade_0002 s1 = Some s2"
      "run_ddl upgrade_0003 s2 = Some s3" "run_ddl upgrade_0004 s3 = Some s4"
    and same: "same_schema s4 (map table_of_model models)" by (rule upgrade_chain)
  have "wf_schema []" by (simp add: wf_schema_def)
  then have "wf_schema s4" using s by (metis run_ddl_wf)
  moreover have "distinct (table_names (map table_of_model models))"
    by (simp add: models_def table_of_model_def user_model_def refresh_token_model_def conversation_model_def
        conversation_member_model_def message_model_def message_receipt_model_def attachment_model_def)
  ultimately have "constraints_hold s4 (rows_of d) \<longleftrightarrow> wf_db d" for d
    using same_schema_holds [OF same] models_hold by (simp add: wf_schema_def)
  then show ?thesis using migrate_from(1) [OF s] by blast
qed

theorem downgrade_undoes_upgrade_witness:
  "\<exists>s s'. run_ddl (upgrade_0001 @ upgrade_0002) [] = Some s \<and> run_ddl upgrade_0003 s = Some s' \<and>
    run_ddl downgrade_0003 s' = Some s \<and> wf_schema s'"
proof -
  obtain s1 s2 s3 s4 where s: "run_ddl upgrade_0001 [] = Some s1" "run_ddl upgrade_0002 s1 = Some s2"
    "run_ddl upgrade_0003 s2 = Some s3" by (rule upgrade_chain)
  have "wf_schema []" by (simp add: wf_schema_def)
  then have "wf_schema s2" using s(1,2) by (metis run_ddl_wf)
  from downgrade_undoes_upgrade [OF this, of revision_0003 s3] s show ?thesis
    by (intro exI [of _ s2] exI [of _ s3]) (simp add: run_ddl_append revision_defs)
qed

end
