(* ===== verification/Listener.thy ===== *)
theory Listener
  imports Manager
begin

section \<open>The backend's tasks (websocket/redis\_backend.py)\<close>

text \<open>
  Starting and stopping the Redis backend, one iteration of its listener and the heartbeat.  What the
  transport does in an iteration is an argument; the backend's availability is the
  flag of the state attached to the manager.  Delays are microseconds.
\<close>

subsection \<open>Starting and stopping\<close>

record listener =
  ls_stopping :: bool
  ls_running :: bool
  ls_pubsub :: bool \<comment> \<open>\<open>_pubsub\<close> is not None\<close>
  ls_retry_delay :: int

definition new_listener :: listener where
  "new_listener = \<lparr>ls_stopping = False, ls_running = False, ls_pubsub = False, ls_retry_delay = 500000\<rparr>"

text \<open>
  \<open>_subscribe\<close> gives up the pubsub object it has, ignoring what closing it raises, and replaces it
  before it subscribes.
\<close>

definition subscribe :: "unit result \<Rightarrow> listener \<Rightarrow> unit result \<times> listener" where
  "subscribe outcome l = (outcome, l\<lparr>ls_pubsub := True\<rparr>)"

definition start_backend ::
  "unit result \<Rightarrow> unit result \<Rightarrow> listener \<times> 'r realtime \<Rightarrow> unit result \<times> listener \<times> 'r realtime" where
  "start_backend ping subscribed = (\<lambda>(l, s).
     let l = l\<lparr>ls_stopping := False\<rparr> in
     case ping of
       Inl e \<Rightarrow> (Inl e, l, s)
     | Inr _ \<Rightarrow>
         (case subscribe subscribed l of
            (Inl e, l) \<Rightarrow> (Inl e, l, s)
          | (Inr _, l) \<Rightarrow> (Inr (), l\<lparr>ls_running := True, ls_retry_delay := 500000\<rparr>, s\<lparr>rb_available := True\<rparr>)))"

text \<open>\<open>stop\<close>: what closing the pubsub object raises is ignored, what closing the client raises (\<open>closed\<close>) is not.\<close>

definition stop_tasks :: "listener \<Rightarrow> listener" where
  "stop_tasks l = l\<lparr>ls_stopping := True, ls_running := False\<rparr>"

definition stop_backend :: "unit result \<Rightarrow> listener \<times> 'r realtime \<Rightarrow> unit result \<times> listener \<times> 'r realtime" where
  "stop_backend closed = (\<lambda>(l, s). (closed, stop_tasks l, s\<lparr>rb_available := False\<rparr>))"

subsection \<open>The listener\<close>

record transport =
  tr_subscribe :: "unit result"
  tr_message :: "raw_data option result" \<comment> \<open>\<open>get_message\<close>\<close>
  tr_ping :: "unit result"
  tr_resubscribe :: "unit result"

definition set_available :: "bool \<Rightarrow> 'r realtime manager \<Rightarrow> 'r realtime manager" where
  "set_available b m = m\<lparr>mg_backend := map_option (\<lambda>s. s\<lparr>rb_available := b\<rparr>) (mg_backend m)\<rparr>"

definition deliver_envelope :: "'r realtime backend \<Rightarrow> raw_data \<Rightarrow> ('r realtime manager, unit) op" where
  "deliver_envelope B raw m =
     (case received_envelope raw of
        Inl e \<Rightarrow> (Inl e, m)
      | Inr None \<Rightarrow> (Inr (), m)
      | Inr (Some (targets, event)) \<Rightarrow> deliver_to_users_local B targets (JObj event) m)"

definition recover :: "transport \<Rightarrow> listener \<times> 'r realtime manager \<Rightarrow> listener \<times> 'r realtime manager" where
  "recover t = (\<lambda>(l, m).
     let m = set_available False m;
         l = l\<lparr>ls_retry_delay := min (ls_retry_delay l * 2) 10000000\<rparr>
     in case tr_ping t of
          Inl _ \<Rightarrow> (l, m)
        | Inr _ \<Rightarrow>
            (case subscribe (tr_resubscribe t) l of
               (Inr _, l) \<Rightarrow> (l, set_available True m)
             | (Inl _, l) \<Rightarrow> (l, m)))"

definition listen_step ::
  "'r realtime backend \<Rightarrow> transport \<Rightarrow> listener \<times> 'r realtime manager \<Rightarrow> listener \<times> 'r realtime manager" where
  "listen_step B t = (\<lambda>(l, m).
     if ls_stopping l then (l, m)
     else
       case (if ls_pubsub l then (Inr (), l) else subscribe (tr_subscribe t) l) of
         (Inl e, l1) \<Rightarrow> recover t (l1, m)
       | (Inr _, l1) \<Rightarrow>
           (case tr_message t of
              Inl e \<Rightarrow> recover t (l1, m)
            | Inr None \<Rightarrow> (l1, m)
            | Inr (Some raw) \<Rightarrow>
                (case deliver_envelope B raw m of
                   (Inr _, m1) \<Rightarrow> (l1\<lparr>ls_retry_delay := 500000\<rparr>, set_available True m1)
                 | (Inl e, m1) \<Rightarrow> recover t (l1, m1))))"

subsection \<open>The heartbeat\<close>

text \<open>Renewing the leases of a snapshot of the connected users; other tasks run before each call.\<close>

definition heartbeat :: "'r redis \<Rightarrow> backend_config \<Rightarrow> (uuid \<Rightarrow> 'r \<Rightarrow> 'r) \<Rightarrow> instant \<Rightarrow> uuid list \<Rightarrow> ('r, unit) op" where
  "heartbeat R C env now uids =
     oforeach (\<lambda>u. obind (interleave (env u)) (\<lambda>_. obind (user_connected R C now u) (\<lambda>_. oreturn ()))) uids"

subsection \<open>The listener's availability\<close>

definition available :: "'r realtime manager \<Rightarrow> bool" where
  "available m \<longleftrightarrow> (case mg_backend m of None \<Rightarrow> False | Some s \<Rightarrow> rb_available s)"

lemma available_set [simp]: "available (set_available b m) \<longleftrightarrow> mg_backend m \<noteq> None \<and> b"
  by (auto simp: available_def set_available_def split: option.splits)

lemma retry_delay_bounds:
  assumes "500000 \<le> ls_retry_delay l" and "ls_retry_delay l \<le> 10000000"
  shows "500000 \<le> ls_retry_delay (fst (listen_step B t (l, m))) \<and> ls_retry_delay (fst (listen_step B t (l, m))) \<le> 10000000"
  using assms
  by (auto simp: listen_step_def recover_def subscribe_def Let_def split: prod.splits sum.splits option.splits)

text \<open>A transport that is connected but has nothing to deliver.\<close>

definition quiet :: "transport \<Rightarrow> bool" where
  "quiet t \<longleftrightarrow> tr_message t = Inr None"

lemma quiet_steps:
  assumes "ls_pubsub l" and "\<forall>t \<in> set ts. quiet t"
  shows "fold (listen_step B) ts (l, m) = (l, m)"
proof -
  have same: "l\<lparr>ls_pubsub := True\<rparr> = l" using assms(1) by (cases l) simp
  have "listen_step B t (l, m) = (l, m)" if "quiet t" for t
    using that assms(1) same by (simp add: listen_step_def quiet_def)
  with assms(2) show ?thesis by (induction ts) auto
qed


text \<open>
  An envelope whose target is neither a string nor null raises \<open>AttributeError\<close>, which the
  \<open>except\<close> clause does not list: the listener takes it for a lost connection.
\<close>

lemma odd_target_drops_listener:
  assumes "\<not> ls_stopping l" and "ls_pubsub l" and "tr_message t = Inr (Some raw)"
    and "received_envelope raw = Inl e" and "tr_ping t = Inl e'"
  shows "\<not> available (snd (listen_step B t (l, m)))"
  using assms by (simp add: listen_step_def deliver_envelope_def recover_def Let_def)

lemma odd_target:
  "received_envelope (RawStr (json_compact (JObj [(''targets'', JArr [JInt 5]), (''event'', JObj [])]))) = Inl AttributeError"
  by code_simp

subsection \<open>Renewing a lease that was given up\<close>

context redis_sorted_sets
begin

lemma heartbeat_revives:
  assumes "rd_up R r" and "leases_of zset C r u = [bc_instance_id C \<mapsto> e]"
    and env: "env u = (\<lambda>s. snd (user_disconnected R C t u s))"
    and "later < now + seconds (bc_presence_ttl_seconds C)"
  shows "(\<exists>r1. user_disconnected R C t u r = (Inr True, r1)) \<and>
    (\<exists>r'. heartbeat R C env now [u] r = (Inr (), r') \<and> (\<exists>r''. redis_online_user_ids R C later [u] r' = (Inr [u], r'')))"
proof -
  let ?left = "lease_disconnect t (bc_instance_id C) (leases_of zset C r u)"
  have left: "?left = Map.empty" by (auto simp: assms(2) lease_disconnect_def drop_upto_def fun_eq_iff)
  then have dead: "\<not> live now' ?left" for now' by (simp add: live_def)
  obtain r1 where r1: "user_disconnected R C t u r = (Inr True, r1)" "rd_up R r1" "leases_of zset C r1 u = Map.empty"
    using user_disconnected_result [OF assms(1) HOL.refl, where now = t and C = C and u = u] dead left by auto
  obtain r2 where r2: "user_connected R C now u r1 = (Inr True, r2)" "rd_up R r2"
    "leases_of zset C r2 u = lease_connect now (now + seconds (bc_presence_ttl_seconds C)) (bc_instance_id C) Map.empty"
    using user_connected_result [OF r1(2) HOL.refl, where now = now and C = C and u = u] r1(3) by (auto simp: live_def)
  have "obind (interleave (env u)) (\<lambda>_. obind (user_connected R C now u) (\<lambda>_. oreturn ())) r = (Inr (), r2)"
    using r1(1) r2(1) by (simp add: env oreturn_def)
  then have "heartbeat R C env now [u] r = (Inr (), r2)"
    by (simp add: heartbeat_def oreturn_def)
  moreover have "live later (leases_of zset C r2 u)"
    using assms(4) by (auto simp: r2(3) live_def lease_connect_def)
  then obtain r3 where "redis_online_user_ids R C later [u] r2 = (Inr [u], r3)"
    using online_user_ids_result [OF r2(2), of C later "[u]"] by auto
  ultimately show ?thesis using r1(1) by blast
qed

end

text \<open>C39: A heartbeat can bring a departed user back: when the last socket closes between the heartbeat's snapshot of
  the connected users and its call for that user, the user is reported offline and then stays online
  for a whole lease without any connection.\<close>

theorem heartbeat_revives_departed_user:
  assumes "redis_sorted_sets R zset" and "rd_up R r" and "leases_of zset C r u = [bc_instance_id C \<mapsto> e]"
    and "env u = (\<lambda>s. snd (user_disconnected R C t u s))"
    and "later < now + seconds (bc_presence_ttl_seconds C)"
  shows "(\<exists>r1. user_disconnected R C t u r = (Inr True, r1)) \<and>
    (\<exists>r'. heartbeat R C env now [u] r = (Inr (), r') \<and> (\<exists>r''. redis_online_user_ids R C later [u] r' = (Inr [u], r'')))"
  by (rule redis_sorted_sets.heartbeat_revives [where env = env and t = t, OF assms])


definition one_lease :: redis_memory where
  "one_lease = snd (user_connected memory_redis default_backend 0 1 empty_memory)"

lemma one_lease_facts:
  "rd_up memory_redis one_lease" "leases_of mem_zset default_backend one_lease 1 = [bc_instance_id default_backend \<mapsto> 30000000]"
proof -
  have "rd_up memory_redis empty_memory" by (simp add: memory_redis_def empty_memory_def)
  from memory_sets.user_connected_result [OF this HOL.refl, where now = 0 and C = default_backend and u = 1] obtain r where
    r: "user_connected memory_redis default_backend 0 1 empty_memory = (Inr (\<not> live 0 (leases_of mem_zset default_backend empty_memory 1)), r)"
      "rd_up memory_redis r"
      "leases_of mem_zset default_backend r 1 = lease_connect 0 (0 + seconds (bc_presence_ttl_seconds default_backend))
        (bc_instance_id default_backend) (leases_of mem_zset default_backend empty_memory 1)" by auto
  have "leases_of mem_zset default_backend empty_memory 1 = Map.empty"
    by (simp add: leases_of_def mem_zset_def empty_memory_def)
  moreover have "seconds (bc_presence_ttl_seconds default_backend) = 30000000"
    by (simp add: seconds_def default_backend_def backend_config_of_def default_settings_def)
  moreover have "drop_upto 0 Map.empty = Map.empty" by (simp add: drop_upto_def fun_eq_iff)
  ultimately show "rd_up memory_redis one_lease"
    "leases_of mem_zset default_backend one_lease 1 = [bc_instance_id default_backend \<mapsto> 30000000]"
    using r by (simp_all add: one_lease_def lease_connect_def)
qed

theorem heartbeat_revives_departed_user_witness:
  "\<exists>r' r''. heartbeat memory_redis default_backend (\<lambda>u s. snd (user_disconnected memory_redis default_backend 4 1 s)) 5 [1] one_lease = (Inr (), r') \<and>
    redis_online_user_ids memory_redis default_backend 6 [1] r' = (Inr [1], r'')"
proof -
  have "6 < 5 + seconds (bc_presence_ttl_seconds default_backend)"
    by (simp add: seconds_def default_backend_def backend_config_of_def default_settings_def)
  from heartbeat_revives_departed_user [where env = "\<lambda>u s. snd (user_disconnected memory_redis default_backend 4 1 s)" and t = 4, OF memory_sets.redis_sorted_sets_axioms one_lease_facts HOL.refl this]
  show ?thesis by blast
qed

end
