(* ===== verification/Cleanup.thy ===== *)
theory Cleanup
  imports Lifecycle Redis
begin

section \<open>The cleanup worker (services/attachment\_cleanup.py)\<close>

text \<open>
  One run of the worker: take the lock in Redis, clean up in batches of a hundred until one is not
  full, and give the lock back.  Between two batches other transactions run (\<open>env\<close>) and hold rows
  locked (\<open>locked\<close>); while the batches run, Redis changes too (\<open>meanwhile\<close>: the lock may expire and
  another worker may take it).  The loop may run forever, so it is a partial function.
\<close>

definition hours :: "int \<Rightarrow> int" where
  "hours n = n * 3600 * 1000000"

definition lock_key :: "settings \<Rightarrow> string" where
  "lock_key S = redis_key_prefix S @ '':locks:attachment-cleanup''"

text \<open>
  The worker: its client and lock key, and its task.  Stopping cancels the task, whatever comes of it,
  and closes the client, whose failure (\<open>closed\<close>) it passes on.
\<close>

record cleanup_worker =
  cw_redis_url :: string
  cw_lock_key :: string
  cw_task :: "bool option" \<comment> \<open>None before the start, then whether the task runs\<close>

definition new_worker :: "settings \<Rightarrow> cleanup_worker" where
  "new_worker S = \<lparr>cw_redis_url = redis_url S, cw_lock_key = lock_key S, cw_task = None\<rparr>"

definition start_worker :: "cleanup_worker \<Rightarrow> cleanup_worker" where
  "start_worker w = w\<lparr>cw_task := Some True\<rparr>"

definition stop_worker :: "unit result \<Rightarrow> cleanup_worker \<Rightarrow> unit result \<times> cleanup_worker" where
  "stop_worker closed w = (closed, w\<lparr>cw_task := map_option (\<lambda>_. False) (cw_task w)\<rparr>)"

definition worker_runs :: "cleanup_worker \<Rightarrow> bool" where
  "worker_runs w \<longleftrightarrow> cw_task w = Some True"

lemma worker_life [simp]:
  "\<not> worker_runs (new_worker S)" "worker_runs (start_worker w)" "\<not> worker_runs (snd (stop_worker closed w))"
  "fst (stop_worker closed w) = closed"
  by (auto simp: worker_runs_def new_worker_def start_worker_def stop_worker_def)

text \<open>\<open>RELEASE_LOCK_SCRIPT\<close>, which the server runs as a whole.\<close>

definition release_lock :: "'r redis \<Rightarrow> string \<Rightarrow> string \<Rightarrow> ('r, int) op" where
  "release_lock R key token = rcall R (\<lambda>r. if rd_get R key r = Some token then (1, rd_del R key r) else (0, r))"

partial_function (option) cleanup_batches ::
  "'s minio \<Rightarrow> (nat \<Rightarrow> uuid set) \<Rightarrow> (nat \<Rightarrow> db \<times> 's \<Rightarrow> db \<times> 's) \<Rightarrow> instant \<Rightarrow> nat \<Rightarrow> nat \<Rightarrow> db \<times> 's \<Rightarrow>
     (nat \<times> db \<times> 's) option" where
  "cleanup_batches M locked env cutoff i removed x =
     (case cleanup_abandoned M (locked i) cutoff 100 (env i x) of
        (batch, y) \<Rightarrow>
          if batch < 100 then Some (removed + batch, y)
          else cleanup_batches M locked env cutoff (Suc i) (removed + batch) y)"

declare cleanup_batches.simps [code]

text \<open>\<open>token\<close> is the fresh \<open>uuid4().hex\<close>; an exception of the release replaces the result.\<close>

definition run_once ::
  "settings \<Rightarrow> 'r redis \<Rightarrow> 's minio \<Rightarrow> uuid \<Rightarrow> instant \<Rightarrow> (nat \<Rightarrow> uuid set) \<Rightarrow> (nat \<Rightarrow> db \<times> 's \<Rightarrow> db \<times> 's) \<Rightarrow>
     ('r \<Rightarrow> 'r) \<Rightarrow> 'r \<times> db \<times> 's \<Rightarrow> (nat result \<times> 'r \<times> db \<times> 's) option" where
  "run_once S R M token now locked env meanwhile = (\<lambda>(r, x).
     (case rcall R (rd_set_nx_ex R (lock_key S) (uuid_hex token) (attachment_cleanup_interval_seconds S)) r of
        (Inl e, r1) \<Rightarrow> Some (Inl e, r1, x)
      | (Inr acquired, r1) \<Rightarrow>
          if \<not> acquired then Some (Inr 0, r1, x)
          else (case cleanup_batches M locked env (now - hours (attachment_pending_ttl_hours S)) 0 0 x of
                  None \<Rightarrow> None
                | Some (removed, y) \<Rightarrow>
                    (case release_lock R (lock_key S) (uuid_hex token) (meanwhile r1) of
                       (Inl e, r2) \<Rightarrow> Some (Inl e, r2, y)
                     | (Inr _, r2) \<Rightarrow> Some (Inr removed, r2, y)))))"

text \<open>
  The task behind the runs: what escapes a run is logged and the loop goes on; the pause between two
  runs leaves the state to others (\<open>pause\<close>).  Each run has its own token, clock and surroundings.
\<close>

record ('r, 's) turn =
  wt_token :: uuid
  wt_now :: instant
  wt_locked :: "nat \<Rightarrow> uuid set"
  wt_env :: "nat \<Rightarrow> db \<times> 's \<Rightarrow> db \<times> 's"
  wt_meanwhile :: "'r \<Rightarrow> 'r"
  wt_pause :: "'r \<times> db \<times> 's \<Rightarrow> 'r \<times> db \<times> 's"

fun run_worker ::
  "settings \<Rightarrow> 'r redis \<Rightarrow> 's minio \<Rightarrow> ('r, 's) turn list \<Rightarrow> 'r \<times> db \<times> 's \<Rightarrow> ('r \<times> db \<times> 's) option" where
  "run_worker S R M [] x = Some x"
| "run_worker S R M (t # ts) x =
     (case run_once S R M (wt_token t) (wt_now t) (wt_locked t) (wt_env t) (wt_meanwhile t) x of
        None \<Rightarrow> None
      | Some (_, y) \<Rightarrow> run_worker S R M ts (wt_pause t y))"

subsection \<open>The loop ends\<close>

text \<open>The rows a run may still delete.\<close>

definition abandoned_count :: "instant \<Rightarrow> db \<Rightarrow> nat" where
  "abandoned_count cutoff d = length (filter (\<lambda>a. a_message_id a = None \<and> a_created_at a < cutoff) (attachments d))"

text \<open>
  What others do between two batches keeps the constraints and abandons no row created before the
  cutoff: rows are created with the current time and a message never lets go of its attachments.
\<close>

definition abandons_nothing :: "instant \<Rightarrow> (db \<times> 's \<Rightarrow> db \<times> 's) \<Rightarrow> bool" where
  "abandons_nothing cutoff f \<longleftrightarrow>
     (\<forall>x. wf_db (fst x) \<longrightarrow> wf_db (fst (f x)) \<and> abandoned_count cutoff (fst (f x)) \<le> abandoned_count cutoff (fst x))"

lemma cleanup_count:
  assumes "object_store M contents" and "wf_db d" and "cleanup_abandoned M locked cutoff limit (d, s) = (m, d', s')"
  shows "wf_db d'" and "abandoned_count cutoff d' + m = abandoned_count cutoff d"
proof -
  let ?old = "\<lambda>a. a_message_id a = None \<and> a_created_at a < cutoff"
  obtain gone where g: "set gone \<subseteq> set (list_abandoned d locked cutoff limit)" "distinct (map a_id gone)" "m = length gone"
    "d' = d\<lparr>attachments := filter (\<lambda>a. a_id a \<notin> a_id ` set gone) (attachments d)\<rparr>" "wf_db d'"
    using cleanup_result [OF assms] by blast
  show "wf_db d'" by (rule g(5))
  have wf: "distinct (map a_id (attachments d))" using wf_dbD(7) [OF assms(2)] by (simp add: wf_attachments_def)
  have gone: "a \<in> set (attachments d) \<and> ?old a" if "a \<in> set gone" for a
    using that g(1) list_abandoned_set by blast
  have "a \<in> set gone" if "a \<in> set (attachments d)" "a_id a \<in> a_id ` set gone" for a
  proof -
    from that(2) obtain b where b: "b \<in> set gone" "a_id a = a_id b" by blast
    with gone that(1) wf have "a = b" by (simp add: distinct_map inj_on_def)
    with b show ?thesis by simp
  qed
  then have same: "set (filter (\<lambda>a. a_id a \<in> a_id ` set gone) (filter ?old (attachments d))) = set gone" (is "set ?xs = _")
    using gone by auto
  have "distinct ?xs" "distinct gone"
    using wf g(2) by (simp_all add: distinct_map)
  then have "length ?xs = m"
    unfolding g(3) by (simp only: distinct_card [symmetric] same)
  with sum_length_filter_compl [of "\<lambda>a. a_id a \<in> a_id ` set gone" "filter ?old (attachments d)"]
  have "length (filter (\<lambda>a. a_id a \<notin> a_id ` set gone) (filter ?old (attachments d))) + m = abandoned_count cutoff d"
    by (simp add: abandoned_count_def)
  moreover have "filter ?old (attachments d') = filter (\<lambda>a. a_id a \<notin> a_id ` set gone) (filter ?old (attachments d))"
    unfolding g(4) by (simp add: conj_commute)
  ultimately show "abandoned_count cutoff d' + m = abandoned_count cutoff d"
    by (simp add: abandoned_count_def)
qed

lemma cleanup_batches_returns:
  assumes "object_store M contents" and "\<And>i. abandons_nothing cutoff (env i)"
  shows "wf_db d \<Longrightarrow> \<exists>n d' s'. cleanup_batches M locked env cutoff i removed (d, s) = Some (removed + n, d', s') \<and>
    wf_db d' \<and> abandoned_count cutoff d' + n \<le> abandoned_count cutoff d"
proof (induction "abandoned_count cutoff d" arbitrary: i removed d s rule: less_induct)
  case less
  obtain d1 s1 where e: "env i (d, s) = (d1, s1)" by (cases "env i (d, s)")
  with assms(2) [of i] less.prems have d1: "wf_db d1" "abandoned_count cutoff d1 \<le> abandoned_count cutoff d"
    unfolding abandons_nothing_def by (metis fst_conv)+
  obtain m d2 s2 where c: "cleanup_abandoned M (locked i) cutoff 100 (d1, s1) = (m, d2, s2)"
    by (cases "cleanup_abandoned M (locked i) cutoff 100 (d1, s1)")
  note count = cleanup_count [OF assms(1) d1(1) c]
  show ?case
  proof (cases "m < 100")
    case True
    then show ?thesis using e c count d1(2) by (simp add: cleanup_batches.simps [of _ _ _ _ i])
  next
    case False
    with count d1(2) have "abandoned_count cutoff d2 < abandoned_count cutoff d" by simp
    from less.hyps [OF this count(1), of "Suc i" "removed + m" s2] obtain n d' s' where
      "cleanup_batches M locked env cutoff (Suc i) (removed + m) (d2, s2) = Some (removed + m + n, d', s')"
      "wf_db d'" "abandoned_count cutoff d' + n \<le> abandoned_count cutoff d2" by blast
    with False e c count(2) d1(2) show ?thesis
      by (intro exI [of _ "m + n"] exI [of _ d'] exI [of _ s'])
        (simp add: cleanup_batches.simps [of _ _ _ _ i] add.assoc)
  qed
qed

lemma run_once_returns:
  assumes "object_store M contents" and "wf_db d"
    and "\<And>i. abandons_nothing (now - hours (attachment_pending_ttl_hours S)) (env i)"
  shows "\<exists>res r' d' s'. run_once S R M token now locked env meanwhile (r, d, s) = Some (res, r', d', s') \<and> wf_db d' \<and>
    (\<forall>n. res = Inr n \<longrightarrow> abandoned_count (now - hours (attachment_pending_ttl_hours S)) d' + n
       \<le> abandoned_count (now - hours (attachment_pending_ttl_hours S)) d)"
proof -
  let ?cutoff = "now - hours (attachment_pending_ttl_hours S)"
  obtain n d' s' where loop: "cleanup_batches M locked env ?cutoff 0 0 (d, s) = Some (n, d', s')"
    "wf_db d'" "abandoned_count ?cutoff d' + n \<le> abandoned_count ?cutoff d"
    using cleanup_batches_returns [where env = env and i = 0 and removed = 0, OF assms(1,3,2)] by fastforce
  obtain x r1 where lock: "rcall R (rd_set_nx_ex R (lock_key S) (uuid_hex token) (attachment_cleanup_interval_seconds S)) r = (x, r1)"
    by (cases "rcall R (rd_set_nx_ex R (lock_key S) (uuid_hex token) (attachment_cleanup_interval_seconds S)) r")
  obtain y r2 where rel: "release_lock R (lock_key S) (uuid_hex token) (meanwhile r1) = (y, r2)"
    by (cases "release_lock R (lock_key S) (uuid_hex token) (meanwhile r1)")
  show ?thesis
    using assms(2) loop lock rel by (cases x; cases y) (auto simp: run_once_def)
qed

text \<open>The worker goes on for as many turns as there are.\<close>

lemma worker_goes_on:
  assumes "object_store M contents" and "wf_db (fst (snd x))"
    and "\<And>t i. t \<in> set ts \<Longrightarrow> abandons_nothing (wt_now t - hours (attachment_pending_ttl_hours S)) (wt_env t i)"
    and "\<And>t y. t \<in> set ts \<Longrightarrow> wf_db (fst (snd y)) \<Longrightarrow> wf_db (fst (snd (wt_pause t y)))"
  shows "\<exists>y. run_worker S R M ts x = Some y \<and> wf_db (fst (snd y))"
  using assms(2-4)
proof (induction ts arbitrary: x)
  case (Cons t ts)
  obtain r d s where x: "x = (r, d, s)" by (cases x)
  obtain res r' d' s' where run: "run_once S R M (wt_token t) (wt_now t) (wt_locked t) (wt_env t) (wt_meanwhile t) x = Some (res, r', d', s')"
    and wf: "wf_db d'"
    using run_once_returns [where env = "wt_env t" and now = "wt_now t" and S = S and r = r and s = s and R = R
        and token = "wt_token t" and locked = "wt_locked t" and meanwhile = "wt_meanwhile t", OF assms(1)] Cons.prems(1,2) x
    by fastforce
  have "wf_db (fst (snd (wt_pause t (r', d', s'))))" using Cons.prems(3) wf by simp
  with Cons.IH [OF this] Cons.prems(2,3) run show ?case by auto
qed simp

text \<open>C19: A run of the cleanup worker always ends, whichever removals fail: as long as other transactions do not
  abandon rows created before the cutoff, the batch loop returns, keeps the constraints, and has
  deleted at most the rows that were abandoned when it began.\<close>

theorem cleanup_run_returns:
  assumes "object_store M contents" and "wf_db d"
    and "\<And>i. abandons_nothing (now - hours (attachment_pending_ttl_hours S)) (env i)"
  shows "\<exists>res r' d' s'. run_once S R M token now locked env meanwhile (r, d, s) = Some (res, r', d', s') \<and> wf_db d' \<and>
    (\<forall>n. res = Inr n \<longrightarrow> abandoned_count (now - hours (attachment_pending_ttl_hours S)) d' + n
       \<le> abandoned_count (now - hours (attachment_pending_ttl_hours S)) d)"
  by (rule run_once_returns [OF assms])

subsection \<open>The lock\<close>

context redis_strings
begin

lemma release_lock_result:
  assumes "release_lock R key token r = (x, r')"
  shows "strval r' = (if strval r key = Some token \<and> rd_up R r then (strval r)(key := None) else strval r)"
  using assms by (auto simp: release_lock_def rcall_def apfst_def map_prod_def split: prod.splits if_splits)

lemma lock_taken:
  assumes "rcall R (rd_set_nx_ex R key token secs) r = (Inr b, r')"
  shows "b \<longleftrightarrow> strval r key = None"
    and "strval r' = (if b then (strval r)(key \<mapsto> token) else strval r)"
proof -
  from assms have set: "rd_set_nx_ex R key token secs r = (b, r')" by (simp add: rcall_Inr_iff)
  with set_result [of key token secs r] show "b \<longleftrightarrow> strval r key = None" by simp
  with set set_new [of r key token secs] set_old [of r key token secs]
  show "strval r' = (if b then (strval r)(key \<mapsto> token) else strval r)" by (cases "strval r key = None") auto
qed

lemma lock_respected:
  assumes "run_once S R M token now locked env meanwhile (r, d, s) = Some (res, r', d', s')"
  shows "strval r (lock_key S) \<noteq> None \<longrightarrow> (res = Inr 0 \<or> res = Inl RedisError) \<and> strval r' = strval r \<and> d' = d \<and> s' = s"
    and "strval r (lock_key S) = None \<longrightarrow> rd_up R r \<longrightarrow>
      (\<exists>r1. strval r1 = (strval r)(lock_key S \<mapsto> uuid_hex token) \<and>
        strval r' = (if strval (meanwhile r1) (lock_key S) = Some (uuid_hex token) \<and> rd_up R (meanwhile r1)
          then (strval (meanwhile r1))(lock_key S := None) else strval (meanwhile r1)))"
proof -
  obtain x r1 where lock: "rcall R (rd_set_nx_ex R (lock_key S) (uuid_hex token) (attachment_cleanup_interval_seconds S)) r = (x, r1)"
    by (cases "rcall R (rd_set_nx_ex R (lock_key S) (uuid_hex token) (attachment_cleanup_interval_seconds S)) r")
  obtain y r2 where rel: "release_lock R (lock_key S) (uuid_hex token) (meanwhile r1) = (y, r2)"
    by (cases "release_lock R (lock_key S) (uuid_hex token) (meanwhile r1)")
  have down: "x = Inl RedisError \<and> r1 = r \<and> \<not> rd_up R r" if "x = Inl e" for e
    using that lock by (auto simp: rcall_def apfst_def map_prod_def split: prod.splits if_splits)
  show "strval r (lock_key S) \<noteq> None \<longrightarrow> (res = Inr 0 \<or> res = Inl RedisError) \<and> strval r' = strval r \<and> d' = d \<and> s' = s"
    using assms lock down lock_taken [of "lock_key S" "uuid_hex token" "attachment_cleanup_interval_seconds S" r _ r1]
    by (cases x) (auto simp: run_once_def)
  show "strval r (lock_key S) = None \<longrightarrow> rd_up R r \<longrightarrow>
      (\<exists>r1. strval r1 = (strval r)(lock_key S \<mapsto> uuid_hex token) \<and>
        strval r' = (if strval (meanwhile r1) (lock_key S) = Some (uuid_hex token) \<and> rd_up R (meanwhile r1)
          then (strval (meanwhile r1))(lock_key S := None) else strval (meanwhile r1)))"
  proof (intro impI exI [of _ r1])
    assume free: "strval r (lock_key S) = None" and up: "rd_up R r"
    then obtain b where x: "x = Inr b" using down by (cases x) auto
    note taken = lock_taken [OF lock [unfolded x]]
    have "r' = r2" using assms lock rel x free taken(1)
      by (auto simp: run_once_def split: option.splits sum.splits)
    with taken free release_lock_result [OF rel]
    show "strval r1 = (strval r)(lock_key S \<mapsto> uuid_hex token) \<and>
        strval r' = (if strval (meanwhile r1) (lock_key S) = Some (uuid_hex token) \<and> rd_up R (meanwhile r1)
          then (strval (meanwhile r1))(lock_key S := None) else strval (meanwhile r1))" by simp
  qed
qed

end

text \<open>The cleanup lock is respected: a run that finds it taken touches neither the database nor the store nor
  Redis, and a run that took it gives back only its own lock; one that another worker took after it
  expired stays.\<close>

theorem cleanup_lock_respected:
  assumes "redis_strings R strval"
    and "run_once S R M token now locked env meanwhile (r, d, s) = Some (res, r', d', s')"
  shows "(strval r (lock_key S) \<noteq> None \<longrightarrow> (res = Inr 0 \<or> res = Inl RedisError) \<and> strval r' = strval r \<and> d' = d \<and> s' = s) \<and>
    (strval r (lock_key S) = None \<longrightarrow> rd_up R r \<longrightarrow>
      (\<exists>r1. strval r1 = (strval r)(lock_key S \<mapsto> uuid_hex token) \<and>
        strval r' = (if strval (meanwhile r1) (lock_key S) = Some (uuid_hex token) \<and> rd_up R (meanwhile r1)
          then (strval (meanwhile r1))(lock_key S := None) else strval (meanwhile r1))))"
  using redis_strings.lock_respected [OF assms] by (rule conjI)

theorem cleanup_run_returns_witness:
  "\<exists>res r' d' s'. run_once default_settings memory_redis reference_minio 5 (hours 48) (\<lambda>_. {}) (\<lambda>_ x. x) id
      (empty_memory, stored_db, [(row_final_key upload_row, ''png'', None)]) = Some (res, r', d', s') \<and> wf_db d'"
proof -
  have "wf_db stored_db" using stored_ok by (simp add: attachments_ok_def)
  then show ?thesis
    using cleanup_run_returns [where env = "\<lambda>_ x. x" and locked = "\<lambda>_. {}" and meanwhile = id and R = memory_redis
        and r = empty_memory and S = default_settings and now = "hours 48" and token = 5,
        OF reference_store.object_store_axioms, of stored_db "[(row_final_key upload_row, ''png'', None)]"]
    unfolding abandons_nothing_def by blast
qed

theorem cleanup_lock_respected_witness:
  "\<exists>r'. run_once default_settings memory_redis reference_minio 5 0 (\<lambda>_. {}) (\<lambda>_ x. x) id
      (empty_memory\<lparr>mem_strings := [lock_key default_settings \<mapsto> ''other'']\<rparr>, empty_db, []) = Some (Inr 0, r', empty_db, []) \<and>
    mem_strings r' (lock_key default_settings) = Some ''other''"
proof -
  let ?r = "empty_memory\<lparr>mem_strings := [lock_key default_settings \<mapsto> ''other'']\<rparr>"
  have run: "run_once default_settings memory_redis reference_minio 5 0 (\<lambda>_. {}) (\<lambda>_ x. x) id (?r, empty_db, []) =
      Some (Inr 0, ?r, empty_db, [])"
    by (simp add: run_once_def rcall_def memory_redis_def empty_memory_def)
  from cleanup_lock_respected [OF memory_strings.redis_strings_axioms run] run show ?thesis by auto
qed

end
