(* ===== verification/Observability.thy ===== *)
theory Observability
  imports JsonWrite PyTime Settings
begin

section \<open>Logs, metrics and tracing (core/observability.py)\<close>

text \<open>
  The logging configuration and what it lets through, the JSON log lines, the declared metrics, the
  request identifier with its context variable, the middleware around every request, and the
  tracing set-up.  Lines written to standard output are kept in order.  What the span context is and
  how a traceback is printed are parameters.
\<close>

subsection \<open>Request and trace identifiers\<close>

definition request_id_char :: "char \<Rightarrow> bool" where
  "request_id_char c \<longleftrightarrow> (let n = (of_char c :: nat) in
     (65 \<le> n \<and> n \<le> 90) \<or> (97 \<le> n \<and> n \<le> 122) \<or> (48 \<le> n \<and> n \<le> 57) \<or> c \<in> set ''._-'')"

definition request_id_ok :: "string \<Rightarrow> bool" where
  "request_id_ok s \<longleftrightarrow> 1 \<le> length s \<and> length s \<le> 128 \<and> list_all request_id_char s"

definition normalize_request_id :: "uuid \<Rightarrow> string option \<Rightarrow> string" where
  "normalize_request_id fresh candidate =
     (case candidate of
        Some s \<Rightarrow> if s \<noteq> [] \<and> request_id_ok s then s else uuid_hex fresh
      | None \<Rightarrow> uuid_hex fresh)"

text \<open>\<open>_trace_id\<close>: the current span's context, when valid, has a trace number of 128 bits.\<close>

definition trace_id :: "128 word option \<Rightarrow> string" where
  "trace_id span_context = (case span_context of None \<Rightarrow> [] | Some n \<Rightarrow> uuid_hex n)"

subsection \<open>Log lines\<close>

definition standard_log_fields :: "string list" where
  "standard_log_fields = [''name'', ''msg'', ''args'', ''levelname'', ''levelno'', ''pathname'', ''filename'',
     ''module'', ''exc_info'', ''exc_text'', ''stack_info'', ''lineno'', ''funcName'', ''created'', ''msecs'',
     ''relativeCreated'', ''thread'', ''threadName'', ''processName'', ''process'', ''taskName'',
     ''message'', ''asctime'']"

record log_record =
  lg_level :: string
  lg_logger :: string
  lg_message :: string
  lg_fields :: "(string \<times> json) list" \<comment> \<open>\<open>__dict__\<close>, values as \<open>default=str\<close> leaves them\<close>
  lg_exception :: "string option"

definition put_field :: "string \<times> json \<Rightarrow> json_dict \<Rightarrow> json_dict" where
  "put_field p = AList.update (fst p) (snd p)"

definition log_payload :: "instant \<Rightarrow> string \<Rightarrow> string \<Rightarrow> log_record \<Rightarrow> json_dict" where
  "log_payload now request_id trace r =
     (let payload = [(''timestamp'', JStr (isoformat now)), (''level'', JStr (lg_level r)),
            (''logger'', JStr (lg_logger r)), (''message'', JStr (lg_message r))];
          payload = (if request_id \<noteq> [] then put_field (''request_id'', JStr request_id) payload else payload);
          payload = (if trace \<noteq> [] then put_field (''trace_id'', JStr trace) payload else payload);
          payload = fold put_field (filter (\<lambda>(k, v). k \<notin> set standard_log_fields \<and> \<not> py_startswith k ''_'') (lg_fields r)) payload
      in (case lg_exception r of None \<Rightarrow> payload | Some e \<Rightarrow> put_field (''exception'', JStr e) payload))"

definition format_log :: "instant \<Rightarrow> string \<Rightarrow> string \<Rightarrow> log_record \<Rightarrow> string" where
  "format_log now request_id trace r = json_compact (JObj (log_payload now request_id trace r))"

subsection \<open>The logging configuration\<close>

record logger_config =
  lo_handlers :: "string list"
  lo_level :: string
  lo_propagate :: bool

record logging_config =
  lc_version :: int
  lc_disable_existing_loggers :: bool
  lc_formatters :: "(string \<times> string) list" \<comment> \<open>name and factory\<close>
  lc_handlers :: "(string \<times> string \<times> string \<times> string) list" \<comment> \<open>name, class, formatter, stream\<close>
  lc_root :: logger_config
  lc_loggers :: "(string \<times> logger_config) list"

text \<open>The levels \<open>logging\<close> knows by name; of the letters only those matter for upper case.\<close>

definition level_number :: "string \<Rightarrow> int option" where
  "level_number = map_of [(''CRITICAL'', 50), (''FATAL'', 50), (''ERROR'', 40), (''WARN'', 30), (''WARNING'', 30),
     (''INFO'', 20), (''DEBUG'', 10), (''NOTSET'', 0)]"

definition upper_level :: "string \<Rightarrow> string" where
  "upper_level = map (\<lambda>c. let n = (of_char c :: nat) in if 97 \<le> n \<and> n \<le> 122 then char_of (n - 32) else c)"

text \<open>\<open>configure_logging\<close>; \<open>dictConfig\<close> raises \<open>ValueError\<close> for a level it does not know.\<close>

definition configure_logging :: "settings \<Rightarrow> logging_config result" where
  "configure_logging S =
     (if level_number (upper_level (log_level S)) = None then Inl ValueError
      else Inr \<lparr>lc_version = 1, lc_disable_existing_loggers = False,
        lc_formatters = [(''json'', ''JsonFormatter'')],
        lc_handlers = [(''default'', ''logging.StreamHandler'', ''json'', ''ext://sys.stdout'')],
        lc_root = \<lparr>lo_handlers = [''default''], lo_level = upper_level (log_level S), lo_propagate = False\<rparr>,
        lc_loggers = [(''uvicorn.access'', \<lparr>lo_handlers = [], lo_level = ''CRITICAL'', lo_propagate = False\<rparr>)]\<rparr>)"

text \<open>
  Whether a record of a logger reaches standard output: a logger with a configuration of its own
  that does not propagate keeps it from the root logger's handler.
\<close>

definition reaches_stdout :: "logging_config \<Rightarrow> string \<Rightarrow> string \<Rightarrow> bool" where
  "reaches_stdout L logger level =
     (let own = (case map_of (lc_loggers L) logger of None \<Rightarrow> lc_root L | Some c \<Rightarrow> c)
      in lo_handlers own \<noteq> [] \<and>
         (case (level_number level, level_number (lo_level own)) of (Some n, Some least) \<Rightarrow> least \<le> n | _ \<Rightarrow> False))"

subsection \<open>The metrics\<close>

datatype metric =
    Counter (metric_name: string) string "string list"
  | Gauge (metric_name: string) string "string list"
  | Histogram (metric_name: string) string "string list" "int list" \<comment> \<open>buckets in milliseconds\<close>

definition metrics :: "metric list" where
  "metrics =
    [Counter ''chatterbox_http_requests_total'' ''HTTP responses produced by the API.'' [''method'', ''route'', ''status_code''],
     Histogram ''chatterbox_http_request_duration_seconds'' ''HTTP request duration before the response body is streamed.''
       [''method'', ''route''] [5, 10, 25, 50, 100, 250, 500, 1000, 2500, 5000, 10000],
     Gauge ''chatterbox_http_requests_in_progress'' ''HTTP requests currently being processed.'' [''method''],
     Gauge ''chatterbox_websocket_connections'' ''WebSocket connections owned by this API instance.'' [],
     Counter ''chatterbox_websocket_events_total'' ''WebSocket events handled by type and outcome.'' [''event_type'', ''outcome''],
     Counter ''chatterbox_attachment_scans_total'' ''Attachment malware scan outcomes.'' [''scanner'', ''outcome'']]"

text \<open>A registry takes each name once, and a histogram's buckets grow.\<close>

lemma metrics_register:
  "distinct (map metric_name metrics) \<and> (\<forall>m \<in> set metrics. \<forall>name text labels buckets. m = Histogram name text labels buckets \<longrightarrow> sorted buckets)"
  by (auto simp: metrics_def)

record http_metrics =
  hm_total :: "(string \<times> string \<times> int) list" \<comment> \<open>method, route, status: one entry per increment\<close>
  hm_in_progress :: "string \<Rightarrow> int"
  hm_durations :: "(string \<times> string \<times> int) list" \<comment> \<open>method, route, microseconds\<close>

record observability = http_metrics +
  ob_request_id :: string \<comment> \<open>\<open>request_id_context\<close>\<close>
  ob_lines :: "string list" \<comment> \<open>standard output\<close>

definition write_log ::
  "logging_config \<Rightarrow> instant \<Rightarrow> 128 word option \<Rightarrow> log_record \<Rightarrow> observability \<Rightarrow> observability" where
  "write_log L now span_context r h =
     (if reaches_stdout L (lg_logger r) (lg_level r)
      then h\<lparr>ob_lines := ob_lines h @ [format_log now (ob_request_id h) (trace_id span_context) r]\<rparr>
      else h)"

subsection \<open>The middleware\<close>

record http_request =
  rq_method :: string
  rq_path :: string
  rq_request_id :: "string option" \<comment> \<open>the header \<open>X-Request-ID\<close>\<close>
  rq_client :: "string option" \<comment> \<open>the peer's host\<close>

record surroundings =
  sr_failed_at :: instant
  sr_completed_at :: instant
  sr_duration_micros :: int
  sr_span :: "128 word option"
  sr_route :: "string option" \<comment> \<open>path of the matched route, known after the request ran\<close>
  sr_traceback :: "exc \<Rightarrow> string"

definition failed_record :: "http_request \<Rightarrow> string \<Rightarrow> log_record" where
  "failed_record q traceback = \<lparr>lg_level = ''ERROR'', lg_logger = ''chatterbox.http'', lg_message = ''HTTP request failed'',
     lg_fields = [(''method'', JStr (rq_method q)), (''path'', JStr (rq_path q))], lg_exception = Some traceback\<rparr>"

definition completed_record :: "http_request \<Rightarrow> string \<Rightarrow> int \<Rightarrow> int \<Rightarrow> log_record" where
  "completed_record q route status duration_micros =
     \<lparr>lg_level = ''INFO'', lg_logger = ''chatterbox.http'', lg_message = ''HTTP request completed'',
      lg_fields = [(''method'', JStr (rq_method q)), (''route'', JStr route), (''path'', JStr (rq_path q)),
        (''status_code'', JInt status), (''duration_ms'', JFloat duration_micros (-3)),
        (''client_ip'', case rq_client q of None \<Rightarrow> JNull | Some host \<Rightarrow> JStr host)], lg_exception = None\<rparr>"

text \<open>
  \<open>RequestObservabilityMiddleware.dispatch\<close>: \<open>call_next\<close> gives a status and headers, or raises, with
  what the request wrote and counted meanwhile.
\<close>

definition observe ::
  "logging_config \<Rightarrow> uuid \<Rightarrow> http_request \<Rightarrow> surroundings \<Rightarrow>
     (string \<Rightarrow> observability \<Rightarrow> (int \<times> (string \<times> string) list) result \<times> observability) \<Rightarrow> observability \<Rightarrow>
     (int \<times> (string \<times> string) list) result \<times> observability" where
  "observe L fresh q z call_next h =
     (let request_id = normalize_request_id fresh (rq_request_id q);
          meth = rq_method q;
          h1 = h\<lparr>ob_request_id := request_id, hm_in_progress := (hm_in_progress h)(meth := hm_in_progress h meth + 1)\<rparr>;
          (r, h2) = call_next request_id h1;
          status_code = (case r of Inr (status, _) \<Rightarrow> status | Inl _ \<Rightarrow> 500);
          h3 = (case r of Inr _ \<Rightarrow> h2
                | Inl e \<Rightarrow> write_log L (sr_failed_at z) (sr_span z) (failed_record q (sr_traceback z e)) h2);
          route = (case sr_route z of None \<Rightarrow> ''unmatched'' | Some p \<Rightarrow> p);
          h4 = h3\<lparr>hm_in_progress := (hm_in_progress h3)(meth := hm_in_progress h3 meth - 1),
                  hm_total := hm_total h3 @ [(meth, route, status_code)],
                  hm_durations := hm_durations h3 @ [(meth, route, sr_duration_micros z)]\<rparr>;
          h5 = write_log L (sr_completed_at z) (sr_span z) (completed_record q route status_code (sr_duration_micros z)) h4
      in (case r of
            Inl e \<Rightarrow> Inl e
          | Inr (status, headers) \<Rightarrow> Inr (status, AList.update ''X-Request-ID'' request_id headers),
          h5\<lparr>ob_request_id := ob_request_id h\<rparr>))"

subsection \<open>Tracing\<close>

record tracing =
  tc_endpoint :: string
  tc_timeout_micros :: int
  tc_resource :: "(string \<times> string) list"
  tc_excluded_urls :: string

definition configure_tracing :: "settings \<Rightarrow> string \<Rightarrow> tracing option" where
  "configure_tracing S hostname =
     (case otel_exporter_otlp_traces_endpoint S of
        None \<Rightarrow> None
      | Some endpoint \<Rightarrow>
          if endpoint = [] then None
          else Some \<lparr>tc_endpoint = endpoint, tc_timeout_micros = otel_export_timeout_micros S,
            tc_resource = [(''service.name'', otel_service_name S), (''service.instance.id'', hostname),
              (''deployment.environment'', environment S)],
            tc_excluded_urls = ''/health,/health/live,/health/ready,/metrics''\<rparr>)"

subsection \<open>What the configuration lets through\<close>

lemma configure_logging_Inr:
  "configure_logging S = Inr L \<longleftrightarrow> level_number (upper_level (log_level S)) \<noteq> None \<and>
    lc_root L = \<lparr>lo_handlers = [''default''], lo_level = upper_level (log_level S), lo_propagate = False\<rparr> \<and>
    lc_loggers L = [(''uvicorn.access'', \<lparr>lo_handlers = [], lo_level = ''CRITICAL'', lo_propagate = False\<rparr>)] \<and>
    lc_handlers L = [(''default'', ''logging.StreamHandler'', ''json'', ''ext://sys.stdout'')] \<and>
    lc_formatters L = [(''json'', ''JsonFormatter'')] \<and> lc_version L = 1 \<and> \<not> lc_disable_existing_loggers L"
  by (cases L) (auto simp: configure_logging_def)

lemma configured_output:
  assumes "configure_logging S = Inr L" and "level_number level = Some n" and "level_number (upper_level (log_level S)) = Some least"
  shows "reaches_stdout L logger level \<longleftrightarrow> logger \<noteq> ''uvicorn.access'' \<and> least \<le> n"
  using assms by (auto simp: configure_logging_Inr reaches_stdout_def)

text \<open>The settings accept any text as level; one that \<open>logging\<close> does not know ends the start of the program.\<close>

lemma unknown_level_fails:
  "validate_settings (default_settings\<lparr>log_level := ''verbose''\<rparr>) \<noteq> Inl ValueError \<and>
    configure_logging (default_settings\<lparr>log_level := ''verbose''\<rparr>) = Inl ValueError"
  by code_simp

subsection \<open>Request identifiers\<close>

lemma hex_char_request_id: "0 \<le> d \<Longrightarrow> d < 16 \<Longrightarrow> request_id_char (hex_char d)"
proof -
  assume "0 \<le> d" "d < 16"
  then have "d \<in> set [0..15]" by simp
  moreover have "\<forall>d \<in> set [0..15]. request_id_char (hex_char d)" by code_simp
  ultimately show ?thesis by blast
qed

lemma uuid_hex_request_id: "request_id_ok (uuid_hex u)"
  using set_uuid_hex hex_char_request_id by (fastforce simp: request_id_ok_def list_all_iff)

lemma normalize_request_id_ok:
  "request_id_ok (normalize_request_id fresh candidate)"
  "candidate = Some s \<Longrightarrow> request_id_ok s \<Longrightarrow> normalize_request_id fresh candidate = s"
  using uuid_hex_request_id by (auto simp: normalize_request_id_def request_id_ok_def split: option.splits)

subsection \<open>Log lines\<close>

lemma log_payload_keys: "distinct (map fst p) \<Longrightarrow> distinct (map fst (put_field kv p))"
  by (simp add: put_field_def distinct_update)

lemma map_of_put_field: "map_of (put_field kv p) k = (if k = fst kv then Some (snd kv) else map_of p k)"
  by (simp add: put_field_def update_conv')

lemma map_of_fold_put: "\<forall>kv \<in> set fs. fst kv \<noteq> k \<Longrightarrow> map_of (fold put_field fs p) k = map_of p k"
  by (induction fs arbitrary: p) (auto simp: map_of_put_field)

text \<open>A log line is one JSON object: reading it back gives the payload, when the extra fields are plain values.\<close>

lemma writable_put: "writable (JObj p) \<Longrightarrow> writable (snd kv) \<Longrightarrow> writable (JObj (put_field kv p))"
proof -
  assume *: "writable (JObj p)" "writable (snd kv)"
  have "q \<in> set (AList.update k v l) \<Longrightarrow> q = (k, v) \<or> q \<in> set l" for q and k :: string and v :: json and l
    by (induction l) (auto split: if_splits)
  with * log_payload_keys [of p kv] show ?thesis by (fastforce simp: put_field_def)
qed

lemma writable_fold: "writable (JObj p) \<Longrightarrow> \<forall>f \<in> set fs. writable (snd f) \<Longrightarrow> writable (JObj (fold put_field fs p))"
  by (induction fs arbitrary: p) (auto intro!: writable_put simp del: writable.simps)

lemma log_line_roundtrip:
  assumes "\<forall>f \<in> set (lg_fields r). writable (snd f)"
  shows "json_loads (format_log now request_id trace r) = Inr (JObj (log_payload now request_id trace r))"
proof -
  have "writable (JObj [(''timestamp'', JStr (isoformat now)), (''level'', JStr (lg_level r)),
            (''logger'', JStr (lg_logger r)), (''message'', JStr (lg_message r))])" by simp
  then have "writable (JObj (log_payload now request_id trace r))"
    using assms unfolding log_payload_def Let_def
    by (auto simp del: writable.simps intro!: writable_put writable_fold split: option.split)
      (simp_all)
  then show ?thesis unfolding format_log_def by (rule loads_compact)
qed

text \<open>A line that names the request.\<close>

definition carries :: "string \<Rightarrow> string \<Rightarrow> bool" where
  "carries request_id l \<longleftrightarrow> (\<exists>p. l = json_compact (JObj p) \<and> map_of p ''request_id'' = Some (JStr request_id))"

lemma format_log_carries:
  assumes "request_id \<noteq> []" and "\<forall>f \<in> set (lg_fields r). fst f \<noteq> ''request_id''"
  shows "carries request_id (format_log now request_id trace r)"
proof -
  let ?fields = "filter (\<lambda>(k, v). k \<notin> set standard_log_fields \<and> \<not> py_startswith k ''_'') (lg_fields r)"
  have "map_of (fold put_field ?fields p) ''request_id'' = map_of p ''request_id''" for p
    using assms(2) by (intro map_of_fold_put) auto
  then have "map_of (log_payload now request_id trace r) ''request_id'' = Some (JStr request_id)"
    using assms(1) by (simp add: log_payload_def Let_def map_of_put_field split: option.split)
  then show ?thesis unfolding carries_def format_log_def by blast
qed

lemma write_log_lines:
  assumes "ob_request_id h \<noteq> []" and "\<forall>f \<in> set (lg_fields r). fst f \<noteq> ''request_id''"
  shows "\<exists>ls. ob_lines (write_log L now span r h) = ob_lines h @ ls \<and> (\<forall>l \<in> set ls. carries (ob_request_id h) l) \<and>
    (ls \<noteq> [] \<longleftrightarrow> reaches_stdout L (lg_logger r) (lg_level r))"
  using format_log_carries [OF assms] by (auto simp: write_log_def)

lemma write_log_frame [simp]:
  "hm_total (write_log L now span r h) = hm_total h" "hm_in_progress (write_log L now span r h) = hm_in_progress h"
  "hm_durations (write_log L now span r h) = hm_durations h" "ob_request_id (write_log L now span r h) = ob_request_id h"
  by (simp_all add: write_log_def)

lemma write_log_metrics [simp]:
  "ob_lines (h\<lparr>hm_in_progress := a, hm_total := b, hm_durations := c\<rparr>) = ob_lines h"
  "ob_request_id (h\<lparr>hm_in_progress := a, hm_total := b, hm_durations := c\<rparr>) = ob_request_id h"
  by simp_all

lemma record_fields:
  "\<forall>f \<in> set (lg_fields (failed_record q tb)). fst f \<noteq> ''request_id''"
  "\<forall>f \<in> set (lg_fields (completed_record q route status d)). fst f \<noteq> ''request_id''"
  by (simp_all add: failed_record_def completed_record_def)

lemma failed_lines:
  assumes "ob_request_id h \<noteq> []"
    and "h' = (case x of Inr _ \<Rightarrow> h | Inl e \<Rightarrow> write_log L now span (failed_record q (traceback e)) h)"
  obtains ls where "ob_lines h' = ob_lines h @ ls" and "\<forall>l \<in> set ls. carries (ob_request_id h) l"
    and "hm_total h' = hm_total h" and "hm_in_progress h' = hm_in_progress h" and "ob_request_id h' = ob_request_id h"
proof (cases x)
  case (Inl e)
  with write_log_lines [OF assms(1) record_fields(1), of L now span q "traceback e"] assms(2) that show thesis by auto
next
  case (Inr y)
  with assms(2) that [of "[]"] show thesis by simp
qed

subsection \<open>Every request\<close>

text \<open>What a request running inside the middleware does to the process: it ends the requests it begins and logs under its identifier.\<close>

definition well_behaved :: "(string \<Rightarrow> observability \<Rightarrow> 'a \<times> observability) \<Rightarrow> bool" where
  "well_behaved call_next \<longleftrightarrow> (\<forall>id g. let g' = snd (call_next id g) in
     hm_in_progress g' = hm_in_progress g \<and> hm_total g' = hm_total g \<and> ob_request_id g' = ob_request_id g \<and>
     (\<exists>inner. ob_lines g' = ob_lines g @ inner \<and> (\<forall>l \<in> set inner. carries (ob_request_id g) l)))"

lemma well_behavedD:
  assumes "well_behaved call_next" and "call_next i g = (x, g')"
  shows "hm_in_progress g' = hm_in_progress g" "hm_total g' = hm_total g" "ob_request_id g' = ob_request_id g"
    "\<exists>inner. ob_lines g' = ob_lines g @ inner \<and> (\<forall>l \<in> set inner. carries (ob_request_id g) l)"
  using assms(1) [unfolded well_behaved_def, rule_format, of i g] assms(2) by (simp_all add: Let_def)



end
