(* ===== verification/Operations.thy ===== *)
theory Operations
  imports Storage Listener Cleanup Observability
begin

section \<open>Running the service (main.py, core/health.py)\<close>

text \<open>
  Start-up and shutdown of the application as functions of what the object store and Redis answer
  and of what closing things raises, the application the module assembles, and the readiness report
  as a function of the outcomes of its three checks (a timeout is an exception).
\<close>

subsection \<open>Start-up and shutdown\<close>

record ('r, 's) app =
  app_storage_ready :: bool
  app_backend :: bool \<comment> \<open>\<open>application.state.redis_backend\<close> is not None\<close>
  app_worker :: "cleanup_worker option"
  app_manager :: "'r realtime manager"
  app_listener :: listener
  app_store :: 's
  app_engine_open :: bool
  app_tracer :: "bool option" \<comment> \<open>\<open>tracer_provider\<close>: None, or whether it runs\<close>

text \<open>
  The part of \<open>lifespan\<close> before its yield.  \<open>backend\<close> is the new backend's state; \<open>ping\<close> and
  \<open>subscribed\<close> are what Redis answers it, and \<open>stopped\<close> is what stopping a failed backend raises.
\<close>

definition lifespan_storage :: "settings \<Rightarrow> 's minio \<Rightarrow> ('r, 's) app \<Rightarrow> unit result \<times> ('r, 's) app" where
  "lifespan_storage S M a =
     (case ensure_bucket M (app_store a) of
        (Inr _, s) \<Rightarrow> (Inr (), a\<lparr>app_store := s, app_storage_ready := True\<rparr>)
      | (Inl e, s) \<Rightarrow> (if minio_required S then Inl e else Inr (), a\<lparr>app_store := s\<rparr>))"

definition lifespan_redis ::
  "settings \<Rightarrow> unit result \<Rightarrow> unit result \<Rightarrow> unit result \<Rightarrow> 'r realtime \<Rightarrow> ('r, 's) app \<Rightarrow> unit result \<times> ('r, 's) app" where
  "lifespan_redis S ping subscribed stopped backend a =
     (case start_backend ping subscribed (new_listener, backend) of
        (Inr _, l, b) \<Rightarrow>
          (Inr (), a\<lparr>app_manager := attach_backend b (app_manager a), app_listener := l, app_backend := True\<rparr>)
      | (Inl e, l, b) \<Rightarrow>
          (case stop_backend stopped (l, b) of
             (Inl e', l, _) \<Rightarrow> (Inl e', a\<lparr>app_listener := l\<rparr>)
           | (Inr _, l, _) \<Rightarrow> (if redis_required S then Inl e else Inr (), a\<lparr>app_listener := l\<rparr>)))"

definition lifespan_start ::
  "settings \<Rightarrow> 's minio \<Rightarrow> unit result \<Rightarrow> unit result \<Rightarrow> unit result \<Rightarrow> 'r realtime \<Rightarrow> ('r, 's) app \<Rightarrow>
     unit result \<times> ('r, 's) app" where
  "lifespan_start S M ping subscribed stopped backend a =
     (let a = a\<lparr>app_storage_ready := False, app_backend := False, app_worker := None\<rparr> in
      if environment S = ''test'' then (Inr (), a)
      else case lifespan_storage S M a of
        (Inl e, a) \<Rightarrow> (Inl e, a)
      | (Inr _, a) \<Rightarrow>
          (case lifespan_redis S ping subscribed stopped backend a of
             (Inl e, a) \<Rightarrow> (Inl e, a)
           | (Inr _, a) \<Rightarrow>
               (Inr (), if app_storage_ready a \<and> app_backend a
                        then a\<lparr>app_worker := Some (start_worker (new_worker S))\<rparr> else a)))"

text \<open>
  The \<open>finally\<close> block: the worker first, then the backend, detached before it stops, then the engine
  and the tracer.  What one of them raises ends the block.
\<close>

record closing =
  cl_worker :: "unit result"
  cl_backend :: "unit result"
  cl_engine :: "unit result"
  cl_tracer :: "unit result"

definition close_worker :: "closing \<Rightarrow> (('r, 's) app, unit) op" where
  "close_worker c a =
     (case app_worker a of
        None \<Rightarrow> (Inr (), a)
      | Some w \<Rightarrow> (case stop_worker (cl_worker c) w of (r, w') \<Rightarrow> (r, a\<lparr>app_worker := Some w'\<rparr>)))"

text \<open>A detached backend is out of the manager's reach, whatever its flag says from then on.\<close>

definition close_backend :: "closing \<Rightarrow> (('r, 's) app, unit) op" where
  "close_backend c a =
     (if \<not> app_backend a then (Inr (), a)
      else
        let a1 = a\<lparr>app_manager := detach_backend True (app_manager a), app_listener := stop_tasks (app_listener a)\<rparr>
        in case cl_backend c of Inl e \<Rightarrow> (Inl e, a1) | Inr _ \<Rightarrow> (Inr (), a1\<lparr>app_backend := False\<rparr>))"

definition close_engine :: "closing \<Rightarrow> (('r, 's) app, unit) op" where
  "close_engine c a =
     (case cl_engine c of Inl e \<Rightarrow> (Inl e, a) | Inr _ \<Rightarrow> (Inr (), a\<lparr>app_engine_open := False\<rparr>))"

definition close_tracer :: "closing \<Rightarrow> (('r, 's) app, unit) op" where
  "close_tracer c a =
     (case app_tracer a of
        None \<Rightarrow> (Inr (), a)
      | Some _ \<Rightarrow> (case cl_tracer c of Inl e \<Rightarrow> (Inl e, a) | Inr _ \<Rightarrow> (Inr (), a\<lparr>app_tracer := Some False\<rparr>)))"

definition lifespan_stop :: "closing \<Rightarrow> (('r, 's) app, unit) op" where
  "lifespan_stop c =
     obind (close_worker c) (\<lambda>_. obind (close_backend c) (\<lambda>_. obind (close_engine c) (\<lambda>_. close_tracer c)))"

subsection \<open>Health\<close>

text \<open>A check under \<open>asyncio.wait_for\<close> inside a \<open>try\<close>.\<close>

definition passed :: "bool result \<Rightarrow> bool" where
  "passed r \<longleftrightarrow> r = Inr True"

definition readiness_report :: "settings \<Rightarrow> bool result \<Rightarrow> bool result \<Rightarrow> bool result option \<Rightarrow> bool \<times> json" where
  "readiness_report S database storage connected =
     (let database_ok = passed database;
          redis_ok = (case connected of None \<Rightarrow> \<not> redis_required S | Some ping \<Rightarrow> passed ping);
          redis_status = (case connected of
             None \<Rightarrow> if redis_ok then ''local'' else ''unavailable''
           | Some _ \<Rightarrow> if redis_ok then ''redis'' else ''unavailable'');
          storage_ok = passed storage;
          storage_required_ok = (storage_ok \<or> \<not> minio_required S);
          ready = (database_ok \<and> redis_ok \<and> storage_required_ok)
      in (ready, JObj
           [(''status'', JStr (if ready then ''ready'' else ''not_ready'')),
            (''checks'', JObj
              [(''database'', JStr (if database_ok then ''ok'' else ''unavailable'')),
               (''realtime'', JStr redis_status),
               (''storage'', JStr (if storage_ok then ''minio'' else ''unavailable''))])]))"

definition liveness :: json where
  "liveness = JObj [(''status'', JStr ''alive'')]"

definition readiness :: "settings \<Rightarrow> bool result \<Rightarrow> bool result \<Rightarrow> bool result option \<Rightarrow> int \<times> json" where
  "readiness S database storage connected =
     (let (ready, report) = readiness_report S database storage connected
      in (if ready then 200 else 503, report))"

text \<open>What the report asks of a running application: its backend, if it has one, and its store.\<close>

definition app_readiness :: "settings \<Rightarrow> 's minio \<Rightarrow> bool result \<Rightarrow> bool result \<Rightarrow> ('r, 's) app \<Rightarrow> int \<times> json" where
  "app_readiness S M database ping a =
     readiness S database (storage_healthcheck M (app_store a)) (if app_backend a then Some ping else None)"

text \<open>\<open>/health\<close> is another path to the same report.\<close>

definition health :: "settings \<Rightarrow> bool result \<Rightarrow> bool result \<Rightarrow> bool result option \<Rightarrow> int \<times> json" where
  "health = readiness"

subsection \<open>Clients and exporters set up from the settings\<close>

record minio_client =
  mi_endpoint :: string
  mi_access_key :: string
  mi_secret_key :: string
  mi_secure :: bool
  mi_region :: string

text \<open>The constructor of \<open>ObjectStorage\<close>: the bucket, the client for the service's own calls and the one URLs are signed for.\<close>

definition object_storage_clients :: "settings \<Rightarrow> string \<times> minio_client \<times> minio_client" where
  "object_storage_clients S =
     (let client = (\<lambda>endpoint secure. \<lparr>mi_endpoint = endpoint, mi_access_key = minio_access_key S,
            mi_secret_key = minio_secret_key S, mi_secure = secure, mi_region = minio_region S\<rparr>)
      in (minio_bucket S, client (minio_endpoint S) (minio_secure S),
          client (minio_public_endpoint S) (minio_public_secure S)))"

subsection \<open>What start-up guarantees\<close>

lemma lifespan_storage_result:
  assumes "lifespan_storage S M a = (r, a')"
  shows "r = Inr () \<longleftrightarrow> (minio_required S \<longrightarrow> fst (ensure_bucket M (app_store a)) = Inr ())"
    and "app_storage_ready a' \<longleftrightarrow> app_storage_ready a \<or> fst (ensure_bucket M (app_store a)) = Inr ()"
    and "app_manager a' = app_manager a" and "app_backend a' = app_backend a" and "app_worker a' = app_worker a"
  using assms
  by (auto simp: lifespan_storage_def split: prod.splits sum.splits if_splits)

lemma lifespan_redis_result:
  assumes "lifespan_redis S ping subscribed stopped backend a = (r, a')"
  shows "r = Inr () \<longleftrightarrow> ping = Inr () \<and> subscribed = Inr () \<or> \<not> redis_required S \<and> stopped = Inr ()"
    and "app_backend a' \<longleftrightarrow> app_backend a \<or> ping = Inr () \<and> subscribed = Inr ()"
    and "app_manager a' = (if ping = Inr () \<and> subscribed = Inr ()
      then attach_backend (backend\<lparr>rb_available := True\<rparr>) (app_manager a) else app_manager a)"
    and "app_storage_ready a' = app_storage_ready a" and "app_worker a' = app_worker a"
  using assms
  by (auto simp: lifespan_redis_def start_backend_def stop_backend_def subscribe_def Let_def split: sum.splits if_splits)

text \<open>C27: Start-up honours the settings: outside tests the application comes up exactly when every dependency the
  settings require answers, a failed optional backend being given up without an error, it uses Redis
  for realtime exactly when Redis answered, and it runs the cleanup worker exactly when both
  dependencies are there; under test it touches neither.\<close>

theorem startup_honours_requirements:
  assumes "lifespan_start S M ping subscribed stopped backend a = (r, a')" and "mg_backend (app_manager a) = None"
    and "\<And>b. be_available B b = rb_available b"
  shows "if environment S = ''test'' then r = Inr () \<and> \<not> distributed B (app_manager a') \<and> app_worker a' = None
    else (r = Inr () \<longleftrightarrow> (minio_required S \<longrightarrow> fst (ensure_bucket M (app_store a)) = Inr ()) \<and>
        (ping = Inr () \<and> subscribed = Inr () \<or> \<not> redis_required S \<and> stopped = Inr ())) \<and>
      (r = Inr () \<longrightarrow>
        (distributed B (app_manager a') \<longleftrightarrow> ping = Inr () \<and> subscribed = Inr ()) \<and>
        (app_backend a' \<longleftrightarrow> ping = Inr () \<and> subscribed = Inr ()) \<and>
        (app_storage_ready a' \<longleftrightarrow> fst (ensure_bucket M (app_store a)) = Inr ()) \<and>
        ((\<exists>w. app_worker a' = Some w \<and> worker_runs w) \<longleftrightarrow> app_storage_ready a' \<and> app_backend a')) \<and>
      (r \<noteq> Inr () \<longrightarrow> \<not> distributed B (app_manager a') \<and> app_worker a' = None)"
proof (cases "environment S = ''test''")
  case True
  with assms show ?thesis by (auto simp: lifespan_start_def distributed_def)
next
  case False
  let ?a = "a\<lparr>app_storage_ready := False, app_backend := False, app_worker := None\<rparr>"
  obtain r1 a1 where one: "lifespan_storage S M ?a = (r1, a1)" by (cases "lifespan_storage S M ?a")
  obtain r2 a2 where two: "lifespan_redis S ping subscribed stopped backend a1 = (r2, a2)"
    by (cases "lifespan_redis S ping subscribed stopped backend a1")
  note s = lifespan_storage_result [OF one]
  note t = lifespan_redis_result [OF two]
  show ?thesis
  proof (cases r1)
    case (Inl e)
    then have "r = Inl e" "a' = a1" using assms(1) False one by (simp_all add: lifespan_start_def Let_def)
    then show ?thesis using False Inl s assms(2) by (auto simp: distributed_def)
  next
    case (Inr x)
    show ?thesis
    proof (cases r2)
      case (Inl e)
      then have r: "r = Inl e" "a' = a2" using assms(1) False one two Inr by (simp_all add: lifespan_start_def Let_def)
      have "\<not> (ping = Inr () \<and> subscribed = Inr ())" using t(1) Inl by simp
      then show ?thesis using False Inr Inl r s t assms(2) by (auto simp: distributed_def)
    next
      case (Inr y)
      then have r: "r = Inr ()"
        "a' = (if app_storage_ready a2 \<and> app_backend a2 then a2\<lparr>app_worker := Some (start_worker (new_worker S))\<rparr> else a2)"
        using assms(1) False one two \<open>r1 = Inr x\<close> by (simp_all add: lifespan_start_def Let_def)
      show ?thesis using False r s t Inr \<open>r1 = Inr x\<close> assms(2,3) by (auto simp: distributed_def attach_backend_def)
    qed
  qed
qed

subsection \<open>What shutdown releases\<close>

text \<open>The block ends without an exception exactly when nothing it closes raises one, and then everything is released.\<close>

lemma lifespan_stop_releases:
  assumes "lifespan_stop c a = (Inr (), a')" and "app_backend a \<or> mg_backend (app_manager a) = None"
  shows "mg_backend (app_manager a') = None" and "\<not> app_backend a'" and "\<forall>w. app_worker a' = Some w \<longrightarrow> \<not> worker_runs w"
    and "\<not> app_engine_open a'" and "app_tracer a' \<noteq> Some True"
  using assms
  by (auto simp: lifespan_stop_def obind_Inr_iff close_worker_def close_backend_def close_engine_def close_tracer_def
      detach_backend_def Let_def stop_worker_def worker_runs_def split: option.splits sum.splits if_splits
      dest: arg_cong [where f = app_tracer])

lemma lifespan_stop_succeeds:
  assumes "cl_worker c = Inr ()" and "cl_backend c = Inr ()" and "cl_engine c = Inr ()" and "cl_tracer c = Inr ()"
  shows "fst (lifespan_stop c a) = Inr ()"
  using assms
  by (auto simp: lifespan_stop_def obind_def close_worker_def close_backend_def close_engine_def close_tracer_def
      stop_worker_def Let_def split: option.splits sum.splits prod.splits if_splits)

text \<open>
  What closing the worker's client raises ends the block at once: the backend stays attached, and
  neither the engine nor the tracer is closed.
\<close>

lemma lifespan_stop_cut_short:
  assumes "app_worker a = Some w" and "cl_worker c = Inl e" and "lifespan_stop c a = (r, a')"
  shows "r = Inl e" and "app_manager a' = app_manager a" and "app_engine_open a' = app_engine_open a"
    and "app_tracer a' = app_tracer a"
  using assms by (auto simp: lifespan_stop_def obind_def close_worker_def stop_worker_def)

subsection \<open>At concrete settings\<close>

definition new_app :: "'s \<Rightarrow> ('r, 's) app" where
  "new_app s = \<lparr>app_storage_ready = False, app_backend = False, app_worker = None, app_manager = new_manager (\<lambda>_. None),
     app_listener = new_listener, app_store = s, app_engine_open = True, app_tracer = None\<rparr>"

theorem startup_honours_requirements_witness:
  "\<exists>r a'. lifespan_start default_settings reference_minio (Inl RedisError) (Inr ()) (Inr ()) \<lparr>rb_available = False, rb_redis = ()\<rparr>
      (new_app []) = (r, a') \<and> r = Inr () \<and> \<not> distributed idle_backend (app_manager a')"
    (is "\<exists>r a'. ?start = (r, a') \<and> _ \<and> _")
proof -
  obtain r a' where run: "?start = (r, a')" by (cases ?start)
  have "be_available idle_backend b = rb_available b" for b by (simp add: idle_backend_def redis_backend_def)
  from startup_honours_requirements [OF run _ this] run show ?thesis
    by (simp add: new_app_def default_settings_def)
qed

end
