(* ===== verification/Application.thy ===== *)
theory Application
  imports Operations
begin

section \<open>The application the module assembles (main.py, the routers of api/)\<close>

text \<open>
  What \<open>main.py\<close> builds when it is imported: logging, the application with its middleware, the
  routes of the included routers in their order, and tracing.  Routing itself is the framework's, as
  documented: the first route whose method and path template fit, where a parameter takes one
  segment of the path.
\<close>

subsection \<open>Routes\<close>

datatype http_method = GET | POST | WEBSOCKET

datatype segment = Lit string | Param string

record api_route =
  rt_method :: http_method
  rt_path :: "segment list"
  rt_name :: string

definition router :: "string list \<Rightarrow> (http_method \<times> segment list \<times> string) list \<Rightarrow> api_route list" where
  "router prefix = map (\<lambda>(m, path, name). \<lparr>rt_method = m, rt_path = map Lit prefix @ path, rt_name = name\<rparr>)"

definition auth_router :: "api_route list" where
  "auth_router = router [''auth'']
    [(POST, [Lit ''register''], ''register''), (POST, [Lit ''login''], ''login''), (POST, [Lit ''refresh''], ''refresh''),
     (POST, [Lit ''logout''], ''logout''), (GET, [Lit ''me''], ''me'')]"

definition attachments_router :: "api_route list" where
  "attachments_router = router []
    [(POST, [Lit ''conversations'', Param ''conversation_id'', Lit ''attachments''], ''reserve_attachment''),
     (POST, [Lit ''attachments'', Param ''attachment_id'', Lit ''complete''], ''complete_attachment''),
     (GET, [Lit ''attachments'', Param ''attachment_id'', Lit ''download''], ''download_attachment'')]"

definition users_router :: "api_route list" where
  "users_router = router [''users''] [(GET, [], ''search_users''), (GET, [Param ''user_id''], ''get_user'')]"

definition conversations_router :: "api_route list" where
  "conversations_router = router [''conversations'']
    [(POST, [], ''create_conversation''), (GET, [], ''list_conversations''),
     (GET, [Param ''conversation_id''], ''get_conversation''),
     (GET, [Param ''conversation_id'', Lit ''messages''], ''list_messages''),
     (POST, [Param ''conversation_id'', Lit ''messages''], ''create_message'')]"

definition websocket_router :: "api_route list" where
  "websocket_router = router [] [(WEBSOCKET, [Lit ''ws''], ''websocket_endpoint'')]"

definition system_routes :: "api_route list" where
  "system_routes = router []
    [(GET, [Lit ''health'', Lit ''live''], ''liveness''), (GET, [Lit ''health'', Lit ''ready''], ''readiness''),
     (GET, [Lit ''health''], ''health''), (GET, [Lit ''metrics''], ''metrics'')]"

subsection \<open>Assembling\<close>

datatype middleware =
    RequestObservabilityMiddleware
  | CORSMiddleware (allow_origins: "string list") (allow_credentials: bool) (allow_methods: "string list") (allow_headers: "string list")

record application =
  ap_logging :: logging_config
  ap_title :: string
  ap_version :: string
  ap_middleware :: "middleware list" \<comment> \<open>in the order added: the last one is the outermost\<close>
  ap_routes :: "api_route list"
  ap_tracing :: "tracing option"

definition application_routes :: "api_route list" where
  "application_routes =
     auth_router @ attachments_router @ users_router @ conversations_router @ websocket_router @ system_routes"

definition assemble :: "settings \<Rightarrow> string \<Rightarrow> application result" where
  "assemble S hostname =
     ebind (configure_logging S) (\<lambda>L. Inr
       \<lparr>ap_logging = L, ap_title = app_name S, ap_version = ''0.1.0'',
        ap_middleware = [RequestObservabilityMiddleware, CORSMiddleware (cors_origins S) True [''*''] [''*'']],
        ap_routes = application_routes, ap_tracing = configure_tracing S hostname\<rparr>)"

text \<open>The metrics page: what the registry prints (a parameter), with its content type.\<close>

definition metrics_page :: "'m \<Rightarrow> ('m \<Rightarrow> string) \<Rightarrow> string \<Rightarrow> string \<times> string" where
  "metrics_page registry generate_latest content_type = (generate_latest registry, content_type)"

subsection \<open>Routing\<close>

fun segment_takes :: "segment \<Rightarrow> string \<Rightarrow> bool" where
  "segment_takes (Lit l) s = (s = l)"
| "segment_takes (Param _) s = (s \<noteq> [])"

definition takes :: "api_route \<Rightarrow> http_method \<Rightarrow> string list \<Rightarrow> bool" where
  "takes r m path \<longleftrightarrow> rt_method r = m \<and> list_all2 segment_takes (rt_path r) path"

definition resolve :: "http_method \<Rightarrow> string list \<Rightarrow> api_route list \<Rightarrow> api_route option" where
  "resolve m path = find (\<lambda>r. takes r m path)"

text \<open>Two templates overlap when some path fits both.\<close>

fun overlap :: "segment list \<Rightarrow> segment list \<Rightarrow> bool" where
  "overlap [] [] = True"
| "overlap (Lit a # xs) (Lit b # ys) = (a = b \<and> overlap xs ys)"
| "overlap (x # xs) (y # ys) = overlap xs ys"
| "overlap _ _ = False"

lemma takes_overlap: "list_all2 segment_takes xs path \<Longrightarrow> list_all2 segment_takes ys path \<Longrightarrow> overlap xs ys"
proof (induction xs ys arbitrary: path rule: overlap.induct)
  case (2 a xs b ys)
  then show ?case by (cases path) auto
qed (auto simp: list_all2_Cons1)

lemma routes_apart:
  "\<forall>r \<in> set application_routes. \<forall>r' \<in> set application_routes.
     rt_method r = rt_method r' \<and> overlap (rt_path r) (rt_path r') \<longrightarrow> r = r'"
  by code_simp

text \<open>No request fits two routes, so the order in which the routers are included does not matter.\<close>

lemma routes_unambiguous:
  assumes "r \<in> set application_routes" and "r' \<in> set application_routes" and "takes r m path" and "takes r' m path"
  shows "r = r'"
  using assms routes_apart takes_overlap unfolding takes_def by blast

lemma resolve_any_order:
  assumes "set routes = set application_routes" and "r \<in> set application_routes" and "takes r m path"
  shows "resolve m path routes = Some r"
proof -
  have "\<exists>r'. resolve m path routes = Some r'" using assms by (auto simp: resolve_def find_None_iff not_None_eq [symmetric])
  then obtain r' where r': "resolve m path routes = Some r'" ..
  then have "r' \<in> set routes" "takes r' m path" by (auto simp: resolve_def find_Some_iff)
  with r' assms routes_unambiguous show ?thesis by blast
qed

text \<open>Every path that tracing leaves out is one that a route of the application answers.\<close>

lemma excluded_urls_exist:
  "\<forall>url \<in> set (py_split CHR '','' ''/health,/health/live,/health/ready,/metrics'').
     resolve GET (tl (py_split CHR ''/'' url)) application_routes \<noteq> None"
  by code_simp

end
