(* ===== verification/Sweeping.thy ===== *)
theory Sweeping
  imports Realtime
begin

section \<open>The presence sweep\<close>

text \<open>
  What \<open>_sweep_presence\<close> announces: without interference, exactly the indexed users whose leases
  have all ended; with a connection made between its read and its delete, also a user who is
  online.
\<close>

subsection \<open>One user\<close>

context redis_sorted_sets
begin

lemma end_presence_result:
  assumes "rd_up R r" and "indexed zset C r u \<noteq> None"
  shows "\<exists>r'. end_presence R C (\<lambda>_ s. s) now (uuid_str u) r =
      (Inr (if live now (leases_of zset C r u) then None else Some u), r') \<and> rd_up R r' \<and>
    leases_of zset C r' = (leases_of zset C r)(u := drop_upto now (leases_of zset C r u)) \<and>
    (\<forall>v. v \<noteq> u \<longrightarrow> indexed zset C r' v = indexed zset C r v) \<and>
    (\<forall>e. indexed zset C r' u = Some e \<longrightarrow> now < e)"
proof -
  let ?key = "presence_key C u" and ?users = "presence_users_key C"
  define r1 where "r1 = rd_zremrangebyscore R ?key now (snd (rd_zrem R ?users (uuid_str u) r))"
  have up: "rd_up R r1" "rd_up R (snd (rd_zrem R ?users (uuid_str u) r))" using assms(1) by (simp_all add: r1_def)
  have key: "zset r1 ?key = drop_upto now (leases_of zset C r u)" by (simp add: r1_def leases_of_def)
  have other: "v \<noteq> u \<Longrightarrow> zset r1 (presence_key C v) = leases_of zset C r v" for v by (simp add: r1_def leases_of_def)
  have users: "zset r1 ?users = (zset r ?users)(uuid_str u := None)" by (simp add: r1_def)
  have claimed: "fst (rd_zrem R ?users (uuid_str u) r) \<noteq> 0" using assms(2) by (auto simp: indexed_def)
  note run = end_presence_def obind_def interleave_def uuid_of_string_str oreturn_def Let_def
  show ?thesis
  proof (cases "rd_zlast R ?key r1")
    case None
    then have empty: "drop_upto now (leases_of zset C r u) = Map.empty" using key zlast_None by simp
    then have dead: "\<not> live now (leases_of zset C r u)" by (simp add: live_iff_drop_upto)
    define r2 where "r2 = rd_del R ?key r1"
    have "end_presence R C (\<lambda>_ s. s) now (uuid_str u) r = (Inr (Some u), r2)"
      using assms(1) up claimed None by (simp add: run r2_def flip: r1_def)
    moreover have "leases_of zset C r2 = (leases_of zset C r)(u := drop_upto now (leases_of zset C r u))"
      using other empty by (auto simp: fun_eq_iff leases_of_def r2_def)
    moreover have "indexed zset C r2 v = (if v = u then None else indexed zset C r v)" for v
      using users by (simp add: indexed_def r2_def)
    ultimately show ?thesis using dead up(1) by (auto simp: r2_def)
  next
    case (Some p)
    obtain i e where p: "p = (i, e)" by (cases p)
    have e: "zset r1 ?key i = Some e" using zlast_Some Some p by blast
    then have later: "now < e" using key by (simp add: drop_upto_Some)
    then have alive: "live now (leases_of zset C r u)"
      using e key by (auto simp: live_def drop_upto_Some)
    define r2 where "r2 = rd_zadd R ?users e (uuid_str u) r1"
    have "end_presence R C (\<lambda>_ s. s) now (uuid_str u) r = (Inr None, r2)"
      using assms(1) up claimed Some p by (simp add: run r2_def flip: r1_def)
    moreover have "leases_of zset C r2 = (leases_of zset C r)(u := drop_upto now (leases_of zset C r u))"
      using key other by (auto simp: fun_eq_iff leases_of_def r2_def)
    moreover have "indexed zset C r2 v = (if v = u then Some e else indexed zset C r v)" for v
      using users by (simp add: indexed_def r2_def)
    moreover have "rd_up R r2" using up by (simp add: r2_def)
    ultimately show ?thesis using alive later by auto
  qed
qed

lemma sweep_user_race:
  assumes "rd_up R r" and "indexed zset C r u \<noteq> None" and "\<not> live now (leases_of zset C r u)"
    and env: "env = (\<lambda>i. if i = 2 then (\<lambda>s. snd (user_connected R C' t u s)) else (\<lambda>s. s))"
    and C': "C' = with_instance C inst"
  shows "\<exists>r'. sweep_presence_user R C (Some expired) env now later (uuid_str u) (r, x) = expired u (r', x) \<and>
    leases_of zset C r' u = Map.empty"
proof -
  let ?key = "presence_key C u" and ?users = "presence_users_key C"
  define r1 where "r1 = rd_zremrangebyscore R ?key now (snd (rd_zrem R ?users (uuid_str u) r))"
  have up: "rd_up R r1" "rd_up R (snd (rd_zrem R ?users (uuid_str u) r))" using assms(1) by (simp_all add: r1_def)
  have "zset r1 ?key = drop_upto now (leases_of zset C r u)" by (simp add: r1_def leases_of_def)
  then have "zset r1 ?key = Map.empty" using assms(3) by (simp add: live_iff_drop_upto)
  then have none: "rd_zlast R ?key r1 = None" by (simp add: zlast_None)
  have claimed: "fst (rd_zrem R ?users (uuid_str u) r) \<noteq> 0" using assms(2) by (auto simp: indexed_def)
  obtain r2 where r2: "user_connected R C' t u r1 = (Inr (\<not> live t (leases_of zset C' r1 u)), r2)" "rd_up R r2"
    using user_connected_result [OF up(1) refl, where C = C' and u = u and now = t] by blast
  define r3 where "r3 = rd_del R ?key r2"
  have r3: "rd_up R r3" "leases_of zset C r3 u = Map.empty" using r2 by (simp_all add: r3_def leases_of_def)
  have "end_presence R C env now (uuid_str u) r = (Inr (Some u), r3)"
    using assms(1) up claimed none r2
    by (simp add: end_presence_def env obind_def interleave_def uuid_of_string_str oreturn_def Let_def r3_def flip: r1_def)
  moreover from online_user_ids_result [OF r3(1), of C later "[u]"] r3(2) obtain r4 where
    "redis_online_user_ids R C later [u] r3 = (Inr [], r4)" "leases_of zset C r4 u = Map.empty"
    by (auto simp: live_def drop_upto_def fun_eq_iff)
  ultimately show ?thesis by (auto simp: sweep_presence_user_def env interleave_def)
qed

end

subsection \<open>The loop\<close>

text \<open>
  What the sweep asks of \<open>on_presence_expired\<close>: it succeeds and leaves the sorted sets alone, and what
  can be seen of it, which the sweep's own commands do not touch, is an announcement of the user.
\<close>

locale presence_listener = redis_sorted_sets R zset
  for R :: "'r redis" and zset :: "'r \<Rightarrow> string \<Rightarrow> string \<Rightarrow> instant option" +
  fixes ready :: "'x \<Rightarrow> bool" and view :: "'r \<times> 'x \<Rightarrow> 'o" and announce :: "uuid \<Rightarrow> 'o \<Rightarrow> 'o"
    and expired :: "uuid \<Rightarrow> ('r \<times> 'x, unit) op"
  assumes expired_result: "rd_up R r \<Longrightarrow> ready x \<Longrightarrow> \<exists>r' x'. expired u (r, x) = (Inr (), r', x') \<and> rd_up R r' \<and>
      zset r' = zset r \<and> ready x' \<and> view (r', x') = announce u (view (r, x))"
    and view_frame [simp]: "view (snd (rd_zrem R k m r), x) = view (r, x)" "view (rd_zadd R k e m r, x) = view (r, x)"
      "view (rd_zremrangebyscore R k e r, x) = view (r, x)" "view (rd_del R k r, x) = view (r, x)"
begin

lemma view_end_presence:
  assumes "rd_up R r" and "end_presence R C (\<lambda>_ s. s) now (uuid_str u) r = (res, r')"
  shows "view (r', x) = view (r, x)"
  using assms
  by (auto simp: end_presence_def obind_def oreturn_def interleave_def Let_def uuid_of_string_str
      split: if_splits option.splits)

lemma view_online: "redis_online_user_ids R C later [u] r = (res, r') \<Longrightarrow> view (r', x) = view (r, x)"
  by (auto simp: redis_online_user_ids_def obind_def oreturn_def rcall_def Let_def split: if_splits)

lemma sweep_user_result:
  assumes "rd_up R r" and "ready x" and "indexed zset C r u \<noteq> None"
  shows "\<exists>r' x'. sweep_presence_user R C (Some expired) (\<lambda>_ s. s) now later (uuid_str u) (r, x) = (Inr (), r', x') \<and>
    rd_up R r' \<and> ready x' \<and>
    view (r', x') = (if live now (leases_of zset C r u) then view (r, x) else announce u (view (r, x))) \<and>
    leases_of zset C r' = (leases_of zset C r)(u := drop_upto now (leases_of zset C r u)) \<and>
    (\<forall>v. v \<noteq> u \<longrightarrow> indexed zset C r' v = indexed zset C r v) \<and>
    (\<forall>e. indexed zset C r' u = Some e \<longrightarrow> now < e)"
proof -
  obtain r1 where ended: "end_presence R C (\<lambda>_ s. s) now (uuid_str u) r =
      (Inr (if live now (leases_of zset C r u) then None else Some u), r1)" and "rd_up R r1"
    and r1: "leases_of zset C r1 = (leases_of zset C r)(u := drop_upto now (leases_of zset C r u))"
      "\<forall>v. v \<noteq> u \<longrightarrow> indexed zset C r1 v = indexed zset C r v" "\<forall>e. indexed zset C r1 u = Some e \<longrightarrow> now < e"
    using end_presence_result [OF assms(1,3)] by blast
  have v1: "view (r1, x) = view (r, x)" by (rule view_end_presence [OF assms(1) ended])
  show ?thesis
  proof (cases "live now (leases_of zset C r u)")
    case True
    then have "sweep_presence_user R C (Some expired) (\<lambda>_ s. s) now later (uuid_str u) (r, x) = (Inr (), r1, x)"
      using ended by (simp add: sweep_presence_user_def oreturn_def)
    then show ?thesis using True r1 v1 \<open>rd_up R r1\<close> assms(2) by auto
  next
    case False
    then have none: "drop_upto now (leases_of zset C r u) = Map.empty" by (simp add: live_iff_drop_upto)
    have gone: "leases_of zset C r1 u = Map.empty" by (simp add: r1(1) none)
    obtain r2 where r2: "redis_online_user_ids R C later [u] r1 = (Inr [], r2)" "rd_up R r2"
        "\<forall>v. leases_of zset C r2 v = (if v \<in> set [u] then drop_upto later (leases_of zset C r1 v) else leases_of zset C r1 v)"
        "indexed zset C r2 = indexed zset C r1"
      using online_user_ids_result [OF \<open>rd_up R r1\<close>, of C later "[u]"] gone by (auto simp: live_def)
    obtain r3 x3 where r3: "expired u (r2, x) = (Inr (), r3, x3)" "rd_up R r3" "zset r3 = zset r2" "ready x3"
        "view (r3, x3) = announce u (view (r2, x))"
      using expired_result [OF r2(2) assms(2), of u] by blast
    have "sweep_presence_user R C (Some expired) (\<lambda>_ s. s) now later (uuid_str u) (r, x) = (Inr (), r3, x3)"
      using False ended r2(1) r3(1) by (simp add: sweep_presence_user_def)
    moreover have "leases_of zset C r3 = (leases_of zset C r)(u := drop_upto now (leases_of zset C r u))"
      using r2(3) r3(3) r1(1) none by (auto simp: fun_eq_iff leases_of_def drop_upto_def)
    moreover have "indexed zset C r3 = indexed zset C r1" using r2(4) r3(3) by (simp add: fun_eq_iff indexed_def)
    ultimately show ?thesis using False r1(2,3) r3(2,4,5) view_online [OF r2(1), of x] v1 by auto
  qed
qed

lemma sweep_users_result:
  assumes "rd_up R r" and "ready x" and "\<forall>u \<in> set us. indexed zset C r u \<noteq> None" and "distinct us"
  shows "\<exists>r' x'. oforeach (\<lambda>v. sweep_presence_user R C (Some expired) (\<lambda>_ s. s) now later v) (map uuid_str us) (r, x) =
      (Inr (), r', x') \<and> view (r', x') = fold announce (filter (\<lambda>u. \<not> live now (leases_of zset C r u)) us) (view (r, x)) \<and>
    (\<forall>v. if v \<in> set us then \<forall>e. indexed zset C r' v = Some e \<longrightarrow> now < e
      else indexed zset C r' v = indexed zset C r v)"
  using assms
proof (induction us arbitrary: r x)
  case (Cons u us)
  then have "indexed zset C r u \<noteq> None" by simp
  from sweep_user_result [OF Cons.prems(1,2) this, of now later] obtain r1 x1 where
    r1: "sweep_presence_user R C (Some expired) (\<lambda>_ s. s) now later (uuid_str u) (r, x) = (Inr (), r1, x1)"
      "rd_up R r1" "ready x1"
      "view (r1, x1) = (if live now (leases_of zset C r u) then view (r, x) else announce u (view (r, x)))"
      "leases_of zset C r1 = (leases_of zset C r)(u := drop_upto now (leases_of zset C r u))"
      "\<forall>v. v \<noteq> u \<longrightarrow> indexed zset C r1 v = indexed zset C r v"
      "\<forall>e. indexed zset C r1 u = Some e \<longrightarrow> now < e" by blast
  have "\<forall>v \<in> set us. indexed zset C r1 v \<noteq> None" using Cons.prems(3,4) r1(6) by auto
  from Cons.IH [OF r1(2,3) this] Cons.prems(4) obtain r2 x2 where
    r2: "oforeach (\<lambda>v. sweep_presence_user R C (Some expired) (\<lambda>_ s. s) now later v) (map uuid_str us) (r1, x1) = (Inr (), r2, x2)"
      "view (r2, x2) = fold announce (filter (\<lambda>u. \<not> live now (leases_of zset C r1 u)) us) (view (r1, x1))"
      "\<forall>v. if v \<in> set us then \<forall>e. indexed zset C r2 v = Some e \<longrightarrow> now < e
        else indexed zset C r2 v = indexed zset C r1 v"
    by auto
  have same: "filter (\<lambda>u. \<not> live now (leases_of zset C r1 u)) us = filter (\<lambda>u. \<not> live now (leases_of zset C r u)) us"
    using Cons.prems(4) r1(5) by (intro filter_cong) auto
  have "if v \<in> set (u # us) then \<forall>e. indexed zset C r2 v = Some e \<longrightarrow> now < e
      else indexed zset C r2 v = indexed zset C r v" for v
  proof (cases "v = u")
    case True
    with r1(7) r2(3) [rule_format, of u] Cons.prems(4) show ?thesis by auto
  next
    case False
    with r1(6) r2(3) [rule_format, of v] show ?thesis by auto
  qed
  then show ?case using r1(1,4) r2(1,2) unfolding same by (auto simp: obind_def)
qed (simp add: oreturn_def)

text \<open>The users found, when all are: those due by now.\<close>

lemma due_users:
  assumes members: "dom (zset r (presence_users_key C)) \<subseteq> range uuid_str"
    and few: "card {u. \<exists>e \<le> now. indexed zset C r u = Some e} \<le> 100"
  obtains us where "rd_zrangebyscore R (presence_users_key C) now 100 r = map uuid_str us" and "distinct us"
    and "set us = {u. \<exists>e \<le> now. indexed zset C r u = Some e}"
proof -
  let ?users = "presence_users_key C"
  let ?due = "{m. \<exists>e \<le> now. zset r ?users m = Some e}"
  define l where "l = rd_zrangebyscore R ?users now 100 r"
  have due: "?due = uuid_str ` {u. \<exists>e \<le> now. indexed zset C r u = Some e}"
    using members by (auto simp: indexed_def dom_def image_iff)
  have inj: "inj uuid_str" by (metis injI uuid_of_string_str sum.inject(2))
  have "card ?due \<le> 100" using few card_image_le [of "{u. \<exists>e \<le> now. indexed zset C r u = Some e}" uuid_str]
    by (simp add: due card_image inj_on_subset [OF inj])
  then have "length l = card ?due" unfolding l_def zrangebyscore_length by simp
  moreover have "distinct l" "set l \<subseteq> ?due" unfolding l_def by (rule zrangebyscore_distinct, rule zrangebyscore_set)
  moreover have "finite ?due" using finite_subset [OF _ finite_zset [of r ?users], of ?due] by (auto simp: dom_def)
  ultimately have l: "set l = ?due" by (metis card_subset_eq distinct_card)
  define us where "us = map (inv uuid_str) l"
  have l_us: "l = map uuid_str us"
    unfolding us_def map_map by (rule sym, rule map_idI) (use l due in \<open>auto simp: f_inv_into_f image_iff\<close>)
  have "uuid_str ` set us = uuid_str ` {u. \<exists>e \<le> now. indexed zset C r u = Some e}"
    unfolding due [symmetric] l [symmetric] by (simp add: l_us)
  then have "set us = {u. \<exists>e \<le> now. indexed zset C r u = Some e}" using inj by (simp add: inj_image_eq_iff)
  moreover have "distinct us" using \<open>distinct l\<close> by (simp add: l_us distinct_map)
  ultimately show thesis using l_us unfolding l_def by (intro that)
qed

lemma sweep_result:
  assumes "rd_up R r" and "ready x" and "dom (zset r (presence_users_key C)) \<subseteq> range uuid_str"
    and "card {u. \<exists>e \<le> now. indexed zset C r u = Some e} \<le> 100"
  shows "\<exists>gone r' x'. sweep_presence R C (Some expired) (\<lambda>_ _ s. s) now later (r, x) = (Inr (), r', x') \<and> distinct gone \<and>
    set gone = {u. (\<exists>e \<le> now. indexed zset C r u = Some e) \<and> \<not> live now (leases_of zset C r u)} \<and>
    view (r', x') = fold announce gone (view (r, x)) \<and> (\<forall>u e. indexed zset C r' u = Some e \<longrightarrow> now < e)"
proof -
  obtain us where us: "rd_zrangebyscore R (presence_users_key C) now 100 r = map uuid_str us" "distinct us"
    "set us = {u. \<exists>e \<le> now. indexed zset C r u = Some e}"
    using due_users [OF assms(3,4)] .
  let ?gone = "filter (\<lambda>u. \<not> live now (leases_of zset C r u)) us"
  have "\<forall>u \<in> set us. indexed zset C r u \<noteq> None" using us(3) by auto
  from sweep_users_result [OF assms(1,2) this us(2), of now later] obtain r' x' where
    r': "oforeach (\<lambda>v. sweep_presence_user R C (Some expired) (\<lambda>_ s. s) now later v) (map uuid_str us) (r, x) = (Inr (), r', x')"
    "view (r', x') = fold announce ?gone (view (r, x))"
    "\<forall>v. if v \<in> set us then \<forall>e. indexed zset C r' v = Some e \<longrightarrow> now < e
      else indexed zset C r' v = indexed zset C r v" by blast
  have "sweep_presence R C (Some expired) (\<lambda>_ _ s. s) now later (r, x) = (Inr (), r', x')"
    using assms(1) r'(1) us(1) by (simp add: sweep_presence_def)
  moreover have "now < e" if "indexed zset C r' u = Some e" for u e
  proof (cases "u \<in> set us")
    case True
    then show ?thesis using r'(3) [rule_format, of u] that by simp
  next
    case False
    then have "indexed zset C r u = Some e" "\<not> (\<exists>e \<le> now. indexed zset C r u = Some e)"
      using r'(3) [rule_format, of u] that us(3) by auto
    then show ?thesis by (metis not_le)
  qed
  moreover have "set ?gone = {u. (\<exists>e \<le> now. indexed zset C r u = Some e) \<and> \<not> live now (leases_of zset C r u)}"
    using us(3) by auto
  ultimately show ?thesis using us(2) r'(2) by (metis (no_types, lifting) distinct_filter)
qed

end

text \<open>C37: The sweep can announce a connected user as offline: when another instance registers a connection
  of the user after the sweep found no lease and before it deletes the key, the delete removes the
  new lease, and the user, whose connection was just reported as the first, has no lease left when
  on_presence_expired is called.\<close>

theorem sweep_drops_fresh_connection:
  assumes "redis_sorted_sets R zset" and "rd_up R r" and "indexed zset C r u \<noteq> None"
    and "\<not> live now (leases_of zset C r u)"
  shows "\<exists>r'. sweep_presence_user R C (Some expired)
      (\<lambda>i. if i = 2 then (\<lambda>s. snd (user_connected R (with_instance C inst) t u s)) else (\<lambda>s. s)) now later (uuid_str u) (r, x) =
      expired u (r', x) \<and> leases_of zset C r' u = Map.empty"
  by (rule redis_sorted_sets.sweep_user_race [OF assms refl refl])

subsection \<open>An example server state\<close>

definition ended_lease :: redis_memory where
  "ended_lease = empty_memory\<lparr>mem_zsets := (mem_zsets empty_memory)
     (presence_users_key default_backend := [(uuid_str 1, 5)])\<rparr>"

lemma ended_lease_facts:
  "rd_up memory_redis ended_lease" "mem_zset ended_lease (presence_users_key default_backend) = [uuid_str 1 \<mapsto> 5]"
  "indexed mem_zset default_backend ended_lease = [1 \<mapsto> 5]"
  "leases_of mem_zset default_backend ended_lease u = Map.empty"
  by (auto simp: ended_lease_def memory_redis_def empty_memory_def mem_zset_def indexed_def leases_of_def fun_eq_iff
      dest: arg_cong [where f = uuid_of_string] simp: uuid_of_string_str)

theorem sweep_drops_fresh_connection_witness:
  "\<exists>r'. sweep_presence_user memory_redis default_backend (Some (\<lambda>u (r, l). (Inr (), r, l @ [u])))
      (\<lambda>i. if i = 2 then (\<lambda>s. snd (user_connected memory_redis (with_instance default_backend ''b'') 10 1 s)) else (\<lambda>s. s))
      10 11 (uuid_str 1) (ended_lease, []) = (Inr (), r', [1]) \<and> leases_of mem_zset default_backend r' 1 = Map.empty"
proof -
  have "indexed mem_zset default_backend ended_lease 1 \<noteq> None" "\<not> live 10 (leases_of mem_zset default_backend ended_lease 1)"
    by (simp_all add: ended_lease_facts(3,4) live_def)
  from sweep_drops_fresh_connection [OF memory_sets.redis_sorted_sets_axioms ended_lease_facts(1) this,
      where expired = "\<lambda>u (r, l). (Inr (), r, l @ [u])" and x = "[]" and later = 11 and t = 10 and inst = "''b''"]
  show ?thesis by auto
qed

end
