(* ===== verification/Maintenance.thy ===== *)
theory Maintenance
  imports Listener Sweeping Handlers
begin

section \<open>The maintenance task and the users it takes offline\<close>

text \<open>
  One iteration of \<open>_maintain\<close> (websocket/redis\_backend.py) with any \<open>on_presence_expired\<close>, and the one
  the application gives it (main.py): \<open>mark_user_offline\<close> on the manager, whose backend works on the
  same server.
\<close>

definition on_redis_with :: "('r \<times> 'x, 'a) op \<Rightarrow> ('r realtime \<times> 'x, 'a) op" where
  "on_redis_with f = (\<lambda>(s, x). case f (rb_redis s, x) of (v, r, x') \<Rightarrow> (v, s\<lparr>rb_redis := r\<rparr>, x'))"

text \<open>
  One iteration: the instant of the next heartbeat, the backend and what \<open>on_presence_expired\<close> works
  on.  An exception ends the iteration and is logged.
\<close>

definition maintain_step ::
  "'r redis \<Rightarrow> backend_config \<Rightarrow> (uuid \<Rightarrow> ('r \<times> 'x, unit) op) option \<Rightarrow> (uuid \<Rightarrow> 'r \<Rightarrow> 'r) \<Rightarrow> (string \<Rightarrow> nat \<Rightarrow> 'r \<Rightarrow> 'r) \<Rightarrow>
     instant \<Rightarrow> instant \<Rightarrow> uuid list \<Rightarrow> instant \<times> 'r realtime \<times> 'x \<Rightarrow> instant \<times> 'r realtime \<times> 'x" where
  "maintain_step R C on_presence_expired beat_env sweep_env now later local_users = (\<lambda>(next_heartbeat, s, x).
     case (if next_heartbeat \<le> now
           then (case on_redis (heartbeat R C beat_env now local_users) s of
                   (Inl e, s1) \<Rightarrow> (Inl e, next_heartbeat, s1)
                 | (Inr _, s1) \<Rightarrow> (Inr (), now + seconds (bc_presence_heartbeat_seconds C), s1))
           else (Inr (), next_heartbeat, s)) of
       (Inl _, next1, s1) \<Rightarrow> (next1, s1, x)
     | (Inr _, next1, s1) \<Rightarrow>
         (next1, snd (obind (on_first (sweep_typing R C now))
            (\<lambda>_. on_redis_with (sweep_presence R C on_presence_expired sweep_env now later)) (s1, x))))"

text \<open>The server as the manager's backend has it, and one put in its place.\<close>

definition server_of :: "'r realtime world \<Rightarrow> 'r \<Rightarrow> 'r" where
  "server_of w r = (case mg_backend (wd_manager w) of None \<Rightarrow> r | Some s \<Rightarrow> rb_redis s)"

definition with_server :: "'r \<Rightarrow> 'r realtime world \<Rightarrow> 'r realtime world" where
  "with_server r w = w\<lparr>wd_manager := (wd_manager w)
     \<lparr>mg_backend := map_option (\<lambda>s. s\<lparr>rb_redis := r\<rparr>) (mg_backend (wd_manager w))\<rparr>\<rparr>"

text \<open>\<open>lambda user_id: mark_user_offline(user_id, manager)\<close>, with the clock of each call.\<close>

definition presence_expired ::
  "'r redis \<Rightarrow> backend_config \<Rightarrow> (db \<Rightarrow> db) \<Rightarrow> (uuid \<Rightarrow> instant) \<Rightarrow> uuid \<Rightarrow> ('r \<times> 'r realtime world, unit) op" where
  "presence_expired R C env clock user_id = (\<lambda>(r, w).
     case mark_user_offline (redis_backend R C (clock user_id)) env (clock user_id) (clock user_id) user_id (with_server r w) of
       (v, w') \<Rightarrow> (v, server_of w' r, w'))"

subsection \<open>Going offline, as seen on the database and the channel\<close>

lemma peer_ids_others: "u \<notin> set (peer_ids d u)" and distinct_peer_ids: "distinct (peer_ids d u)"
  by (auto simp: peer_ids_def)

lemma first_occurrences_distinct: "distinct xs \<Longrightarrow> first_occurrences xs = xs"
  by (induction xs) (auto simp: filter_id_conv)

lemma peer_targets: "first_occurrences (filter (\<lambda>v. Some v \<noteq> Some u) (peer_ids d u)) = peer_ids d u"
proof -
  have "filter (\<lambda>v. Some v \<noteq> Some u) (peer_ids d u) = peer_ids d u"
    using peer_ids_others [of u d] by (auto simp: filter_id_conv)
  then show ?thesis by (simp add: first_occurrences_distinct distinct_peer_ids)
qed

lemma members_set_last_seen [simp]: "members (set_last_seen u t now d) = members d"
  by (simp add: set_last_seen_def split: option.split)

lemma peer_ids_set_last_seen [simp]: "peer_ids (set_last_seen v t now d) u = peer_ids d u"
  by (simp add: peer_ids_def)

text \<open>The notice the peers of a user get, if there are any.\<close>

definition offline_notices :: "backend_config \<Rightarrow> (uuid \<Rightarrow> instant) \<Rightarrow> db \<Rightarrow> uuid \<Rightarrow> (string \<times> string) list" where
  "offline_notices C clock d u =
     (if peer_ids d u = [] then []
      else [(events_channel C, json_compact (envelope C (peer_ids d u) (presence_offline_event u (clock u))))])"

definition announce_offline ::
  "backend_config \<Rightarrow> (uuid \<Rightarrow> instant) \<Rightarrow> uuid \<Rightarrow> (string \<times> string) list \<times> db \<Rightarrow> (string \<times> string) list \<times> db" where
  "announce_offline C clock u = (\<lambda>(out, d). (out @ offline_notices C clock d u, set_last_seen u (clock u) (clock u) d))"

definition reaches_peers :: "'r realtime world \<Rightarrow> bool" where
  "reaches_peers w \<longleftrightarrow> (\<exists>s. mg_backend (wd_manager w) = Some s \<and> rb_available s)"

context redis_server
begin

lemma publish_run:
  assumes "rb_available s" and "rd_up R (rb_redis s)" and "mg_backend m = Some s"
    and "first_occurrences (filter (\<lambda>v. Some v \<noteq> excluded) us) = targets"
  shows "send_to_users (redis_backend R C now) us event excluded m =
    (if targets = [] then (Inr (), m)
     else (Inr (), m\<lparr>mg_backend := Some (s\<lparr>rb_redis := rd_publish R (events_channel C) (json_compact (envelope C targets event)) (rb_redis s)\<rparr>)\<rparr>))"
  using assms
  by (auto simp: send_to_users_def Let_def ask_backend_def redis_backend_def redis_publish_users_def obind_def on_redis_def oreturn_def)

lemma presence_expired_run:
  assumes "rd_up R r" and "reaches_peers w"
  shows "\<exists>r' w'. presence_expired R C id clock u (r, w) = (Inr (), r', w') \<and> rd_up R r' \<and> zset r' = zset r \<and>
    reaches_peers w' \<and> (sent r', wd_db w') = announce_offline C clock u (sent r, wd_db w)"
proof -
  obtain s where s: "mg_backend (wd_manager w) = Some s" "rb_available s" using assms(2) by (auto simp: reaches_peers_def)
  let ?s = "s\<lparr>rb_redis := r\<rparr>" and ?peers = "peer_ids (wd_db w) u"
  let ?w = "(with_server r w)\<lparr>wd_db := set_last_seen u (clock u) (clock u) (wd_db w)\<rparr>"
  have m: "mg_backend (wd_manager ?w) = Some ?s" by (simp add: with_server_def s(1))
  have "mark_user_offline (redis_backend R C (clock u)) id (clock u) (clock u) u (with_server r w) =
      on_manager (send_to_users (redis_backend R C (clock u)) ?peers (presence_offline_event u (clock u)) (Some u)) ?w"
    by (simp add: mark_user_offline_def in_session_def Let_def obind_def interleave_def with_server_def)
  also have "\<dots> = (Inr (), if ?peers = [] then ?w else ?w\<lparr>wd_manager := (wd_manager ?w)\<lparr>mg_backend := Some (?s\<lparr>rb_redis :=
      rd_publish R (events_channel C) (json_compact (envelope C ?peers (presence_offline_event u (clock u)))) r\<rparr>)\<rparr>\<rparr>)"
    using publish_run [OF _ _ m peer_targets [of u "wd_db w"], where C = C and now = "clock u" and event = "presence_offline_event u (clock u)"]
      assms(1) s(2)
    by (simp add: on_manager_def)
  finally show ?thesis
    using assms(1) s m
    by (auto simp: presence_expired_def server_of_def reaches_peers_def announce_offline_def offline_notices_def)
qed

lemma offline_listener:
  "presence_listener R zset reaches_peers (\<lambda>(r, w). (sent r, wd_db w)) (announce_offline C clock) (presence_expired R C id clock)"
proof (unfold_locales, goal_cases)
  case (1 r w u)
  then show ?case using presence_expired_run [of r w C clock u] by simp
qed simp_all

end

subsection \<open>A whole sweep\<close>

definition seen_until :: "(uuid \<Rightarrow> instant) \<Rightarrow> uuid set \<Rightarrow> user \<Rightarrow> user" where
  "seen_until clock gone u = (if u_id u \<in> gone then touch_last_seen (clock (u_id u), clock (u_id u)) u else u)"

lemma set_last_seen_map:
  "set_last_seen v t t d = d\<lparr>users := map (\<lambda>u. if u_id u = v then touch_last_seen (t, t) u else u) (users d)\<rparr>"
proof (cases "get_user_by_id d v")
  case None
  then have "map (\<lambda>u. if u_id u = v then touch_last_seen (t, t) u else u) (users d) = users d"
    by (auto simp: get_user_by_id_def find_None_iff intro: map_idI)
  then show ?thesis using None by (simp add: set_last_seen_def)
next
  case (Some u)
  then show ?thesis by (simp add: set_last_seen_def update_where_def)
qed

lemma fold_announce_offline:
  "distinct gone \<Longrightarrow> fold (announce_offline C clock) gone (out, d) =
    (out @ concat (map (offline_notices C clock d) gone), d\<lparr>users := map (seen_until clock (set gone)) (users d)\<rparr>)"
proof (induction gone arbitrary: out d)
  case Nil
  have "map (seen_until clock {}) (users d) = users d" by (rule map_idI) (simp add: seen_until_def)
  then show ?case by simp
next
  case (Cons v gone)
  have "offline_notices C clock (set_last_seen v t t d) = offline_notices C clock d" for t
    by (simp add: offline_notices_def fun_eq_iff)
  moreover have "seen_until clock (set gone) (if u_id u = v then touch_last_seen (clock v, clock v) u else u) =
      seen_until clock (set (v # gone)) u" for u
    using Cons.prems by (auto simp: seen_until_def touch_last_seen_def)
  ultimately show ?case using Cons
    by (simp add: announce_offline_def set_last_seen_map [of v] comp_def)
qed

text \<open>C26: Users whose leases ran out go offline, once: a sweep of the application that nothing interferes with stores the
  last-seen instant of exactly the indexed users, due by now, who have no running lease, publishes
  one offline notice for each of them who has peers, addressed to the peers, changes nothing else in
  the database and leaves no index entry that is due, for up to a hundred due users.\<close>

theorem expired_users_go_offline:
  assumes "redis_server R zset hash strval counter ttl sent" and "rd_up R r" and "reaches_peers w"
    and "dom (zset r (presence_users_key C)) \<subseteq> range uuid_str"
    and "card {u. \<exists>e \<le> now. indexed zset C r u = Some e} \<le> 100"
  shows "\<exists>gone r' w'. sweep_presence R C (Some (presence_expired R C id clock)) (\<lambda>_ _ s. s) now later (r, w) = (Inr (), r', w') \<and>
    distinct gone \<and> set gone = {u. (\<exists>e \<le> now. indexed zset C r u = Some e) \<and> \<not> live now (leases_of zset C r u)} \<and>
    wd_db w' = (wd_db w)\<lparr>users := map (seen_until clock (set gone)) (users (wd_db w))\<rparr> \<and>
    sent r' = sent r @ concat (map (offline_notices C clock (wd_db w)) gone) \<and>
    (\<forall>u e. indexed zset C r' u = Some e \<longrightarrow> now < e)"
proof -
  note listener = redis_server.offline_listener [OF assms(1), where C = C and clock = clock]
  obtain gone r' w' where swept: "sweep_presence R C (Some (presence_expired R C id clock)) (\<lambda>_ _ s. s) now later (r, w) = (Inr (), r', w')"
    "distinct gone" "set gone = {u. (\<exists>e \<le> now. indexed zset C r u = Some e) \<and> \<not> live now (leases_of zset C r u)}"
    "(sent r', wd_db w') = fold (announce_offline C clock) gone (sent r, wd_db w)"
    "\<forall>u e. indexed zset C r' u = Some e \<longrightarrow> now < e"
    using presence_listener.sweep_result [OF listener assms(2,3,4,5), where later = later] by auto
  with fold_announce_offline [OF swept(2), of C clock "sent r" "wd_db w"] have
    "wd_db w' = (wd_db w)\<lparr>users := map (seen_until clock (set gone)) (users (wd_db w))\<rparr>"
    "sent r' = sent r @ concat (map (offline_notices C clock (wd_db w)) gone)" by simp_all
  with swept(1,2,3,5) show ?thesis by blast
qed

subsection \<open>On the example server\<close>

interpretation recorder: presence_listener memory_redis mem_zset "\<lambda>_. True" snd "\<lambda>u l. l @ [u]" "\<lambda>u (r, l). (Inr (), r, l @ [u])"
  by unfold_locales simp_all

interpretation offline: presence_listener memory_redis mem_zset reaches_peers "\<lambda>(r, w). (mem_published r, wd_db w)"
  "announce_offline C clock" "presence_expired memory_redis C id clock"
  by (rule memory_server.offline_listener)

definition expiring_world :: "redis_memory realtime world" where
  "expiring_world = \<lparr>wd_db = chat_db, wd_manager = (new_manager (\<lambda>_. None))\<lparr>mg_backend := Some \<lparr>rb_available = True, rb_redis = ended_lease\<rparr>\<rparr>,
     wd_events = [], wd_connections = 0\<rparr>"

theorem expired_users_go_offline_witness:
  "\<exists>r' w'. sweep_presence memory_redis default_backend (Some (presence_expired memory_redis default_backend id (\<lambda>_. 7)))
      (\<lambda>_ _ s. s) 10 11 (ended_lease, expiring_world) = (Inr (), r', w') \<and>
    map u_last_seen (users (wd_db w')) = [Some 7, None, None] \<and> length (mem_published r') = 1"
proof -
  have due: "{u. \<exists>e \<le> (10 :: int). indexed mem_zset default_backend ended_lease u = Some e} = {1}"
    by (auto simp: ended_lease_facts(3) split: if_splits)
  have "dom (mem_zset ended_lease (presence_users_key default_backend)) \<subseteq> range uuid_str"
    by (simp add: ended_lease_facts(2))
  moreover have "card {u. \<exists>e \<le> (10 :: int). indexed mem_zset default_backend ended_lease u = Some e} \<le> 100"
    unfolding due by simp
  moreover have "reaches_peers expiring_world" by (simp add: reaches_peers_def expiring_world_def)
  moreover have "{u. (\<exists>e \<le> 10. indexed mem_zset default_backend ended_lease u = Some e) \<and>
      \<not> live 10 (leases_of mem_zset default_backend ended_lease u)} = {1}"
    using due by (auto simp: ended_lease_facts(4) live_def)
  ultimately obtain gone r' w' where swept:
    "sweep_presence memory_redis default_backend (Some (presence_expired memory_redis default_backend id (\<lambda>_. 7)))
      (\<lambda>_ _ s. s) 10 11 (ended_lease, expiring_world) = (Inr (), r', w')"
    "distinct gone" "set gone = {1}"
    "wd_db w' = chat_db\<lparr>users := map (seen_until (\<lambda>_. 7) {1}) (users chat_db)\<rparr>"
    "mem_published r' = mem_published ended_lease @ concat (map (offline_notices default_backend (\<lambda>_. 7) chat_db) gone)"
    using expired_users_go_offline [OF memory_server.redis_server_axioms ended_lease_facts(1), of expiring_world default_backend 10 "\<lambda>_. 7" 11]
    by (auto simp: expiring_world_def)
  have "gone = [1]" using swept(2,3) by (cases gone rule: remdups_adj.cases) auto
  moreover have "mem_published ended_lease = []" by (simp add: ended_lease_def empty_memory_def)
  moreover have "peer_ids chat_db 1 \<noteq> []" by code_simp
  ultimately have "length (mem_published r') = 1" using swept(5) by (simp add: offline_notices_def)
  moreover have "map u_last_seen (map (seen_until (\<lambda>_. 7) {1}) (users chat_db)) = [Some 7, None, None]" by code_simp
  ultimately show ?thesis using swept(1,4) by auto
qed

end
