(* ===== verification/Limits.thy ===== *)
theory Limits
  imports Realtime
begin

section \<open>Rate limits\<close>

text \<open>
  The fixed window of \<open>allow_action\<close>: a counter per user and action that the server drops when its
  time to live, set by the first call, is over.  The lemmas follow the counter through any
  interleaving of calls by all users.
\<close>

text \<open>Calls by several users, each with the limit \<open>L\<close> gives for its key.\<close>

fun run_allow ::
  "'r redis \<Rightarrow> backend_config \<Rightarrow> (string \<Rightarrow> int) \<Rightarrow> int \<Rightarrow> (uuid \<times> string) list \<Rightarrow> ('r, bool list) op" where
  "run_allow R C L window [] = oreturn []"
| "run_allow R C L window ((u, action) # calls) =
     obind (redis_allow_action R C u action (L (rate_key C action u)) window) (\<lambda>b.
     obind (run_allow R C L window calls) (\<lambda>bs. oreturn (b # bs)))"

definition replies_for :: "backend_config \<Rightarrow> string \<Rightarrow> (uuid \<times> string) list \<Rightarrow> bool list \<Rightarrow> bool list" where
  "replies_for C key calls replies =
     map snd (filter (\<lambda>((u, action), b). rate_key C action u = key) (zip calls replies))"

definition calls_for :: "backend_config \<Rightarrow> string \<Rightarrow> (uuid \<times> string) list \<Rightarrow> nat" where
  "calls_for C key calls = length (filter (\<lambda>(u, action). rate_key C action u = key) calls)"

definition used :: "int option \<Rightarrow> int" where
  "used c = (case c of None \<Rightarrow> 0 | Some n \<Rightarrow> n)"

context redis_counters
begin

lemma allow_action_result:
  assumes "rd_up R r"
  shows "\<exists>r'. redis_allow_action R C u action limit window r =
      (Inr (used (counter r (rate_key C action u)) + 1 \<le> limit), r') \<and> rd_up R r' \<and>
    counter r' = (counter r)(rate_key C action u \<mapsto> used (counter r (rate_key C action u)) + 1) \<and>
    ttl r' = (if used (counter r (rate_key C action u)) = 0 then (ttl r)(rate_key C action u \<mapsto> window) else ttl r)"
proof -
  let ?k = "rate_key C action u"
  have n: "fst (rd_incr R ?k r) = used (counter r ?k) + 1"
    by (simp add: incr_result used_def split: option.splits)
  obtain n r1 where i: "rd_incr R ?k r = (n, r1)" by (cases "rd_incr R ?k r")
  then have r1: "counter r1 = (counter r)(?k \<mapsto> used (counter r ?k) + 1)" "ttl r1 = ttl r" "rd_up R r1"
    using incr [of ?k r] incr_ttl [of ?k r] counter_up(1) [of ?k r] n assms by auto
  show ?thesis
    using assms n i r1
    by (auto simp: redis_allow_action_def rate_limit_script_def obind_def oreturn_def)
qed

lemma run_allow_result:
  "rd_up R r \<Longrightarrow> 0 \<le> used (counter r k) \<Longrightarrow>
    \<exists>replies r'. run_allow R C L window calls r = (Inr replies, r') \<and> length replies = length calls \<and>
      replies_for C k calls replies = map (\<lambda>i. used (counter r k) + int i < L k) [0..<calls_for C k calls] \<and>
      used (counter r' k) = used (counter r k) + int (calls_for C k calls) \<and>
      ttl r' k = (if used (counter r k) = 0 \<and> 0 < calls_for C k calls then Some window else ttl r k)"
proof (induction calls arbitrary: r)
  case (Cons c calls)
  obtain u action where c: "c = (u, action)" by (cases c)
  let ?k = "rate_key C action u"
  obtain r1 where r1: "redis_allow_action R C u action (L ?k) window r = (Inr (used (counter r ?k) + 1 \<le> L ?k), r1)"
    "rd_up R r1" "counter r1 = (counter r)(?k \<mapsto> used (counter r ?k) + 1)"
    "ttl r1 = (if used (counter r ?k) = 0 then (ttl r)(?k \<mapsto> window) else ttl r)"
    using allow_action_result [OF Cons.prems(1)] by blast
  have "0 \<le> used (counter r1 k)" using Cons.prems(2) r1(3) by (auto simp: used_def)
  from Cons.IH [OF r1(2) this] obtain replies r' where
    r': "run_allow R C L window calls r1 = (Inr replies, r')" "length replies = length calls"
      "replies_for C k calls replies = map (\<lambda>i. used (counter r1 k) + int i < L k) [0..<calls_for C k calls]"
      "used (counter r' k) = used (counter r1 k) + int (calls_for C k calls)"
      "ttl r' k = (if used (counter r1 k) = 0 \<and> 0 < calls_for C k calls then Some window else ttl r1 k)" by blast
  have run: "run_allow R C L window (c # calls) r = (Inr ((used (counter r ?k) + 1 \<le> L ?k) # replies), r')"
    using r1(1) r'(1) by (simp add: c obind_def oreturn_def)
  show ?case
  proof (cases "?k = k")
    case True
    have "[0..<Suc n] = 0 # map Suc [0..<n]" for n by (simp add: upt_conv_Cons map_Suc_upt del: upt_Suc)
    then show ?thesis
      using run r'(2-5) r1(3,4) True Cons.prems(2)
      by (auto simp: c replies_for_def calls_for_def used_def algebra_simps simp del: upt_Suc)
  next
    case False
    then show ?thesis
      using run r'(2-5) r1(3,4) by (auto simp: c replies_for_def calls_for_def)
  qed
qed (simp add: oreturn_def replies_for_def calls_for_def)

end

text \<open>C18: A window admits exactly its limit: however the calls of all users interleave, of the calls of
  one user for one action made while their counter exists the first are admitted up to the limit and
  all later ones refused, and the counter always carries the window as its time to live.\<close>

theorem rate_limit_exact:
  assumes "redis_counters R counter ttl" and "rd_up R r" and "counter r (rate_key C action u) = None"
  shows "\<exists>replies r'. run_allow R C L window calls r = (Inr replies, r') \<and> length replies = length calls \<and>
    (let k = rate_key C action u; n = calls_for C k calls in
      replies_for C k calls replies = map (\<lambda>i. int i < L k) [0..<n] \<and>
      ttl r' k = (if 0 < n then Some window else ttl r k))"
proof -
  have "used (counter r (rate_key C action u)) = 0" using assms(3) by (simp add: used_def)
  with redis_counters.run_allow_result [OF assms(1,2), where k = "rate_key C action u" and C = C and L = L and
      window = window and calls = calls]
  show ?thesis unfolding Let_def by force
qed

lemma rate_key_inject [simp]: "rate_key C action u = rate_key C action v \<longleftrightarrow> u = v"
  by (simp add: rate_key_def)

theorem rate_limit_exact_witness:
  "\<exists>replies r'. run_allow memory_redis default_backend (\<lambda>_. 2) 60
      [(1, ''typing''), (1, ''typing''), (2, ''typing''), (1, ''typing'')] empty_memory = (Inr replies, r') \<and>
    replies_for default_backend (rate_key default_backend ''typing'' 1)
      [(1, ''typing''), (1, ''typing''), (2, ''typing''), (1, ''typing'')] replies = [True, True, False]"
proof -
  have "rd_up memory_redis empty_memory" "mem_counters empty_memory (rate_key default_backend ''typing'' 1) = None"
    by (simp_all add: memory_redis_def empty_memory_def)
  moreover have "calls_for default_backend (rate_key default_backend ''typing'' 1)
      [(1, ''typing''), (1, ''typing''), (2, ''typing''), (1, ''typing'')] = 3"
    by (simp add: calls_for_def)
  moreover have "map (\<lambda>i. int i < 2) [0..<3] = [True, True, False]" by (simp add: upt_rec)
  ultimately show ?thesis
    using rate_limit_exact [OF memory_counters.redis_counters_axioms, of empty_memory default_backend "''typing''" 1 "\<lambda>_. 2" 60
      "[(1, ''typing''), (1, ''typing''), (2, ''typing''), (1, ''typing'')]"]
    unfolding Let_def by metis
qed

end
