(* ===== verification/Envelopes.thy ===== *)
theory Envelopes
  imports Realtime
begin

section \<open>Events between instances\<close>

text \<open>
  An event published for some users is what every subscribed instance delivers to exactly those
  users, and a typing notice that is not renewed is withdrawn by one sweep, once.
\<close>

lemma traverse_uuid_strings: "traverse uuid_of_json (map (\<lambda>u. JStr (uuid_str u)) us) = Inr us"
  by (induction us) (simp_all add: uuid_of_string_str)

lemma targets_and_event_written:
  assumes "writable event" and "kvs = [(''targets'', uuid_strings us), (''event'', event)] \<or>
    kvs = [(''source'', JStr i), (''targets'', uuid_strings us), (''event'', event)]"
  shows "targets_and_event (json_compact (JObj kvs)) = Inr (us, event)"
proof -
  have "json_loads (json_compact (JObj kvs)) = Inr (JObj kvs)"
    using assms by (intro loads_compact) (auto simp: uuid_strings_def)
  then show ?thesis
    using assms(2) by (auto simp: targets_and_event_def dict_item_def uuid_strings_def traverse_uuid_strings)
qed

lemma received_envelope_written:
  "writable (JObj event) \<Longrightarrow> received_envelope (RawStr (json_compact (envelope C us (JObj event)))) = Inr (Some (us, event))"
  unfolding envelope_def received_envelope_def
  by (simp add: targets_and_event_written [OF _ disjI2 [OF refl]] del: json_compact.simps writable.simps)

text \<open>C20: An event published through Redis reaches the users it was meant for: publishing sends one
  message on the events channel, and an instance that receives it delivers exactly that event to
  exactly those users, in order, whatever the event holds.\<close>

theorem published_event_is_received:
  assumes "redis_channels R sent" and "rd_up R (rb_redis s)" and "rb_available s" and "writable (JObj event)"
  shows "\<exists>s' txt. redis_publish_users R C us (JObj event) s = (Inr True, s') \<and>
    sent (rb_redis s') = sent (rb_redis s) @ [(events_channel C, txt)] \<and>
    received_envelope (RawStr txt) = Inr (Some (us, event))"
  using assms received_envelope_written [OF assms(4), of C us]
  by (auto simp: redis_publish_users_def on_redis_def obind_def oreturn_def redis_channels.publish
      simp del: json_compact.simps)

subsection \<open>Typing notices\<close>

lemma typing_keys_apart [simp]:
  "typing_expirations_key C \<noteq> typing_data_key C" "typing_data_key C \<noteq> typing_expirations_key C"
  by (auto simp: typing_expirations_key_def typing_data_key_def)

definition announcement :: "backend_config \<Rightarrow> uuid list \<Rightarrow> json \<Rightarrow> string \<times> string" where
  "announcement C us event = (events_channel C, json_compact (envelope C us event))"

lemma publish_result:
  assumes "redis_channels R sent" and "rd_up R (rb_redis s)" and "rb_available s"
  shows "redis_publish_users R C us event s =
    (Inr True, s\<lparr>rb_redis := rd_publish R (events_channel C) (json_compact (envelope C us event)) (rb_redis s)\<rparr>)"
  using assms by (simp add: redis_publish_users_def on_redis_def obind_def oreturn_def)

lemma sweep_nothing:
  assumes "redis_sorted_sets R zset" and "rd_up R (rb_redis s)"
    and "\<forall>e \<le> t. \<forall>m. zset (rb_redis s) (typing_expirations_key C) m \<noteq> Some e"
  shows "sweep_typing R C t s = (Inr (), s)"
proof -
  have "set (rd_zrangebyscore R (typing_expirations_key C) t 100 (rb_redis s)) \<subseteq> {}"
    using redis_sorted_sets.zrangebyscore_set [OF assms(1), of "typing_expirations_key C" t 100 "rb_redis s"] assms(3)
    by blast
  then have "rd_zrangebyscore R (typing_expirations_key C) t 100 (rb_redis s) = []" by simp
  then show ?thesis
    using assms(2) by (simp add: sweep_typing_def on_redis_def obind_def typing_sweep_script_def oreturn_def)
qed

lemma sweep_one:
  assumes "redis_sorted_sets R zset" and "redis_hashes R hash" and "redis_channels R sent"
    and "rd_up R (rb_redis s)" and "rb_available s" and "e \<le> t"
    and "zset (rb_redis s) (typing_expirations_key C) = [member \<mapsto> e]"
    and "hash (rb_redis s) (typing_data_key C) member = Some (json_compact (JObj [(''targets'', uuid_strings us), (''event'', event)]))"
    and "writable event"
  shows "\<exists>s'. sweep_typing R C t s = (Inr (), s') \<and> rd_up R (rb_redis s') \<and> rb_available s' \<and>
    zset (rb_redis s') (typing_expirations_key C) = Map.empty \<and>
    sent (rb_redis s') = sent (rb_redis s) @ [announcement C us event]"
proof -
  let ?k = "typing_expirations_key C" and ?d = "typing_data_key C" and ?r = "rb_redis s"
  have due: "{m. \<exists>e' \<le> t. zset ?r ?k m = Some e'} = {member}" using assms(6,7) by (auto split: if_splits)
  have "set (rd_zrangebyscore R ?k t 100 ?r) \<subseteq> {member}"
    using redis_sorted_sets.zrangebyscore_set [OF assms(1), of ?k t 100 ?r] by (simp add: due)
  moreover have "length (rd_zrangebyscore R ?k t 100 ?r) = 1"
    unfolding redis_sorted_sets.zrangebyscore_length [OF assms(1)] due by simp
  ultimately have range: "rd_zrangebyscore R ?k t 100 ?r = [member]"
    by (cases "rd_zrangebyscore R ?k t 100 ?r" rule: remdups_adj.cases) auto
  have removed: "fst (rd_zrem R ?k member ?r) = 1"
    using redis_sorted_sets.zrem_result [OF assms(1), of ?k member ?r] assms(7) by simp
  define r1 where "r1 = rd_hdel R ?d member (snd (rd_zrem R ?k member ?r))"
  have data: "rd_hget R ?d member (snd (rd_zrem R ?k member ?r)) =
      Some (json_compact (JObj [(''targets'', uuid_strings us), (''event'', event)]))"
    using assms(8) by (simp add: redis_hashes.hget [OF assms(2)] redis_hashes.hash_frame [OF assms(2)])
  have script: "typing_sweep_script R ?k ?d t ?r =
      ([json_compact (JObj [(''targets'', uuid_strings us), (''event'', event)])], r1)"
    using range removed data
    by (simp add: typing_sweep_script_def case_prod_beta Let_def r1_def del: json_compact.simps)
  have r1: "rd_up R r1" "zset r1 ?k = Map.empty" "sent r1 = sent ?r"
    using assms(4,7) redis_sorted_sets.zset_up(2) [OF assms(1)] redis_sorted_sets.zset_frame(4) [OF assms(1)]
      redis_sorted_sets.zrem [OF assms(1)] redis_channels.sent_frame(2,4) [OF assms(3)]
      redis_channels.sent_up(3) [OF assms(3)]
    by (simp_all add: r1_def fun_eq_iff)
  define s' where "s' = s\<lparr>rb_redis := rd_publish R (events_channel C) (json_compact (envelope C us event)) r1\<rparr>"
  have "targets_and_event (json_compact (JObj [(''targets'', uuid_strings us), (''event'', event)])) = Inr (us, event)"
    using assms(9) by (intro targets_and_event_written) auto
  then have "sweep_typing R C t s = (Inr (), s')"
    using assms(4,5) script publish_result [OF assms(3), of "s\<lparr>rb_redis := r1\<rparr>" C us event] r1(1)
    by (simp add: sweep_typing_def on_redis_def obind_def oreturn_def sweep_typing_data_def s'_def del: json_compact.simps)
  moreover have "rd_up R (rb_redis s')" "rb_available s'" "zset (rb_redis s') ?k = Map.empty"
    "sent (rb_redis s') = sent ?r @ [announcement C us event]"
    using r1 assms(5) redis_sorted_sets.zset_frame(6) [OF assms(1)] redis_channels.publish [OF assms(3)]
      redis_channels.sent_up(1) [OF assms(3)]
    by (simp_all add: s'_def announcement_def)
  ultimately show ?thesis by blast
qed

text \<open>A forgotten typing notice is withdrawn once: after a start at an instant nothing is withdrawn
  before its time to live is over, the first sweep after it publishes the stop event for the same
  users exactly once, and later sweeps publish nothing.\<close>

theorem typing_notice_withdrawn_once:
  assumes "redis_sorted_sets R zset" and "redis_hashes R hash" and "redis_channels R sent"
    and "rd_up R (rb_redis s)" and "rb_available s" and "zset (rb_redis s) (typing_expirations_key C) = Map.empty"
    and "writable stopped" and "early < now + bc_typing_ttl_micros C" and "now + bc_typing_ttl_micros C \<le> late"
  shows "\<exists>s1 s2. redis_typing_started R C now cid uid us started stopped s = (Inr True, s1) \<and>
    sent (rb_redis s1) = sent (rb_redis s) @ [announcement C us started] \<and>
    sweep_typing R C early s1 = (Inr (), s1) \<and>
    sweep_typing R C late s1 = (Inr (), s2) \<and>
    sent (rb_redis s2) = sent (rb_redis s1) @ [announcement C us stopped] \<and>
    sweep_typing R C later s2 = (Inr (), s2)"
proof -
  let ?k = "typing_expirations_key C" and ?d = "typing_data_key C" and ?r = "rb_redis s" and ?m = "typing_member cid uid"
  let ?data = "json_compact (JObj [(''targets'', uuid_strings us), (''event'', stopped)])"
  define r1 where "r1 = rd_zadd R ?k (now + bc_typing_ttl_micros C) ?m (rd_hset R ?d ?m ?data ?r)"
  note Z = redis_sorted_sets.zadd [OF assms(1)] redis_sorted_sets.zset_frame [OF assms(1)]
    redis_sorted_sets.zset_up [OF assms(1)]
  note H = redis_hashes.hset [OF assms(2)] redis_hashes.hash_frame [OF assms(2)]
  note P = redis_channels.publish [OF assms(3)] redis_channels.sent_frame [OF assms(3)] redis_channels.sent_up [OF assms(3)]
  have r1: "rd_up R r1" "zset r1 ?k = [?m \<mapsto> now + bc_typing_ttl_micros C]" "hash r1 ?d ?m = Some ?data" "sent r1 = sent ?r"
    using assms(4,6) by (simp_all add: r1_def Z H P)
  define s1 where "s1 = s\<lparr>rb_redis := rd_publish R (events_channel C) (json_compact (envelope C us started)) r1\<rparr>"
  have started: "redis_typing_started R C now cid uid us started stopped s = (Inr True, s1)"
    using assms(4,5) r1(1) publish_result [OF assms(3), of "s\<lparr>rb_redis := r1\<rparr>" C us started]
    by (simp add: redis_typing_started_def on_redis_def obind_def Let_def s1_def del: json_compact.simps flip: r1_def)
  have s1: "rd_up R (rb_redis s1)" "rb_available s1" "zset (rb_redis s1) ?k = [?m \<mapsto> now + bc_typing_ttl_micros C]"
    "hash (rb_redis s1) ?d ?m = Some ?data" "sent (rb_redis s1) = sent ?r @ [announcement C us started]"
    using r1 assms(5) by (simp_all add: s1_def Z H P announcement_def)
  have "sweep_typing R C early s1 = (Inr (), s1)"
    by (rule sweep_nothing [OF assms(1) s1(1)]) (use s1(3) assms(8) in auto)
  moreover obtain s2 where s2: "sweep_typing R C late s1 = (Inr (), s2)" "rd_up R (rb_redis s2)"
    "zset (rb_redis s2) ?k = Map.empty" "sent (rb_redis s2) = sent (rb_redis s1) @ [announcement C us stopped]"
    using sweep_one [OF assms(1-3) s1(1,2) assms(9) s1(3,4) assms(7)] by blast
  moreover have "sweep_typing R C later s2 = (Inr (), s2)"
    by (rule sweep_nothing [OF assms(1) s2(2)]) (simp add: s2(3))
  ultimately show ?thesis using started s1(5) by blast
qed

theorem published_event_is_received_witness:
  "\<exists>s' txt. redis_publish_users memory_redis default_backend [1] (JObj [(''type'', JStr ''x'')])
      \<lparr>rb_available = True, rb_redis = empty_memory\<rparr> = (Inr True, s') \<and>
    received_envelope (RawStr txt) = Inr (Some ([1], [(''type'', JStr ''x'')]))"
proof -
  have "rd_up memory_redis (rb_redis \<lparr>rb_available = True, rb_redis = empty_memory\<rparr>)"
    by (simp add: memory_redis_def empty_memory_def)
  from published_event_is_received [OF memory_channels.redis_channels_axioms this, of "[(''type'', JStr ''x'')]"
      default_backend "[1]"]
  show ?thesis by force
qed

theorem typing_notice_withdrawn_once_witness:
  "\<exists>s1 s2. redis_typing_started memory_redis default_backend 0 9 1 [2] (JStr ''a'') (JStr ''b'')
      \<lparr>rb_available = True, rb_redis = empty_memory\<rparr> = (Inr True, s1) \<and>
    sweep_typing memory_redis default_backend 5000000 s1 = (Inr (), s2) \<and>
    mem_published (rb_redis s2) = mem_published (rb_redis s1) @ [announcement default_backend [2] (JStr ''b'')]"
proof -
  let ?s = "\<lparr>rb_available = True, rb_redis = empty_memory\<rparr>"
  have "rd_up memory_redis (rb_redis ?s)" "rb_available ?s"
    "mem_zset (rb_redis ?s) (typing_expirations_key default_backend) = Map.empty"
    by (simp_all add: memory_redis_def empty_memory_def mem_zset_def)
  moreover have "bc_typing_ttl_micros default_backend = 5000000"
    by (simp add: default_backend_def backend_config_of_def)
  ultimately obtain s1 s2 where "redis_typing_started memory_redis default_backend 0 9 1 [2] (JStr ''a'') (JStr ''b'') ?s = (Inr True, s1)"
    "sweep_typing memory_redis default_backend 5000000 s1 = (Inr (), s2)"
    "mem_published (rb_redis s2) = mem_published (rb_redis s1) @ [announcement default_backend [2] (JStr ''b'')]"
    using typing_notice_withdrawn_once [OF memory_sets.redis_sorted_sets_axioms memory_hashes.redis_hashes_axioms
      memory_channels.redis_channels_axioms, of ?s default_backend "JStr ''b''" 4999999 0 5000000 9 1 "[2]" "JStr ''a''" 6000000]
    by auto
  then show ?thesis by blast
qed

end
