(* ===== verification/Spec2Isabelle.thy ===== *)
theory Spec2Isabelle
  imports System Migrations Application Maintenance Limits Envelopes
begin

text \<open>
  Chatterbox: a model of the backend under \<open>src/backend/app\<close>.

  The program.  Chatterbox is a chat service: FastAPI instances over one PostgreSQL database, one
  Redis server for what instances tell each other, and one MinIO bucket for attachments.  A request
  arrives over HTTP (\<open>api/\<close>) or as a frame on a WebSocket (\<open>websocket/\<close>); both authenticate with a
  signed token (\<open>core/security.py\<close>), run a service (\<open>services/\<close>) over repositories
  (\<open>repositories/\<close>) in one transaction, and the WebSocket handlers then push events to the users
  concerned through the connection manager (\<open>websocket/manager.py\<close>), which goes through Redis
  (\<open>websocket/redis_backend.py\<close>) when that is available and to its own sockets otherwise.

  State.  \<open>database\<close> (Database) has one list of rows per SQLAlchemy model, with the constraints the
  models declare as \<open>wf_db\<close>; the object store and the Redis server are values of a type of their
  own, reached only through the records of their commands; \<open>manager\<close> is the state of
  \<open>ConnectionManager\<close> with every frame written so far; \<open>world\<close> is what a WebSocket handler
  runs on (database, manager, metrics); \<open>app\<close> is the state start-up leaves.  Every operation takes
  the state and gives its result, \<open>Inr\<close> a value or \<open>Inl\<close> the exception it raises, with the state it leaves
  (a transaction that raises leaves the database as it was).  Clock readings, fresh identifiers and
  what other transactions, clients or tasks do between two steps of an operation (\<open>env\<close>) are arguments.

  The theories, in the order of their dependencies:
  \<^item> Prelude: exceptions (\<open>core/errors.py\<close>), results and their sequencing, \<open>scalar_one_or_none\<close>,
    keyed updates of a table, list facts.  PyText, Uuid, PyTime, Base64, Json, JsonText, JsonWrite:
    the parts of the Python library the backend computes with; round trips of UUIDs, of datetimes
    between \<open>isoformat\<close> and \<open>fromisoformat\<close>, of base64 and of JSON text.
  \<^item> Settings: \<open>core/config.py\<close>.  Database: \<open>models/\<close>, with one insertion lemma per table.
    Schema and Migrations: the tables the models declare, DDL statements and what PostgreSQL makes of
    them, the four revisions under \<open>alembic/\<close>.  The migrations build what the models declare, from every
    released version; downgrades undo upgrades; and the migrated constraints are those of \<open>wf_db\<close>.
  \<^item> Security, Users, Auth: \<open>core/security.py\<close>, users, registration, login, refresh rotation, logout
    and \<open>api/dependencies.py\<close>; tokens are used once, kept apart by type, and an account that was
    registered can log in; the race between two refreshes is shown.
  \<^item> Conversations, Cursor, Messages, Receipts: the services of the same names.  Who may read and
    write, that two users share at most one direct conversation, what an accepted message stores,
    that paging back and recovering forward are complete, and that receipt times are set once.
  \<^item> AttachmentStore, Storage, Scanning, Attachments, Lifecycle, Cleanup: attachment rows,
    \<open>core/storage.py\<close>, \<open>core/scanning.py\<close>, \<open>services/attachment_service.py\<close>, all operations that touch
    attachments as one transition system with its invariant, and \<open>services/attachment_cleanup.py\<close>.
  \<^item> Redis, Realtime, Sweeping, Limits, Envelopes, Listener: the commands of the server and their
    laws; the Lua scripts and operations of \<open>websocket/redis_backend.py\<close>; presence as a refinement
    of a table of leases; the sweep with any \<open>on_presence_expired\<close>; the rate limit; envelopes from
    publisher to receiver; start, stop, one iteration of the listener, and the heartbeat.
  \<^item> Manager, Events, Handlers, Fanout, Dispatch, Endpoint: \<open>websocket/manager.py\<close>, \<open>events.py\<close>,
    \<open>handlers.py\<close>, \<open>auth.py\<close>, \<open>services/presence_service.py\<close> and \<open>api/websocket.py\<close>; whom a frame can
    reach, that every payload is answered, what a sent message pushes, and that a connection leaves
    no socket behind.  Maintenance: one iteration of the maintenance task with the callback \<open>main.py\<close>
    gives it; a sweep takes exactly the users offline whose leases ran out and tells their peers.
  \<^item> Api, Requests: every route of \<open>api/\<close> and the exception handlers of \<open>core/errors.py\<close>; one function
    \<open>serve\<close> for all requests, which keeps the constraints, changes nothing when it refuses, and needs a
    user wherever the code demands one.
  \<^item> Observability: \<open>core/observability.py\<close>, the logging configuration, the log lines and metrics, the
    middleware (every request has one identifier, on its response and on all its log lines, and is
    counted once) and the tracing set-up.  Operations: the start and shutdown of \<open>main.py\<close> with
    everything they open and close, and \<open>core/health.py\<close>.  Application: what importing \<open>main.py\<close>
    assembles, with the table of routes; no request fits two of them.
  \<^item> System: everything that changes the database, the store or the connection table as one step
    relation, and the conjunction of the components' invariants as its invariant.

  Interfaces.  \<open>token_library\<close>, \<open>object_store\<close> and the \<open>redis_\<close> locales state the documented laws of
  PyJWT with pwdlib, MinIO and Redis; each is interpreted on a complete in-memory implementation,
  on which the witnesses run.  \<open>distributed_backend\<close> is what the manager needs of a backend, provided by the
  Redis backend; \<open>presence_listener\<close> is what the sweep needs of its callback, provided by going offline;
  \<open>access_gate\<close> is what services need of \<open>get_authorized\<close>; \<open>keyed_update\<close> and \<open>marking\<close>
  are the two ways rows are updated; \<open>effects\<close> composes what an operation may do to its state, over
  sessions and handlers.

  Loops and bounds.  The JSON reader and the frame reader of the scanner recurse with fuel:
  \<open>json_loads_fuel\<close> shows that no more than what \<open>json_loads\<close> spends ever changes its answer, and the
  chunk reader is given more fuel than there are chunks.  The batch loop of the cleanup worker may
  run forever when others keep abandoning rows, so it is a partial function with None for not
  returning; \<open>cleanup_run_returns\<close> shows that it returns when they do not.  The background tasks
  are given one iteration at a time.  UUIDs are words of 128 bits; other integers are unbounded, as in
  Python.  Instants are whole microseconds where the code has datetimes or floating-point seconds.

  Assumptions.  A transaction sees the database at its start with its own writes, except where
  \<open>env\<close> puts other commits between its reads and its writes; the manager's own steps are not
  interleaved inside one of its operations except where an argument says so.  A \<open>string\<close> has the code
  points 0 to 255.  Python's recursion limit and its limit on digits of an integer are not modelled.

  Not modelled: the SQLAlchemy engine and session factory (\<open>core/database.py\<close>), which set up a library;
  how the framework parses bodies, streams responses and reads environment files, what Alembic writes
  SQL text for, and what the metrics registry prints; which instances of a logger, metric or tracer their
  libraries keep; the sleeping between iterations; the frontend, the gateway and the tests.
\<close>

end
